theory Spec2Isabelle
  imports Complex_Main
begin

section \<open>Flurry++: element kernels, solver time stepping and the supermesh helper\<close>

text \<open>
  The C++ type \<open>double\<close> is modelled by \<^typ>\<open>real\<close>: every statement below is about
  exact arithmetic. A \<open>matrix<double>\<close> is a list of rows, a \<open>vector<T>\<close> is a list, and an
  array written in place by a \<open>for\<close> loop is a fold over the index range that updates one
  entry per iteration.
\<close>

subsection \<open>In-place loops over vectors and matrices\<close>

definition mat_set :: "'a list list \<Rightarrow> nat \<Rightarrow> nat \<Rightarrow> 'a \<Rightarrow> 'a list list" where
  "mat_set M r c v = M[r := (M ! r)[c := v]]"

text \<open>\<open>for (i=0; i<n; i++) v[i] = g(i, v[i]);\<close>\<close>

definition vec_loop :: "nat \<Rightarrow> (nat \<Rightarrow> 'a \<Rightarrow> 'a) \<Rightarrow> 'a list \<Rightarrow> 'a list" where
  "vec_loop n g v = fold (\<lambda>i v. v[i := g i (v ! i)]) [0..<n] v"

text \<open>\<open>for (r=0; r<nR; r++) for (c=0; c<nC; c++) M(r,c) = f(r, c, M(r,c));\<close>\<close>

definition mat_loop :: "nat \<Rightarrow> nat \<Rightarrow> (nat \<Rightarrow> nat \<Rightarrow> 'a \<Rightarrow> 'a) \<Rightarrow> 'a list list \<Rightarrow> 'a list list" where
  "mat_loop nR nC f M =
     fold (\<lambda>r M. fold (\<lambda>c M. mat_set M r c (f r c (M ! r ! c))) [0..<nC] M) [0..<nR] M"

text \<open>\<open>for (r=0; r<nR; r++) M(r,c) = f(r, M(r,c));\<close> for one fixed column \<open>c\<close>.\<close>

definition col_loop :: "nat \<Rightarrow> nat \<Rightarrow> (nat \<Rightarrow> 'a \<Rightarrow> 'a) \<Rightarrow> 'a list list \<Rightarrow> 'a list list" where
  "col_loop nR c f M = fold (\<lambda>r M. mat_set M r c (f r (M ! r ! c))) [0..<nR] M"

subsection \<open>Points, parameters and the element state\<close>

record point =
  px :: real
  py :: real
  pz :: real

text \<open>\<open>point::operator[]\<close>: component 0, 1, 2.\<close>

definition pt_get :: "point \<Rightarrow> nat \<Rightarrow> real" where
  "pt_get p i = (if i = 0 then px p else if i = 1 then py p else pz p)"

definition pt_set :: "point \<Rightarrow> nat \<Rightarrow> real \<Rightarrow> point" where
  "pt_set p i v = (if i = 0 then p\<lparr>px := v\<rparr> else if i = 1 then p\<lparr>py := v\<rparr> else p\<lparr>pz := v\<rparr>)"

definition mk_point :: "real \<Rightarrow> real \<Rightarrow> real \<Rightarrow> point" where
  "mk_point a b c = \<lparr>px = a, py = b, pz = c\<rparr>"

text \<open>The fields of \<open>input\<close> that the modelled kernels read or write.\<close>

record input =
  equation :: int
  dtType :: int
  params_dt :: real
  time :: real
  rkTime :: real
  iter :: int
  RKa :: "real list"
  RKb :: "real list"
  motion :: int
  meshType :: int
  oversetMethod :: int
  gamma :: real
  exps0 :: real

record ele =
  ID :: nat
  nDims :: nat
  nSpts :: nat
  nFpts :: nat
  nFields :: nat
  nNodes :: nat
  dt :: real
  nodes :: "point list"
  nodesRK :: "point list"
  U_spts :: "real list list"
  U0 :: "real list list"
  U_fpts :: "real list list"
  src_spts :: "real list list"
  Uavg :: "real list"
  divF_spts :: "real list list list"
  F_spts :: "real list list list"
  dF_spts :: "real list list list list"
  dU_spts :: "real list list list"
  gridVel_spts :: "real list list"
  Jac_spts :: "real list list list"
  JGinv_spts :: "real list list list"
  detJac_spts :: "real list"
  Jac_fpts :: "real list list list"
  JGinv_fpts :: "real list list list"
  detJac_fpts :: "real list"
  dShape_spts :: "real list list list"
  dShape_fpts :: "real list list list"
  tNorm_fpts :: "real list list"
  norm_fpts :: "real list list"
  dA_fpts :: "real list"

subsection \<open>Runge-Kutta update of one element\<close>

definition timeStepA :: "input \<Rightarrow> nat \<Rightarrow> real \<Rightarrow> ele \<Rightarrow> ele" where
  "timeStepA params step rkVal e0 =
     (let e = (if dtType params \<noteq> 2 then e0\<lparr>dt := params_dt params\<rparr> else e0)
      in e\<lparr>U_spts := mat_loop (nSpts e) (nFields e)
            (\<lambda>spt i u. U0 e ! spt ! i - rkVal * dt e * (divF_spts e ! step ! spt ! i) / (detJac_spts e ! spt))
            (U_spts e)\<rparr>)"

definition timeStepB :: "input \<Rightarrow> nat \<Rightarrow> real \<Rightarrow> ele \<Rightarrow> ele" where
  "timeStepB params step rkVal e0 =
     (let e = (if dtType params \<noteq> 2 then e0\<lparr>dt := params_dt params\<rparr> else e0)
      in e\<lparr>U_spts := mat_loop (nSpts e) (nFields e)
            (\<lambda>spt i u. u - rkVal * dt e * (divF_spts e ! step ! spt ! i) / (detJac_spts e ! spt))
            (U_spts e)\<rparr>)"

definition timeStepA_source :: "input \<Rightarrow> nat \<Rightarrow> real \<Rightarrow> ele \<Rightarrow> ele" where
  "timeStepA_source params step rkVal e0 =
     (let e = (if dtType params \<noteq> 2 then e0\<lparr>dt := params_dt params\<rparr> else e0)
      in e\<lparr>U_spts := mat_loop (nSpts e) (nFields e)
            (\<lambda>spt i u. U0 e ! spt ! i
               - rkVal * dt e * (divF_spts e ! step ! spt ! i + src_spts e ! spt ! i) / (detJac_spts e ! spt))
            (U_spts e)\<rparr>)"

definition timeStepB_source :: "input \<Rightarrow> nat \<Rightarrow> real \<Rightarrow> ele \<Rightarrow> ele" where
  "timeStepB_source params step rkVal e0 =
     (let e = (if dtType params \<noteq> 2 then e0\<lparr>dt := params_dt params\<rparr> else e0)
      in e\<lparr>U_spts := mat_loop (nSpts e) (nFields e)
            (\<lambda>spt i u. u
               - rkVal * dt e * (divF_spts e ! step ! spt ! i + src_spts e ! spt ! i) / (detJac_spts e ! spt))
            (U_spts e)\<rparr>)"

definition copyUspts_U0 :: "ele \<Rightarrow> ele" where
  "copyUspts_U0 e = e\<lparr>U0 := U_spts e\<rparr>"

definition copyU0_Uspts :: "ele \<Rightarrow> ele" where
  "copyU0_Uspts e = e\<lparr>U_spts := U0 e\<rparr>"

subsection \<open>The solver's time step\<close>

text \<open>
  The solver owns the parameters, the elements and the overset blanking table
  \<open>Geo->iblankCell\<close>, read at the element's \<open>ID\<close>. \<open>OVERSET_MESH\<close>, \<open>NORMAL\<close>,
  \<open>ADVECTION_DIFFUSION\<close> and \<open>NAVIER_STOKES\<close> are constants of headers outside the modelled
  files; they are kept symbolic.
\<close>

record solver =
  params :: input
  eles :: "ele list"
  nRKSteps :: nat
  iblankCell :: "nat \<Rightarrow> int"

record mesh_consts =
  OVERSET_MESH :: int
  NORMAL :: int
  ADVECTION_DIFFUSION :: int
  NAVIER_STOKES :: int

text \<open>
  \<open>solver::calcDt\<close>, \<open>solver::moveMesh\<close> and \<open>solver::calcResidual\<close> run the face kernels,
  the operator cache and the overset connectivity; \<open>solver::update\<close> only sequences them, so
  they are taken as arbitrary state transformers.
\<close>

record kernels =
  calcDt :: "solver \<Rightarrow> solver"
  moveMesh :: "nat \<Rightarrow> solver \<Rightarrow> solver"
  calcResidual :: "nat \<Rightarrow> solver \<Rightarrow> solver"

definition solver_timeStepA :: "mesh_consts \<Rightarrow> nat \<Rightarrow> bool \<Rightarrow> solver \<Rightarrow> solver" where
  "solver_timeStepA C step PMG_Source s =
     (let p = params s; rk = RKa p ! (step + 1) in
      if PMG_Source then
        (if meshType p = OVERSET_MESH C \<and> oversetMethod p = 2
         then s\<lparr>eles := map (\<lambda>e. if iblankCell s (ID e) = NORMAL C
                                  then timeStepA_source p step rk e else e) (eles s)\<rparr>
         else s\<lparr>eles := map (timeStepA_source p step rk) (eles s)\<rparr>)
      else
        (if meshType p = OVERSET_MESH C \<and> oversetMethod p = 2
         then s\<lparr>eles := map (\<lambda>e. if iblankCell s (ID e) = NORMAL C
                                  then timeStepA p step rk e else e) (eles s)\<rparr>
         else s\<lparr>eles := map (timeStepA p step rk) (eles s)\<rparr>))"

definition solver_timeStepB :: "mesh_consts \<Rightarrow> nat \<Rightarrow> bool \<Rightarrow> solver \<Rightarrow> solver" where
  "solver_timeStepB C step PMG_Source s =
     (let p = params s; rk = RKb p ! step in
      if PMG_Source then
        (if meshType p = OVERSET_MESH C \<and> oversetMethod p = 2
         then s\<lparr>eles := map (\<lambda>e. if iblankCell s (ID e) = NORMAL C
                                  then timeStepB_source p step rk e else e) (eles s)\<rparr>
         else s\<lparr>eles := map (timeStepB_source p step rk) (eles s)\<rparr>)
      else
        (if meshType p = OVERSET_MESH C \<and> oversetMethod p = 2
         then s\<lparr>eles := map (\<lambda>e. if iblankCell s (ID e) = NORMAL C
                                  then timeStepB p step rk e else e) (eles s)\<rparr>
         else s\<lparr>eles := map (timeStepB p step rk) (eles s)\<rparr>))"

definition solver_copyUspts_U0 :: "solver \<Rightarrow> solver" where
  "solver_copyUspts_U0 s = s\<lparr>eles := map copyUspts_U0 (eles s)\<rparr>"

definition solver_copyU0_Uspts :: "solver \<Rightarrow> solver" where
  "solver_copyU0_Uspts s = s\<lparr>eles := map copyU0_Uspts (eles s)\<rparr>"

definition set_rkTime :: "nat \<Rightarrow> solver \<Rightarrow> solver" where
  "set_rkTime step s =
     s\<lparr>params := (params s)\<lparr>rkTime := time (params s) + RKa (params s) ! step * params_dt (params s)\<rparr>\<rparr>"

text \<open>
  \<open>solver::update\<close>. \<open>nRKSteps\<close> is written by \<open>solver::setup\<close> only and is read once
  here; for \<open>nRKSteps = 0\<close> the source indexes \<open>RKa[-1]\<close>, so the theorems assume
  \<open>0 < nRKSteps\<close>.
\<close>

definition update :: "mesh_consts \<Rightarrow> kernels \<Rightarrow> bool \<Rightarrow> solver \<Rightarrow> solver" where
  "update C K PMG_Source s0 =
     (let S = nRKSteps s0;
          s = s0\<lparr>params := (params s0)\<lparr>iter := iter (params s0) + 1\<rparr>\<rparr>;
          s = (if dtType (params s) \<noteq> 0 then calcDt K s else s);
          s = fold (\<lambda>step s.
                 let s = set_rkTime step s;
                     s = moveMesh K step s;
                     s = (if step = 0 then solver_copyUspts_U0 s else s);
                     s = calcResidual K step s
                 in solver_timeStepA C step PMG_Source s) [0..<S - 1] s;
          s = set_rkTime (S - 1) s;
          s = moveMesh K (S - 1) s;
          s = calcResidual K (S - 1) s;
          s = (if S > 1 then solver_copyU0_Uspts s else s);
          s = fold (\<lambda>step. solver_timeStepB C step PMG_Source) [0..<S] s
      in s\<lparr>params := (params s)\<lparr>time := time (params s) + params_dt (params s)\<rparr>\<rparr>)"

text \<open>
  The state of \<open>solver::update\<close> right after \<open>calcResidual(nRKSteps-1)\<close>, that is, the
  prefix of the body above up to the residual of the last stage.
\<close>

definition update_stages :: "mesh_consts \<Rightarrow> kernels \<Rightarrow> bool \<Rightarrow> solver \<Rightarrow> solver" where
  "update_stages C K PMG_Source s0 =
     (let S = nRKSteps s0;
          s = s0\<lparr>params := (params s0)\<lparr>iter := iter (params s0) + 1\<rparr>\<rparr>;
          s = (if dtType (params s) \<noteq> 0 then calcDt K s else s);
          s = fold (\<lambda>step s.
                 let s = set_rkTime step s;
                     s = moveMesh K step s;
                     s = (if step = 0 then solver_copyUspts_U0 s else s);
                     s = calcResidual K step s
                 in solver_timeStepA C step PMG_Source s) [0..<S - 1] s;
          s = set_rkTime (S - 1) s;
          s = moveMesh K (S - 1) s
      in calcResidual K (S - 1) s)"

text \<open>The time step that \<open>timeStepA\<close> and \<open>timeStepB\<close> use: the global one unless \<open>dtType = 2\<close>.\<close>

definition dt_eff :: "input \<Rightarrow> ele \<Rightarrow> real" where
  "dt_eff p e = (if dtType p \<noteq> 2 then params_dt p else dt e)"

text \<open>
  Whether the solver's \<open>timeStepA\<close>/\<open>timeStepB\<close> loops touch an element: in overset runs with
  field interpolation only the cells tagged \<open>NORMAL\<close> are advanced.
\<close>

definition advanced :: "mesh_consts \<Rightarrow> solver \<Rightarrow> ele \<Rightarrow> bool" where
  "advanced C s e \<longleftrightarrow>
     \<not> (meshType (params s) = OVERSET_MESH C \<and> oversetMethod (params s) = 2)
     \<or> iblankCell s (ID e) = NORMAL C"

subsection \<open>Supermesh helper\<close>

text \<open>
  \<open>FatalError(msg)\<close> prints the message and terminates the process; a function that can reach
  it returns \<open>Inl (FatalError msg)\<close> there.
\<close>

datatype fatal = FatalError string














text \<open>
  \<open>superMesh::integrate\<close>. The body checks the length, sets \<open>val = 0\<close>, runs two nested loops
  with an empty body and ends without a \<open>return\<close> statement: on that path the function hands
  no value back, which is \<open>Inr None\<close> here.
\<close>

record superMesh =
  nQpts :: int
  nTets :: int
  nQpts_tet :: int

definition integrate :: "superMesh \<Rightarrow> real list \<Rightarrow> fatal + real option" where
  "integrate sm data =
     (if int (length data) \<noteq> nQpts sm
      then Inl (FatalError ''To integrate over supermesh, data must lie at its quadrature nodes.'')
      else (let val = (0::real);
                val = fold (\<lambda>i val. fold (\<lambda>j val. val) [0..<nat (nQpts_tet sm)] val) [0..<nat (nTets sm)] val
            in Inr None))"

subsection \<open>Geometric transformation\<close>

text \<open>
  The Jacobian at one point: after \<open>initializeToZero\<close>, the loops add
  \<open>dShape(i,dim2) * nodes[i][dim1]\<close> into entry \<open>(dim1,dim2)\<close> for every node \<open>i\<close>. The matrices
  \<open>Jac\<close> and \<open>JGinv\<close> are set up as \<open>nDims \<times> nDims\<close> by \<open>setupArrays\<close>.
\<close>

definition jacobian_at :: "real list list \<Rightarrow> point list \<Rightarrow> nat \<Rightarrow> nat \<Rightarrow> real list list" where
  "jacobian_at dShape xs nN nD =
     map (\<lambda>dim1. map (\<lambda>dim2.
            fold (\<lambda>i acc. acc + dShape ! i ! dim2 * pt_get (xs ! i) dim1) [0..<nN] 0) [0..<nD]) [0..<nD]"

definition det2 :: "real list list \<Rightarrow> real" where
  "det2 J = J ! 0 ! 0 * J ! 1 ! 1 - J ! 1 ! 0 * J ! 0 ! 1"

definition adj2 :: "real list list \<Rightarrow> real list list" where
  "adj2 J = [[J ! 1 ! 1, - (J ! 0 ! 1)], [- (J ! 1 ! 0), J ! 0 ! 0]]"

definition det3 :: "real list list \<Rightarrow> real" where
  "det3 J =
     (let xr = J ! 0 ! 0; xs = J ! 0 ! 1; xt = J ! 0 ! 2;
          yr = J ! 1 ! 0; ys = J ! 1 ! 1; yt = J ! 1 ! 2;
          zr = J ! 2 ! 0; zs = J ! 2 ! 1; zt = J ! 2 ! 2
      in xr * (ys * zt - yt * zs) - xs * (yr * zt - yt * zr) + xt * (yr * zs - ys * zr))"

definition adj3 :: "real list list \<Rightarrow> real list list" where
  "adj3 J =
     (let xr = J ! 0 ! 0; xs = J ! 0 ! 1; xt = J ! 0 ! 2;
          yr = J ! 1 ! 0; ys = J ! 1 ! 1; yt = J ! 1 ! 2;
          zr = J ! 2 ! 0; zs = J ! 2 ! 1; zt = J ! 2 ! 2
      in [[ys * zt - yt * zs, xt * zs - xs * zt, xs * yt - xt * ys],
          [yt * zr - yr * zt, xr * zt - xt * zr, xt * yr - xr * yt],
          [yr * zs - ys * zr, xs * zr - xr * zs, xr * ys - xs * yr]])"

text \<open>Body of the solution-point loop of \<open>ele::calcTransforms\<close>, up to the sign check.\<close>

definition transform_spt :: "bool \<Rightarrow> nat \<Rightarrow> ele \<Rightarrow> ele" where
  "transform_spt moving spt e0 =
     (let J = jacobian_at (dShape_spts e0 ! spt) (if \<not> moving then nodes e0 else nodesRK e0)
                (nNodes e0) (nDims e0);
          e = e0\<lparr>Jac_spts := (Jac_spts e0)[spt := J]\<rparr>
      in if nDims e = 2 then
           e\<lparr>detJac_spts := (detJac_spts e)[spt := det2 J],
             JGinv_spts := (JGinv_spts e)[spt := adj2 J]\<rparr>
         else if nDims e = 3 then
           e\<lparr>detJac_spts := (detJac_spts e)[spt := det3 J],
             JGinv_spts := (JGinv_spts e)[spt := adj3 J]\<rparr>
         else e)"

fun spts_loop :: "bool \<Rightarrow> nat list \<Rightarrow> ele \<Rightarrow> fatal + ele" where
  "spts_loop moving [] e = Inr e"
| "spts_loop moving (spt # rest) e =
     (let e' = transform_spt moving spt e
      in if detJac_spts e' ! spt < 0 then Inl (FatalError ''Negative Jacobian at solution points.'')
         else spts_loop moving rest e')"

text \<open>
  Body of the flux-point loop, in the three phases of the source: Jacobian, determinant and
  adjoint as above (there is no sign check here); the physical normal \<open>JGinv^T * tNorm\<close>;
  its magnitude \<open>dA\<close> and the normalisation, with the collapsed-edge branch for
  \<open>|dA| < 1e-10\<close>.
\<close>

definition fpt_jacobian :: "bool \<Rightarrow> nat \<Rightarrow> ele \<Rightarrow> ele" where
  "fpt_jacobian moving fpt e0 =
     (let J = jacobian_at (dShape_fpts e0 ! fpt) (if \<not> moving then nodes e0 else nodesRK e0)
                (nNodes e0) (nDims e0);
          e = e0\<lparr>Jac_fpts := (Jac_fpts e0)[fpt := J]\<rparr>
      in if nDims e = 2 then
           e\<lparr>detJac_fpts := (detJac_fpts e)[fpt := det2 J],
             JGinv_fpts := (JGinv_fpts e)[fpt := adj2 J]\<rparr>
         else if nDims e = 3 then
           e\<lparr>detJac_fpts := (detJac_fpts e)[fpt := det3 J],
             JGinv_fpts := (JGinv_fpts e)[fpt := adj3 J]\<rparr>
         else e)"

definition fpt_normal :: "nat \<Rightarrow> ele \<Rightarrow> ele" where
  "fpt_normal fpt e =
     e\<lparr>norm_fpts := (norm_fpts e)[fpt :=
         vec_loop (nDims e) (\<lambda>dim1 v.
             fold (\<lambda>dim2 acc. acc + JGinv_fpts e ! fpt ! dim2 ! dim1 * (tNorm_fpts e ! fpt ! dim2))
               [0..<nDims e] 0)
           (norm_fpts e ! fpt)]\<rparr>"

definition fpt_area :: "nat \<Rightarrow> ele \<Rightarrow> ele" where
  "fpt_area fpt e0 =
     (let dA = sqrt (fold (\<lambda>dim acc. acc + norm_fpts e0 ! fpt ! dim * (norm_fpts e0 ! fpt ! dim))
                       [0..<nDims e0] 0);
          e = e0\<lparr>dA_fpts := (dA_fpts e0)[fpt := dA]\<rparr>
      in if \<bar>dA_fpts e ! fpt\<bar> < 1 / 10 ^ 10 then
           e\<lparr>dA_fpts := (dA_fpts e)[fpt := 0],
             norm_fpts := (norm_fpts e)[fpt := vec_loop (nDims e) (\<lambda>dim v. 0) (norm_fpts e ! fpt)]\<rparr>
         else
           e\<lparr>norm_fpts := (norm_fpts e)[fpt :=
                 vec_loop (nDims e) (\<lambda>dim v. v / dA_fpts e ! fpt) (norm_fpts e ! fpt)]\<rparr>)"

definition transform_fpt :: "bool \<Rightarrow> nat \<Rightarrow> ele \<Rightarrow> ele" where
  "transform_fpt moving fpt e = fpt_area fpt (fpt_normal fpt (fpt_jacobian moving fpt e))"

definition calcTransforms :: "bool \<Rightarrow> ele \<Rightarrow> fatal + ele" where
  "calcTransforms moving e =
     (case spts_loop moving [0..<nSpts e] e of
        Inl err \<Rightarrow> Inl err
      | Inr e1 \<Rightarrow> Inr (fold (transform_fpt moving) [0..<nFpts e1] e1))"

text \<open>
  The determinant that the sign check of \<open>calcTransforms\<close> reads at a solution point: the
  2-D or 3-D formula applied to the Jacobian (for any other \<open>nDims\<close> the stored value is not
  rewritten).
\<close>

definition spt_det :: "bool \<Rightarrow> ele \<Rightarrow> nat \<Rightarrow> real" where
  "spt_det moving e spt =
     (let J = jacobian_at (dShape_spts e ! spt) (if \<not> moving then nodes e else nodesRK e)
                (nNodes e) (nDims e)
      in if nDims e = 2 then det2 J else if nDims e = 3 then det3 J else detJac_spts e ! spt)"

text \<open>
  What the flux-point loop computes at one flux point, read off the loop body: the Jacobian,
  its determinant and adjoint, the physical normal before normalisation, and its magnitude.
\<close>

definition fpt_jac :: "bool \<Rightarrow> ele \<Rightarrow> nat \<Rightarrow> real list list" where
  "fpt_jac moving e fpt =
     jacobian_at (dShape_fpts e ! fpt) (if \<not> moving then nodes e else nodesRK e) (nNodes e) (nDims e)"

definition fpt_det :: "bool \<Rightarrow> ele \<Rightarrow> nat \<Rightarrow> real" where
  "fpt_det moving e fpt =
     (if nDims e = 2 then det2 (fpt_jac moving e fpt)
      else if nDims e = 3 then det3 (fpt_jac moving e fpt) else detJac_fpts e ! fpt)"

definition fpt_adj :: "bool \<Rightarrow> ele \<Rightarrow> nat \<Rightarrow> real list list" where
  "fpt_adj moving e fpt =
     (if nDims e = 2 then adj2 (fpt_jac moving e fpt)
      else if nDims e = 3 then adj3 (fpt_jac moving e fpt) else JGinv_fpts e ! fpt)"

definition fpt_raw :: "bool \<Rightarrow> ele \<Rightarrow> nat \<Rightarrow> nat \<Rightarrow> real" where
  "fpt_raw moving e fpt dim1 =
     fold (\<lambda>dim2 acc. acc + fpt_adj moving e fpt ! dim2 ! dim1 * (tNorm_fpts e ! fpt ! dim2))
       [0..<nDims e] 0"

definition fpt_mag :: "bool \<Rightarrow> ele \<Rightarrow> nat \<Rightarrow> real" where
  "fpt_mag moving e fpt =
     sqrt (fold (\<lambda>dim acc. acc + fpt_raw moving e fpt dim * fpt_raw moving e fpt dim) [0..<nDims e] 0)"

text \<open>
  The entries that the loop leaves at flux point \<open>fpt\<close> of \<open>e'\<close>, in terms of the element \<open>e\<close>
  before the call: with \<open>mag\<close> the magnitude above, \<open>dA\<close> is \<open>mag\<close> and the normal is
  \<open>raw / mag\<close>, or both are zero when \<open>mag < 1e-10\<close>.
\<close>

definition fpt_result :: "bool \<Rightarrow> ele \<Rightarrow> ele \<Rightarrow> nat \<Rightarrow> bool" where
  "fpt_result moving e e' fpt \<longleftrightarrow>
     detJac_fpts e' ! fpt = fpt_det moving e fpt
     \<and> dA_fpts e' ! fpt = (if fpt_mag moving e fpt < 1 / 10 ^ 10 then 0 else fpt_mag moving e fpt)
     \<and> length (norm_fpts e' ! fpt) = nDims e
     \<and> (\<forall>d<nDims e. norm_fpts e' ! fpt ! d
            = (if fpt_mag moving e fpt < 1 / 10 ^ 10 then 0
               else fpt_raw moving e fpt d / fpt_mag moving e fpt))"

text \<open>Euclidean length of the stored normal at a flux point.\<close>

definition norm_len :: "ele \<Rightarrow> nat \<Rightarrow> real" where
  "norm_len e fpt = sqrt (\<Sum>dim<nDims e. (norm_fpts e ! fpt ! dim)\<^sup>2)"

text \<open>The arrays that the transformation writes, sized as \<open>setupArrays\<close> leaves them.\<close>

definition geo_sized :: "ele \<Rightarrow> bool" where
  "geo_sized e \<longleftrightarrow>
     length (detJac_spts e) = nSpts e \<and> length (Jac_spts e) = nSpts e \<and> length (JGinv_spts e) = nSpts e
     \<and> length (detJac_fpts e) = nFpts e \<and> length (Jac_fpts e) = nFpts e \<and> length (JGinv_fpts e) = nFpts e
     \<and> length (dA_fpts e) = nFpts e \<and> length (norm_fpts e) = nFpts e
     \<and> list_all (\<lambda>row. length row = nDims e) (norm_fpts e)
     \<and> (nDims e = 2 \<or> nDims e = 3)"

subsection \<open>Dense matrices\<close>

text \<open>
  Modelled from the spec: \<open>matrix::det\<close> and \<open>matrix::adjoint\<close> (the matrix class is not among
  the source files). The specification describes the adjoint as the matrix of cofactors equal
  to \<open>det(J) * J^-1\<close>, which in two dimensions is the closed form that \<open>calcTransforms\<close>
  writes into \<open>JGinv\<close>. The determinant is expanded along the first row.
\<close>

definition minor_mat :: "real list list \<Rightarrow> nat \<Rightarrow> nat \<Rightarrow> real list list" where
  "minor_mat M i j =
     map (\<lambda>row. take j row @ drop (Suc j) row) (take i M @ drop (Suc i) M)"

primrec det_n :: "nat \<Rightarrow> real list list \<Rightarrow> real" where
  "det_n 0 M = 1"
| "det_n (Suc n) M =
     (\<Sum>j\<leftarrow>[0..<Suc n]. (- 1) ^ j * (M ! 0 ! j) * det_n n (minor_mat M 0 j))"

definition mat_det :: "real list list \<Rightarrow> real" where
  "mat_det M = det_n (length M) M"

definition mat_adjoint :: "real list list \<Rightarrow> real list list" where
  "mat_adjoint M =
     map (\<lambda>i. map (\<lambda>j. (- 1) ^ (i + j) * det_n (length M - 1) (minor_mat M j i)) [0..<length M])
       [0..<length M]"

subsection \<open>Reference-location search\<close>

text \<open>
  \<open>ele::getBoundingBox\<close> starts from \<open>(+INFINITY, ..., -INFINITY, ...)\<close> and folds \<open>min\<close> and
  \<open>max\<close> over the nodes. For an element without nodes the box stays infinite, which is
  \<open>None\<close>; otherwise the result is \<open>[xmin, ymin, zmin, xmax, ymax, zmax]\<close>.
\<close>

definition getBoundingBox :: "input \<Rightarrow> ele \<Rightarrow> real list option" where
  "getBoundingBox prm e =
     (let pts = (if motion prm = 0 then nodes e else nodesRK e)
      in case pts of
           [] \<Rightarrow> None
         | p # ps \<Rightarrow>
             Some (map (\<lambda>d. fold (\<lambda>pt b. min b (pt_get pt d)) ps (pt_get p d)) [0, 1, 2]
                   @ map (\<lambda>d. fold (\<lambda>pt b. max b (pt_get pt d)) ps (pt_get p d)) [0, 1, 2]))"

text \<open>
  \<open>shape_quad\<close> and \<open>dshape_quad\<close> belong to the geometry helpers, which are not among the
  source files; the search takes them as parameters.
\<close>

record shape_fns =
  shape_quad :: "point \<Rightarrow> nat \<Rightarrow> real list"
  dshape_quad :: "point \<Rightarrow> nat \<Rightarrow> real list list"

text \<open>The matrix \<open>grad\<close> that the \<open>while\<close> body accumulates at the location \<open>loc\<close>.\<close>

definition newton_grad :: "shape_fns \<Rightarrow> input \<Rightarrow> ele \<Rightarrow> point \<Rightarrow> real list list" where
  "newton_grad sf prm e loc =
     (let dshape = dshape_quad sf loc (nNodes e);
          xs = (if motion prm \<noteq> 0 then nodesRK e else nodes e)
      in map (\<lambda>i. map (\<lambda>j.
           fold (\<lambda>n acc. acc + pt_get (xs ! n) i * (dshape ! n ! j)) [0..<nNodes e] 0)
           [0..<nDims e]) [0..<nDims e])"

text \<open>
  One pass of the \<open>while\<close> body, up to \<open>iter++\<close>: the new location and the new \<open>norm\<close>. The
  body divides by \<open>detJ\<close> without a guard. With \<open>detJ = 0\<close> every term of \<open>delta\<close> is an
  infinity or a NaN of the \<open>double\<close> type; \<open>max(min(x, 1.), -1.)\<close> hands a NaN through, and
  with a NaN in the location the next \<open>norm\<close> is a NaN, \<open>norm > tol\<close> is false and the loop
  ends with \<open>return true\<close>. None of these values is a real number: the step is \<open>None\<close> there,
  and nothing is said about what the search hands back.
\<close>

definition newton_step :: "shape_fns \<Rightarrow> input \<Rightarrow> ele \<Rightarrow> point \<Rightarrow> point \<Rightarrow> (point \<times> real) option" where
  "newton_step sf prm e pos loc =
     (let shape = shape_quad sf loc (nNodes e);
          xs = (if motion prm \<noteq> 0 then nodesRK e else nodes e);
          grad = newton_grad sf prm e loc;
          dx = fold (\<lambda>i dx. pt_set dx i
                   (fold (\<lambda>n acc. acc - shape ! n * pt_get (xs ! n) i) [0..<nNodes e] (pt_get dx i)))
                 [0..<nDims e] pos;
          detJ = mat_det grad;
          ginv = mat_adjoint grad
      in if detJ = 0 then None
         else
           (let delta = fold (\<lambda>i dl. pt_set dl i
                          (fold (\<lambda>j acc. acc + ginv ! i ! j * pt_get dx j / detJ) [0..<nDims e] (pt_get dl i)))
                        [0..<nDims e] (mk_point 0 0 0);
                nrm = fold (\<lambda>i acc. acc + pt_get dx i * pt_get dx i) [0..<nDims e] 0;
                loc' = fold (\<lambda>i l. pt_set l i (max (min (pt_get l i + pt_get delta i) 1) (- 1)))
                         [0..<nDims e] loc
            in Some (loc', nrm)))"

text \<open>
  The \<open>while\<close> loop with its early \<open>return false\<close>; the result carries the final \<open>loc\<close> and
  \<open>iter\<close> besides the returned flag. It is \<open>None\<close> when an iterate with \<open>detJ = 0\<close> is met.
\<close>

function newton_loop ::
  "shape_fns \<Rightarrow> input \<Rightarrow> ele \<Rightarrow> point \<Rightarrow> real \<Rightarrow> nat \<Rightarrow> point \<Rightarrow> real \<Rightarrow> nat \<Rightarrow> (bool \<times> point \<times> nat) option" where
  "newton_loop sf prm e pos tol iterMax loc nrm it =
     (if nrm > tol \<and> it < iterMax then
        (case newton_step sf prm e pos loc of
           None \<Rightarrow> None
         | Some (loc', nrm') \<Rightarrow>
             (let it' = it + 1
              in if it' = iterMax then Some (False, loc', it')
                 else newton_loop sf prm e pos tol iterMax loc' nrm' it'))
      else Some (True, loc, it))"
  by pat_completeness auto
termination
  by (relation "measure (\<lambda>(sf, prm, e, pos, tol, iterMax, loc, nrm, it). iterMax - it)") auto

declare newton_loop.simps [simp del]

definition bbox_reject :: "real list option \<Rightarrow> point \<Rightarrow> bool" where
  "bbox_reject box pos =
     (case box of
        None \<Rightarrow> True
      | Some b \<Rightarrow>
          (let eps = 1 / 10 ^ 10
           in px pos < b ! 0 - eps \<or> py pos < b ! 1 - eps \<or> pz pos < b ! 2 - eps
              \<or> px pos > b ! 3 + eps \<or> py pos > b ! 4 + eps \<or> pz pos > b ! 5 + eps))"

text \<open>\<open>ele::getRefLocNewton\<close>: the returned flag, the location handed back, and \<open>iter\<close>.\<close>

definition getRefLocNewton_run ::
  "shape_fns \<Rightarrow> input \<Rightarrow> ele \<Rightarrow> point \<Rightarrow> (bool \<times> point \<times> nat) option" where
  "getRefLocNewton_run sf prm e pos =
     (let box = getBoundingBox prm e
      in if bbox_reject box pos then Some (False, mk_point 99 99 99, 0)
         else
           (let b = the box;
                h = min (b ! 3 - b ! 0) (b ! 4 - b ! 1);
                h = (if nDims e = 3 then min h (b ! 5 - b ! 2) else h);
                tol = 1 / 10 ^ 12 * h
            in newton_loop sf prm e pos tol 20 (mk_point 0 0 0) 1 0))"

definition getRefLocNewton :: "shape_fns \<Rightarrow> input \<Rightarrow> ele \<Rightarrow> point \<Rightarrow> (bool \<times> point) option" where
  "getRefLocNewton sf prm e pos =
     map_option (\<lambda>(ok, loc, it). (ok, loc)) (getRefLocNewton_run sf prm e pos)"

text \<open>All three coordinates of a reference location in \<open>[-1, 1]\<close>.\<close>

definition in_ref_cube :: "point \<Rightarrow> bool" where
  "in_ref_cube p \<longleftrightarrow> \<bar>px p\<bar> \<le> 1 \<and> \<bar>py p\<bar> \<le> 1 \<and> \<bar>pz p\<bar> \<le> 1"

subsection \<open>Positivity enforcement (squeezing)\<close>

text \<open>
  \<open>ele::getPrimitives\<close> and \<open>ele::getPrimitivesFpt\<close> have the same body, applied to a row of
  \<open>U_spts\<close> or of \<open>U_fpts\<close>. \<open>std::pow\<close> is modelled by \<open>powr\<close>, which agrees with it on a
  base that is not negative. The \<open>double\<close> values are real numbers here and every operation is
  exact: the comparisons \<open>U < 0\<close> and \<open>minTau < 0\<close> are those of the exact values.
\<close>

definition primitives :: "mesh_consts \<Rightarrow> input \<Rightarrow> ele \<Rightarrow> real list \<Rightarrow> real list" where
  "primitives C prm e U =
     (let V = replicate (nFields e) 0 in
      if equation prm = ADVECTION_DIFFUSION C then V[0 := U ! 0]
      else if equation prm = NAVIER_STOKES C then
        (let V = V[0 := U ! 0];
             V = V[1 := U ! 1 / V ! 0];
             V = V[2 := U ! 2 / V ! 0];
             vMagSq = V ! 1 * V ! 1 + V ! 2 * V ! 2;
             V = (if nDims e = 3 then V[3 := U ! 3 / V ! 0] else V);
             vMagSq = (if nDims e = 3 then vMagSq + V ! 3 * V ! 3 else vMagSq)
         in V[nDims e + 1 := (gamma prm - 1) * (U ! (nDims e + 1) - 1 / 2 * V ! 0 * vMagSq)])
      else V)"

definition getPrimitives :: "mesh_consts \<Rightarrow> input \<Rightarrow> ele \<Rightarrow> nat \<Rightarrow> real list" where
  "getPrimitives C prm e spt = primitives C prm e (U_spts e ! spt)"

definition getPrimitivesFpt :: "mesh_consts \<Rightarrow> input \<Rightarrow> ele \<Rightarrow> nat \<Rightarrow> real list" where
  "getPrimitivesFpt C prm e fpt = primitives C prm e (U_fpts e ! fpt)"

text \<open>
  The two scanning loops at the head of \<open>ele::checkEntropy\<close>, over the densities they visit:
  \<open>negRho\<close> and \<open>minRho\<close>, starting from \<open>(false, 1e15)\<close>.
\<close>

definition scan_neg :: "real list \<Rightarrow> bool \<times> real \<Rightarrow> bool \<times> real" where
  "scan_neg vs = fold (\<lambda>v (negRho, minRho). if v < 0 then (True, min minRho v) else (negRho, minRho)) vs"

definition spt_densities :: "ele \<Rightarrow> real list" where
  "spt_densities e = map (\<lambda>spt. U_spts e ! spt ! 0) [0..<nSpts e]"

definition fpt_densities :: "ele \<Rightarrow> real list" where
  "fpt_densities e = map (\<lambda>fpt. U_fpts e ! fpt ! 0) [0..<nFpts e]"

definition neg_scan :: "ele \<Rightarrow> bool \<times> real" where
  "neg_scan e = scan_neg (fpt_densities e) (scan_neg (spt_densities e) (False, 10 ^ 15))"

text \<open>The blend factor \<open>eps\<close> of the density squeeze.\<close>

definition density_eps :: "ele \<Rightarrow> real" where
  "density_eps e = \<bar>Uavg e ! 0 - 1 / 10 ^ 10\<bar> / (Uavg e ! 0 - snd (neg_scan e))"

text \<open>First part of \<open>ele::checkEntropy\<close>: squeeze the density if some density is negative.\<close>

definition squeeze_density :: "ele \<Rightarrow> ele" where
  "squeeze_density e =
     (if fst (neg_scan e) then
        (let eps = density_eps e
         in e\<lparr>U_spts := col_loop (nSpts e) 0 (\<lambda>spt u. (1 - eps) * Uavg e ! 0 + eps * u) (U_spts e),
               U_fpts := col_loop (nFpts e) 0 (\<lambda>fpt u. (1 - eps) * Uavg e ! 0 + eps * u) (U_fpts e)\<rparr>)
      else e)"

text \<open>The entropy-bounding value \<open>tau = p - exps0 * rho^gamma\<close> of one state vector.\<close>

definition tau_of :: "mesh_consts \<Rightarrow> input \<Rightarrow> ele \<Rightarrow> real list \<Rightarrow> real" where
  "tau_of C prm e U =
     (let phi = primitives C prm e U; rho = phi ! 0; p = phi ! (nDims e + 1)
      in p - exps0 prm * rho powr gamma prm)"

definition minTau :: "mesh_consts \<Rightarrow> input \<Rightarrow> ele \<Rightarrow> real" where
  "minTau C prm e =
     fold (\<lambda>fpt mt. min mt (tau_of C prm e (U_fpts e ! fpt))) [0..<nFpts e]
       (fold (\<lambda>spt mt. min mt (tau_of C prm e (U_spts e ! spt))) [0..<nSpts e] (10 ^ 15))"

text \<open>The blend factor \<open>Eps\<close> of the entropy squeeze, from the mean state.\<close>

definition entropy_Eps :: "mesh_consts \<Rightarrow> input \<Rightarrow> ele \<Rightarrow> real" where
  "entropy_Eps C prm e =
     (let rho = Uavg e ! 0;
          u = Uavg e ! 1 / rho;
          v = Uavg e ! 2 / rho;
          w = (if nDims e = 3 then Uavg e ! 3 / rho else 0);
          vMagSq = u * u + v * v + w * w;
          p = (gamma prm - 1) * (Uavg e ! (nDims e + 1) - 1 / 2 * rho * vMagSq)
      in minTau C prm e / (minTau C prm e - p + exps0 prm * rho powr gamma prm))"

text \<open>
  Second part of \<open>ele::checkEntropy\<close>: blend every field toward the mean if \<open>minTau < 0\<close>.
  Where \<open>tau\<close> is affine along the segment from a point to the mean (a fluid at rest with
  \<open>exps0 = 0\<close>), the exact blend puts the point of least \<open>tau\<close> on the bound \<open>tau = 0\<close> itself;
  the rounded blend of the \<open>double\<close> type can leave it on either side of the bound.
\<close>

definition squeeze_entropy :: "mesh_consts \<Rightarrow> input \<Rightarrow> ele \<Rightarrow> ele" where
  "squeeze_entropy C prm e =
     (if minTau C prm e < 0 then
        (let Eps = entropy_Eps C prm e
         in e\<lparr>U_spts := mat_loop (nSpts e) (nFields e) (\<lambda>spt i u. Eps * Uavg e ! i + (1 - Eps) * u) (U_spts e),
               U_fpts := mat_loop (nFpts e) (nFields e) (\<lambda>fpt i u. Eps * Uavg e ! i + (1 - Eps) * u) (U_fpts e)\<rparr>)
      else e)"

definition checkEntropy :: "mesh_consts \<Rightarrow> input \<Rightarrow> ele \<Rightarrow> ele" where
  "checkEntropy C prm e = squeeze_entropy C prm (squeeze_density e)"

text \<open>
  \<open>ele::checkDensity\<close>: the same density squeeze, except that each scanning loop leaves at
  its first negative density (\<open>break\<close>). It returns \<open>negRho\<close>.
\<close>

definition scan_first_neg :: "real list \<Rightarrow> bool \<times> real \<Rightarrow> bool \<times> real" where
  "scan_first_neg vs st =
     (case find (\<lambda>v. v < 0) vs of
        None \<Rightarrow> st
      | Some v \<Rightarrow> (True, min (snd st) v))"

definition checkDensity :: "ele \<Rightarrow> bool \<times> ele" where
  "checkDensity e =
     (let (negRho, minRho) = scan_first_neg (fpt_densities e) (scan_first_neg (spt_densities e) (False, 10 ^ 15))
      in if negRho then
           (let eps = \<bar>Uavg e ! 0 - 1 / 10 ^ 10\<bar> / (Uavg e ! 0 - minRho)
            in (negRho,
                e\<lparr>U_spts := col_loop (nSpts e) 0 (\<lambda>spt u. (1 - eps) * Uavg e ! 0 + eps * u) (U_spts e),
                  U_fpts := col_loop (nFpts e) 0 (\<lambda>fpt u. (1 - eps) * Uavg e ! 0 + eps * u) (U_fpts e)\<rparr>))
         else (negRho, e))"

text \<open>
  The minimum density over all solution and flux points, and the sizes that \<open>setupArrays\<close>
  gives to the solution arrays.
\<close>

definition rho_min :: "ele \<Rightarrow> real" where
  "rho_min e = Min (set (spt_densities e @ fpt_densities e))"

definition sol_sized :: "ele \<Rightarrow> bool" where
  "sol_sized e \<longleftrightarrow>
     length (U_spts e) = nSpts e \<and> length (U_fpts e) = nFpts e
     \<and> list_all (\<lambda>row. length row = nFields e) (U_spts e)
     \<and> list_all (\<lambda>row. length row = nFields e) (U_fpts e)
     \<and> 0 < nFields e"

text \<open>
  The entropy-bounding value in closed form, for the Navier-Stokes state vector
  \<open>(rho, rho*u_1 .. rho*u_nD, E)\<close>.
\<close>

definition tau_fn :: "input \<Rightarrow> nat \<Rightarrow> real list \<Rightarrow> real" where
  "tau_fn prm nD U =
     (gamma prm - 1) * (U ! (nD + 1) - 1 / 2 * (\<Sum>k<nD. (U ! (k + 1))\<^sup>2 / U ! 0))
       - exps0 prm * (U ! 0) powr gamma prm"

text \<open>An element state that needs no squeezing: positive densities and no negative \<open>tau\<close>.\<close>

definition settled :: "mesh_consts \<Rightarrow> input \<Rightarrow> ele \<Rightarrow> bool" where
  "settled C prm e \<longleftrightarrow>
     (\<forall>spt<nSpts e. 0 < U_spts e ! spt ! 0 \<and> 0 \<le> tau_of C prm e (U_spts e ! spt))
     \<and> (\<forall>fpt<nFpts e. 0 < U_fpts e ! fpt ! 0 \<and> 0 \<le> tau_of C prm e (U_fpts e ! fpt))"

subsection \<open>Flux divergence\<close>

text \<open>
  Modelled from the spec: the operator bundle and its application (\<open>oper::applyGradFSpts\<close>,
  \<open>oper::applyDivFSpts\<close>; the operator class is not among the source files). The
  specification gives \<open>opp_grad_spts\<close> as one \<open>nSpts \<times> nSpts\<close> matrix per reference dimension
  \<open>d\<close>, holding the derivative of the \<open>j\<close>-th Lagrange polynomial along \<open>d\<close> at solution point
  \<open>i\<close>; every operator acts as a dense matrix product on the element data, and the standard
  divergence is the sum over \<open>d\<close> of the derivative along \<open>d\<close> of the flux component \<open>d\<close>.
\<close>

record oper =
  opp_grad_spts :: "real list list list"

text \<open>Entry \<open>(spt, k)\<close> of the product of an operator matrix with an \<open>nSpts \<times> nFields\<close> array.\<close>

definition opp_entry :: "real list list \<Rightarrow> real list list \<Rightarrow> nat \<Rightarrow> nat \<Rightarrow> nat \<Rightarrow> real" where
  "opp_entry D M n spt k = (\<Sum>j<n. D ! spt ! j * M ! j ! k)"

definition applyGradFSpts :: "oper \<Rightarrow> ele \<Rightarrow> ele" where
  "applyGradFSpts op e =
     e\<lparr>dF_spts := map (\<lambda>dim1. map (\<lambda>dim2. map (\<lambda>spt. map (\<lambda>k.
            opp_entry (opp_grad_spts op ! dim1) (F_spts e ! dim2) (nSpts e) spt k)
          [0..<nFields e]) [0..<nSpts e]) [0..<nDims e]) [0..<nDims e]\<rparr>"

definition applyDivFSpts :: "oper \<Rightarrow> nat \<Rightarrow> ele \<Rightarrow> ele" where
  "applyDivFSpts op step e =
     e\<lparr>divF_spts := (divF_spts e)[step := map (\<lambda>spt. map (\<lambda>k.
            (\<Sum>d<nDims e. opp_entry (opp_grad_spts op ! d) (F_spts e ! d) (nSpts e) spt k))
          [0..<nFields e]) [0..<nSpts e]]\<rparr>"

text \<open>
  \<open>ele::calcInviscidFlux_spts\<close>. The physical flux function \<open>inviscidFlux\<close> belongs to the flux
  helpers, which are not among the source files; it is a parameter that maps the state at a
  point to \<open>tempF\<close>, an \<open>nDims \<times> nFields\<close> array. \<open>F_spts\<close> is set up as \<open>nDims\<close> arrays of size
  \<open>nSpts \<times> nFields\<close>, and every entry is written.
\<close>

definition calcInviscidFlux_spts :: "(real list \<Rightarrow> real list list) \<Rightarrow> input \<Rightarrow> ele \<Rightarrow> ele" where
  "calcInviscidFlux_spts inviscidFlux prm e =
     e\<lparr>F_spts := map (\<lambda>i. map (\<lambda>spt. map (\<lambda>k.
            (let tempF = inviscidFlux (U_spts e ! spt)
             in if motion prm \<noteq> 0 then tempF ! i ! k
                else fold (\<lambda>j acc. acc + JGinv_spts e ! spt ! i ! j * (tempF ! j ! k)) [0..<nDims e] 0))
          [0..<nFields e]) [0..<nSpts e]) [0..<nDims e]\<rparr>"

text \<open>
  The space-time Jacobian that the 3-D branch of \<open>ele::transformGradF_spts\<close> builds at a
  solution point: the spatial Jacobian, the grid velocity in the last column, and
  \<open>(0, 0, 0, 1)\<close> in the last row (a new \<open>matrix\<close> is zero-filled).
\<close>

definition jacobian4 :: "ele \<Rightarrow> nat \<Rightarrow> real list list" where
  "jacobian4 e spt =
     map (\<lambda>i. map (\<lambda>j. Jac_spts e ! spt ! i ! j) [0, 1, 2] @ [gridVel_spts e ! spt ! i]) [0, 1, 2]
       @ [[0, 0, 0, 1]]"

definition transformGradF_spts :: "nat \<Rightarrow> ele \<Rightarrow> ele" where
  "transformGradF_spts step e =
     (if nDims e = 2 then
        (let A = (\<lambda>spt. gridVel_spts e ! spt ! 1 * Jac_spts e ! spt ! 0 ! 1
                         - gridVel_spts e ! spt ! 0 * Jac_spts e ! spt ! 1 ! 1);
             B = (\<lambda>spt. gridVel_spts e ! spt ! 0 * Jac_spts e ! spt ! 1 ! 0
                         - gridVel_spts e ! spt ! 1 * Jac_spts e ! spt ! 0 ! 0);
             dF = dF_spts e;
             dF00 = mat_loop (nSpts e) (nFields e) (\<lambda>spt k old.
                      old * Jac_spts e ! spt ! 1 ! 1 - dF ! 0 ! 1 ! spt ! k * Jac_spts e ! spt ! 0 ! 1
                        + dU_spts e ! 0 ! spt ! k * A spt) (dF ! 0 ! 0);
             dF11 = mat_loop (nSpts e) (nFields e) (\<lambda>spt k old.
                      - (dF ! 1 ! 0 ! spt ! k) * Jac_spts e ! spt ! 1 ! 0 + old * Jac_spts e ! spt ! 0 ! 0
                        + dU_spts e ! 1 ! spt ! k * B spt) (dF ! 1 ! 1)
         in e\<lparr>dF_spts := mat_set (mat_set dF 0 0 dF00) 1 1 dF11,
               divF_spts := (divF_spts e)[step :=
                  mat_loop (nSpts e) (nFields e) (\<lambda>spt k old. dF00 ! spt ! k + dF11 ! spt ! k)
                    (divF_spts e ! step)]\<rparr>)
      else
        e\<lparr>divF_spts := (divF_spts e)[step :=
             mat_loop (nSpts e) (nFields e) (\<lambda>spt k old.
                 (let S = mat_adjoint (jacobian4 e spt);
                      acc = fold (\<lambda>dim1 acc. fold (\<lambda>dim2 acc.
                              acc + dF_spts e ! dim2 ! dim1 ! spt ! k * (S ! dim2 ! dim1)) [0..<3] acc)
                            [0..<3] 0
                  in fold (\<lambda>dim acc. acc + dU_spts e ! dim ! spt ! k * (S ! dim ! 3)) [0..<3] acc))
               (divF_spts e ! step)]\<rparr>)"

text \<open>\<open>solver::calcFluxDivergence\<close>, for one element.\<close>

definition calcFluxDivergence :: "oper \<Rightarrow> input \<Rightarrow> nat \<Rightarrow> ele \<Rightarrow> ele" where
  "calcFluxDivergence op prm step e =
     (if motion prm \<noteq> 0 then transformGradF_spts step (applyGradFSpts op e)
      else applyDivFSpts op step e)"

text \<open>
  The stage divergence of the two forms for the same state: the flux evaluation followed by
  the divergence, with the \<open>motion\<close> option off (standard conservative form) and on
  (chain-rule form).
\<close>

definition divF_standard :: "oper \<Rightarrow> (real list \<Rightarrow> real list list) \<Rightarrow> input \<Rightarrow> nat \<Rightarrow> ele \<Rightarrow> real list list" where
  "divF_standard op inviscidFlux prm step e =
     divF_spts (calcFluxDivergence op (prm\<lparr>motion := 0\<rparr>) step
                  (calcInviscidFlux_spts inviscidFlux (prm\<lparr>motion := 0\<rparr>) e)) ! step"

definition divF_chain_rule :: "oper \<Rightarrow> (real list \<Rightarrow> real list list) \<Rightarrow> input \<Rightarrow> nat \<Rightarrow> ele \<Rightarrow> real list list" where
  "divF_chain_rule op inviscidFlux prm step e =
     divF_spts (calcFluxDivergence op (prm\<lparr>motion := 1\<rparr>) step
                  (calcInviscidFlux_spts inviscidFlux (prm\<lparr>motion := 1\<rparr>) e)) ! step"

text \<open>
  An element on a static mesh whose Jacobian is the matrix \<open>J\<close> at every solution point, with
  the adjoint that \<open>calcTransforms\<close> stores, and with the stage divergence sized.
\<close>

definition affine_static :: "ele \<Rightarrow> nat \<Rightarrow> real list list \<Rightarrow> bool" where
  "affine_static e step J \<longleftrightarrow>
     (nDims e = 2 \<or> nDims e = 3)
     \<and> length J = nDims e \<and> (\<forall>i<nDims e. length (J ! i) = nDims e)
     \<and> (\<forall>spt<nSpts e. Jac_spts e ! spt = J
            \<and> JGinv_spts e ! spt = (if nDims e = 2 then adj2 J else adj3 J)
            \<and> (\<forall>d<nDims e. gridVel_spts e ! spt ! d = 0))
     \<and> step < length (divF_spts e) \<and> length (divF_spts e ! step) = nSpts e
     \<and> (\<forall>spt<nSpts e. length (divF_spts e ! step ! spt) = nFields e)"

text \<open>
  The derivative along reference dimension \<open>d1\<close> of component \<open>d2\<close> of the physical flux, at
  solution point \<open>spt\<close> and field \<open>k\<close>.
\<close>

definition grad_phys :: "oper \<Rightarrow> (real list \<Rightarrow> real list list) \<Rightarrow> ele \<Rightarrow> nat \<Rightarrow> nat \<Rightarrow> nat \<Rightarrow> nat \<Rightarrow> real" where
  "grad_phys op inviscidFlux e d1 d2 spt k =
     (\<Sum>j<nSpts e. opp_grad_spts op ! d1 ! spt ! j * (inviscidFlux (U_spts e ! j) ! d2 ! k))"

subsection \<open>Concrete states used to instantiate the theorems\<close>

definition blank_ele :: ele where
  "blank_ele = \<lparr>ID = 0, nDims = 2, nSpts = 0, nFpts = 0, nFields = 0, nNodes = 0, dt = 0,
     nodes = [], nodesRK = [], U_spts = [], U0 = [], U_fpts = [], src_spts = [], Uavg = [],
     divF_spts = [], F_spts = [], dF_spts = [], dU_spts = [], gridVel_spts = [],
     Jac_spts = [], JGinv_spts = [], detJac_spts = [], Jac_fpts = [], JGinv_fpts = [],
     detJac_fpts = [], dShape_spts = [], dShape_fpts = [], tNorm_fpts = [], norm_fpts = [],
     dA_fpts = []\<rparr>"

definition blank_input :: input where
  "blank_input = \<lparr>equation = 1, dtType = 0, params_dt = 0, time = 0, rkTime = 0, iter = 0, RKa = [], RKb = [],
     motion = 0, meshType = 0, oversetMethod = 0, gamma = 7/5, exps0 = 0\<rparr>"

definition rk_ele :: ele where
  "rk_ele = blank_ele\<lparr>nSpts := 1, nFields := 1, U_spts := [[1]], U0 := [[0]],
     divF_spts := [[[2]], [[4]]], detJac_spts := [2]\<rparr>"

definition rk_solver :: solver where
  "rk_solver = \<lparr>params = blank_input\<lparr>params_dt := 1/10, RKa := [0, 1/2], RKb := [1/2, 1/2]\<rparr>,
     eles = [rk_ele], nRKSteps = Suc (Suc 0), iblankCell = (\<lambda>_. 0)\<rparr>"

definition rk_consts :: mesh_consts where
  "rk_consts = \<lparr>OVERSET_MESH = 2, NORMAL = 1, ADVECTION_DIFFUSION = 0, NAVIER_STOKES = 1\<rparr>"

definition rk_kernels :: kernels where
  "rk_kernels = \<lparr>calcDt = (\<lambda>s. s), moveMesh = (\<lambda>_ s. s), calcResidual = (\<lambda>_ s. s)\<rparr>"

text \<open>
  The same two-stage step as an overset run with field interpolation whose only cell is not
  tagged \<open>NORMAL\<close>, and as a run with a multigrid source term \<open>src = 1\<close>.
\<close>

definition ov_solver :: solver where
  "ov_solver = rk_solver\<lparr>params := (params rk_solver)\<lparr>meshType := 2, oversetMethod := 2\<rparr>\<rparr>"

definition src_solver :: solver where
  "src_solver = rk_solver\<lparr>eles := [rk_ele\<lparr>src_spts := [[1]]\<rparr>]\<rparr>"


definition sm1 :: superMesh where
  "sm1 = \<lparr>nQpts = 1, nTets = 1, nQpts_tet = 1\<rparr>"

text \<open>
  Quadrilaterals with four nodes, one solution point at the centre of the reference square
  and four flux points at the midpoints of its sides; \<open>dShape\<close> holds the derivatives of the
  bilinear shape functions there, \<open>tNorm\<close> the reference outward normals.
\<close>

definition quad_p0 :: "point list \<Rightarrow> ele" where
  "quad_p0 xs = blank_ele\<lparr>nDims := 2, nSpts := 1, nFpts := 4, nNodes := 4, nodes := xs,
     dShape_spts := [[[-1/4, -1/4], [1/4, -1/4], [1/4, 1/4], [-1/4, 1/4]]],
     dShape_fpts := [[[-1/2, -1/4], [1/2, -1/4], [0, 1/4], [0, 1/4]],
                     [[-1/4, 0], [1/4, -1/2], [1/4, 1/2], [-1/4, 0]],
                     [[0, -1/4], [0, -1/4], [1/2, 1/4], [-1/2, 1/4]],
                     [[-1/4, -1/2], [1/4, 0], [1/4, 0], [-1/4, 1/2]]],
     tNorm_fpts := [[0, -1], [1, 0], [0, 1], [-1, 0]],
     Jac_spts := [[[0, 0], [0, 0]]], JGinv_spts := [[[0, 0], [0, 0]]], detJac_spts := [0],
     Jac_fpts := replicate 4 [[0, 0], [0, 0]], JGinv_fpts := replicate 4 [[0, 0], [0, 0]],
     detJac_fpts := replicate 4 0, norm_fpts := replicate 4 [0, 0], dA_fpts := replicate 4 0\<rparr>"

text \<open>A square of side 4, a quadrilateral flattened onto a segment, and a concave one.\<close>

definition square4 :: ele where
  "square4 = quad_p0 [mk_point 0 0 0, mk_point 4 0 0, mk_point 4 4 0, mk_point 0 4 0]"

definition flat_quad :: ele where
  "flat_quad = quad_p0 [mk_point 0 0 0, mk_point 1 0 0, mk_point 1 0 0, mk_point 0 0 0]"

definition dart_quad :: ele where
  "dart_quad = quad_p0 [mk_point 0 0 0, mk_point 4 0 0, mk_point 1 1 0, mk_point 0 4 0]"

definition flipped_quad :: ele where
  "flipped_quad = quad_p0 [mk_point 0 0 0, mk_point 0 4 0, mk_point 4 4 0, mk_point 4 0 0]"

text \<open>
  The bilinear shape functions of the four-node quadrilateral and their derivatives, and a
  square with its corners on the axes (so that its bounding box is larger than the element).
\<close>

definition bilinear :: shape_fns where
  "bilinear = \<lparr>
     shape_quad = (\<lambda>loc n. [(1 - px loc) * (1 - py loc) / 4, (1 + px loc) * (1 - py loc) / 4,
                             (1 + px loc) * (1 + py loc) / 4, (1 - px loc) * (1 + py loc) / 4]),
     dshape_quad = (\<lambda>loc n. [[- (1 - py loc) / 4, - (1 - px loc) / 4],
                              [(1 - py loc) / 4, - (1 + px loc) / 4],
                              [(1 + py loc) / 4, (1 + px loc) / 4],
                              [- (1 + py loc) / 4, (1 - px loc) / 4]])\<rparr>"

definition diamond :: ele where
  "diamond = blank_ele\<lparr>nDims := 2, nNodes := 4,
     nodes := [mk_point 0 (- 1) 0, mk_point 1 0 0, mk_point 0 1 0, mk_point (- 1) 0 0]\<rparr>"

text \<open>
  One solution point, no flux point, four fields: the density \<open>-1/100\<close> on a cell with mean
  density \<open>1\<close>, and the density \<open>-1\<close> on a cell with mean density \<open>5e-11\<close>, below the
  tolerance.
\<close>

definition one_spt :: "real list \<Rightarrow> real list \<Rightarrow> ele" where
  "one_spt U Um = blank_ele\<lparr>nDims := 2, nSpts := 1, nFpts := 0, nFields := 4,
     U_spts := [U], U_fpts := [], Uavg := Um\<rparr>"

definition cell_D :: ele where
  "cell_D = one_spt [- 1 / 100, 0, 0, 1] [1, 0, 0, 1]"

definition cell_tiny :: ele where
  "cell_tiny = one_spt [- 1, 0, 0, 1] [1 / (2 * 10 ^ 10), 0, 0, 1]"

definition cell_two :: ele where
  "cell_two = blank_ele\<lparr>nDims := 2, nSpts := 2, nFpts := 0, nFields := 4,
     U_spts := [[- 1 / 100, 0, 0, 1], [- 1 / 2, 0, 0, 1]], U_fpts := [], Uavg := [1, 0, 0, 1]\<rparr>"

text \<open>
  A quadrilateral of order 1 with Gauss-Lobatto points (four solution points, eight flux
  points that coincide with them) holding the two states \<open>(1, 2, 0, 1)\<close> and \<open>(1, 4, 0, 1)\<close>,
  both of negative pressure, and their mean; and a one-point cell whose mean state has
  positive pressure.
\<close>

definition cell_swap :: ele where
  "cell_swap = blank_ele\<lparr>nDims := 2, nSpts := 4, nFpts := 8, nFields := 4,
     U_spts := [[1, 2, 0, 1], [1, 4, 0, 1], [1, 2, 0, 1], [1, 4, 0, 1]],
     U_fpts := [[1, 2, 0, 1], [1, 4, 0, 1], [1, 4, 0, 1], [1, 4, 0, 1],
                [1, 4, 0, 1], [1, 2, 0, 1], [1, 2, 0, 1], [1, 2, 0, 1]],
     Uavg := [1, 3, 0, 1]\<rparr>"

definition cell_fast :: ele where
  "cell_fast = one_spt [1, 2, 0, 1] [1, 0, 0, 1]"

definition cell_swapped :: ele where
  "cell_swapped = cell_swap\<lparr>
     U_spts := [[1, 4, 0, 1], [1, 2, 0, 1], [1, 4, 0, 1], [1, 2, 0, 1]],
     U_fpts := [[1, 4, 0, 1], [1, 2, 0, 1], [1, 2, 0, 1], [1, 2, 0, 1],
                [1, 2, 0, 1], [1, 4, 0, 1], [1, 4, 0, 1], [1, 4, 0, 1]]\<rparr>"

text \<open>
  A fluid at rest on four solution points with the energies \<open>(-1/10, 7/10, 3/10, 3/10)\<close> and
  mean energy \<open>3/10\<close>; the state that one pass leaves, with the energy at the first point
  lowered from \<open>0\<close> to \<open>-2^-56\<close>.
\<close>

definition cell_rest :: ele where
  "cell_rest = blank_ele\<lparr>nDims := 2, nSpts := 4, nFpts := 0, nFields := 4,
     U_spts := [[1, 0, 0, - 1 / 10], [1, 0, 0, 7 / 10], [1, 0, 0, 3 / 10], [1, 0, 0, 3 / 10]],
     U_fpts := [], Uavg := [1, 0, 0, 3 / 10]\<rparr>"

definition cell_below :: ele where
  "cell_below = cell_rest\<lparr>
     U_spts := [[1, 0, 0, - 1 / 2 ^ 56], [1, 0, 0, 3 / 5], [1, 0, 0, 3 / 10], [1, 0, 0, 3 / 10]]\<rparr>"

text \<open>
  An order-1 quadrilateral with its four solution points at the corners of the reference
  square (\<open>xi\<close> running fastest), one scalar field advected with unit velocity along both
  axes, and the gradient operator of the bilinear Lagrange basis at those points. The
  Jacobians at the solution points are given; \<open>JGinv_spts\<close> holds their adjoints, the grid
  velocity is zero.
\<close>

definition lobatto_grad :: oper where
  "lobatto_grad = \<lparr>opp_grad_spts =
     [[[-1/2, 1/2, 0, 0], [-1/2, 1/2, 0, 0], [0, 0, -1/2, 1/2], [0, 0, -1/2, 1/2]],
      [[-1/2, 0, 1/2, 0], [0, -1/2, 0, 1/2], [-1/2, 0, 1/2, 0], [0, -1/2, 0, 1/2]]]\<rparr>"

definition advection_flux :: "real list \<Rightarrow> real list list" where
  "advection_flux U = [[U ! 0], [U ! 0]]"

definition quad_p1 :: "real list list list \<Rightarrow> ele" where
  "quad_p1 Js = blank_ele\<lparr>nDims := 2, nSpts := 4, nFields := 1, U_spts := [[0], [1], [0], [0]],
     divF_spts := [[[0], [0], [0], [0]]], dU_spts := [[[0], [0], [0], [0]], [[0], [0], [0], [0]]],
     gridVel_spts := [[0, 0], [0, 0], [0, 0], [0, 0]], Jac_spts := Js, JGinv_spts := map adj2 Js\<rparr>"

text \<open>
  The parallelogram with corners \<open>(0,0)\<close>, \<open>(2,0)\<close>, \<open>(1,1)\<close>, \<open>(-1,1)\<close>, whose Jacobian is the same
  at every point, and the trapezoid with corners \<open>(0,0)\<close>, \<open>(2,0)\<close>, \<open>(1,1)\<close>, \<open>(0,1)\<close>, whose
  Jacobian is \<open>[[(3 - eta)/4, -(1 + xi)/4], [0, 1/2]]\<close>.
\<close>

definition parallelogram_p1 :: ele where
  "parallelogram_p1 = quad_p1 [[[1, -1/2], [0, 1/2]], [[1, -1/2], [0, 1/2]],
                               [[1, -1/2], [0, 1/2]], [[1, -1/2], [0, 1/2]]]"

definition trapezoid_p1 :: ele where
  "trapezoid_p1 = quad_p1 [[[1, 0], [0, 1/2]], [[1, -1/2], [0, 1/2]],
                           [[1/2, 0], [0, 1/2]], [[1/2, -1/2], [0, 1/2]]]"

section \<open>Properties\<close>

subsection \<open>In-place loops\<close>


lemma vec_loop_Suc: "vec_loop (Suc n) g v = (vec_loop n g v)[n := g n (vec_loop n g v ! n)]"
  by (simp add: vec_loop_def)

lemma length_vec_loop [simp]: "length (vec_loop n g v) = length v"
  by (induction n) (simp_all add: vec_loop_Suc, simp add: vec_loop_def)

lemma nth_vec_loop:
  "i < length v \<Longrightarrow> vec_loop n g v ! i = (if i < n then g i (v ! i) else v ! i)"
proof (induction n)
  case 0
  show ?case by (simp add: vec_loop_def)
next
  case (Suc n)
  then show ?case
    by (cases "i = n") (simp_all add: vec_loop_Suc less_Suc_eq)
qed

lemma row_fold_mat_set:
  "fold (\<lambda>c M. mat_set M r c (f c (M ! r ! c))) [0..<n] M = M[r := vec_loop n f (M ! r)]"
proof (induction n)
  case 0
  show ?case by (simp add: vec_loop_def)
next
  case (Suc n)
  have "fold (\<lambda>c M. mat_set M r c (f c (M ! r ! c))) [0..<Suc n] M
        = (let M' = M[r := vec_loop n f (M ! r)] in mat_set M' r n (f n (M' ! r ! n)))"
    by (simp add: Suc Let_def)
  also have "\<dots> = M[r := vec_loop (Suc n) f (M ! r)]"
    by (cases "r < length M") (simp_all add: vec_loop_Suc mat_set_def Let_def list_update_beyond)
  finally show ?case .
qed

lemma mat_loop_vec_loop: "mat_loop nR nC f M = vec_loop nR (\<lambda>r. vec_loop nC (f r)) M"
  by (simp add: mat_loop_def vec_loop_def row_fold_mat_set)

lemma col_loop_vec_loop: "col_loop nR c f M = vec_loop nR (\<lambda>r row. row[c := f r (row ! c)]) M"
  by (simp add: col_loop_def vec_loop_def mat_set_def)

lemma length_mat_loop [simp]: "length (mat_loop nR nC f M) = length M"
  by (simp add: mat_loop_vec_loop)

lemma nth_mat_loop:
  "r < nR \<Longrightarrow> c < nC \<Longrightarrow> r < length M \<Longrightarrow> c < length (M ! r) \<Longrightarrow>
   mat_loop nR nC f M ! r ! c = f r c (M ! r ! c)"
  by (simp add: mat_loop_vec_loop nth_vec_loop)

lemma nth_mat_loop_gen:
  "r < length M \<Longrightarrow> c < length (M ! r) \<Longrightarrow>
   mat_loop nR nC f M ! r ! c = (if r < nR \<and> c < nC then f r c (M ! r ! c) else M ! r ! c)"
  by (simp add: mat_loop_vec_loop nth_vec_loop)

lemma length_row_mat_loop [simp]: "r < length M \<Longrightarrow> length (mat_loop nR nC f M ! r) = length (M ! r)"
  by (simp add: mat_loop_vec_loop nth_vec_loop)


subsection \<open>Runge-Kutta stages\<close>

lemma timeStepA_entry:
  "spt < nSpts e \<Longrightarrow> i < nFields e \<Longrightarrow> spt < length (U_spts e) \<Longrightarrow> i < length (U_spts e ! spt) \<Longrightarrow>
   U_spts (timeStepA p step a e) ! spt ! i
     = U0 e ! spt ! i - a * dt_eff p e * (divF_spts e ! step ! spt ! i) / (detJac_spts e ! spt)"
  by (simp add: timeStepA_def dt_eff_def nth_mat_loop)

lemma timeStepB_entry:
  "spt < nSpts e \<Longrightarrow> i < nFields e \<Longrightarrow> spt < length (U_spts e) \<Longrightarrow> i < length (U_spts e ! spt) \<Longrightarrow>
   U_spts (timeStepB p step b e) ! spt ! i
     = U_spts e ! spt ! i - b * dt_eff p e * (divF_spts e ! step ! spt ! i) / (detJac_spts e ! spt)"
  by (simp add: timeStepB_def dt_eff_def nth_mat_loop)

lemma timeStepA_source_entry:
  "spt < nSpts e \<Longrightarrow> i < nFields e \<Longrightarrow> spt < length (U_spts e) \<Longrightarrow> i < length (U_spts e ! spt) \<Longrightarrow>
   U_spts (timeStepA_source p step a e) ! spt ! i
     = U0 e ! spt ! i
       - a * dt_eff p e * (divF_spts e ! step ! spt ! i + src_spts e ! spt ! i) / (detJac_spts e ! spt)"
  by (simp add: timeStepA_source_def dt_eff_def nth_mat_loop)

lemma timeStepB_source_entry:
  "spt < nSpts e \<Longrightarrow> i < nFields e \<Longrightarrow> spt < length (U_spts e) \<Longrightarrow> i < length (U_spts e ! spt) \<Longrightarrow>
   U_spts (timeStepB_source p step b e) ! spt ! i
     = U_spts e ! spt ! i
       - b * dt_eff p e * (divF_spts e ! step ! spt ! i + src_spts e ! spt ! i) / (detJac_spts e ! spt)"
  by (simp add: timeStepB_source_def dt_eff_def nth_mat_loop)

text \<open>The element kernel that \<open>solver::timeStepB\<close> calls, with or without the source term.\<close>

lemma stepB_entry:
  "spt < nSpts e \<Longrightarrow> i < nFields e \<Longrightarrow> spt < length (U_spts e) \<Longrightarrow> i < length (U_spts e ! spt) \<Longrightarrow>
   U_spts ((if P then timeStepB_source else timeStepB) p step b e) ! spt ! i
     = U_spts e ! spt ! i
       - b * dt_eff p e * (divF_spts e ! step ! spt ! i + (if P then src_spts e ! spt ! i else 0))
           / (detJac_spts e ! spt)"
  by (simp add: timeStepB_entry timeStepB_source_entry)

lemma stepB_keeps:
  "nSpts ((if P then timeStepB_source else timeStepB) p step b e) = nSpts e"
  "nFields ((if P then timeStepB_source else timeStepB) p step b e) = nFields e"
  "divF_spts ((if P then timeStepB_source else timeStepB) p step b e) = divF_spts e"
  "src_spts ((if P then timeStepB_source else timeStepB) p step b e) = src_spts e"
  "detJac_spts ((if P then timeStepB_source else timeStepB) p step b e) = detJac_spts e"
  "ID ((if P then timeStepB_source else timeStepB) p step b e) = ID e"
  "length (U_spts ((if P then timeStepB_source else timeStepB) p step b e)) = length (U_spts e)"
  "dt_eff p ((if P then timeStepB_source else timeStepB) p step b e) = dt_eff p e"
  by (simp_all add: timeStepB_def timeStepB_source_def dt_eff_def)

lemma stepB_row_length:
  "spt < length (U_spts e) \<Longrightarrow>
   length (U_spts ((if P then timeStepB_source else timeStepB) p step b e) ! spt) = length (U_spts e ! spt)"
  by (simp add: timeStepB_def timeStepB_source_def)

lemma fold_stepB:
  assumes "spt < nSpts e" "i < nFields e" "spt < length (U_spts e)" "i < length (U_spts e ! spt)"
  shows "(let e' = fold (\<lambda>step. (if P then timeStepB_source else timeStepB) p step (b step)) [0..<n] e in
           nSpts e' = nSpts e \<and> nFields e' = nFields e \<and> divF_spts e' = divF_spts e \<and>
           src_spts e' = src_spts e \<and>
           detJac_spts e' = detJac_spts e \<and> length (U_spts e') = length (U_spts e) \<and>
           length (U_spts e' ! spt) = length (U_spts e ! spt) \<and> dt_eff p e' = dt_eff p e \<and>
           U_spts e' ! spt ! i = U_spts e ! spt ! i
             - (\<Sum>step<n. b step * dt_eff p e
                  * (divF_spts e ! step ! spt ! i + (if P then src_spts e ! spt ! i else 0))
                  / (detJac_spts e ! spt)))"
proof -
  define f where "f = (if P then timeStepB_source else timeStepB)"
  define c where "c = (\<lambda>src::real list list. if P then src ! spt ! i else 0)"
  have keeps: "nSpts (f p step r e') = nSpts e'" "nFields (f p step r e') = nFields e'"
    "divF_spts (f p step r e') = divF_spts e'" "src_spts (f p step r e') = src_spts e'"
    "detJac_spts (f p step r e') = detJac_spts e'" "length (U_spts (f p step r e')) = length (U_spts e')"
    "dt_eff p (f p step r e') = dt_eff p e'" for step r e'
    unfolding f_def by (rule stepB_keeps)+
  have rows: "length (U_spts (f p step r e') ! spt) = length (U_spts e' ! spt)"
    if "spt < length (U_spts e')" for step r e'
    unfolding f_def using that by (rule stepB_row_length)
  have ent: "U_spts (f p step r e') ! spt ! i
     = U_spts e' ! spt ! i - r * dt_eff p e' * (divF_spts e' ! step ! spt ! i + c (src_spts e')) / (detJac_spts e' ! spt)"
    if "spt < nSpts e'" "i < nFields e'" "spt < length (U_spts e')" "i < length (U_spts e' ! spt)"
    for step r e'
    unfolding f_def c_def using that by (rule stepB_entry)
  have "(let e' = fold (\<lambda>step. f p step (b step)) [0..<n] e in
           nSpts e' = nSpts e \<and> nFields e' = nFields e \<and> divF_spts e' = divF_spts e \<and>
           src_spts e' = src_spts e \<and>
           detJac_spts e' = detJac_spts e \<and> length (U_spts e') = length (U_spts e) \<and>
           length (U_spts e' ! spt) = length (U_spts e ! spt) \<and> dt_eff p e' = dt_eff p e \<and>
           U_spts e' ! spt ! i = U_spts e ! spt ! i
             - (\<Sum>step<n. b step * dt_eff p e * (divF_spts e ! step ! spt ! i + c (src_spts e))
                  / (detJac_spts e ! spt)))"
  proof (induction n)
    case 0
    show ?case by simp
  next
    case (Suc n)
    then show ?case using assms
      by (simp add: Let_def keeps rows ent)
  qed
  then show ?thesis
    by (simp add: f_def c_def)
qed

lemma fold_stepB_ID:
  "ID (fold (\<lambda>step. (if P then timeStepB_source else timeStepB) p step (b step)) [0..<n] e) = ID e"
proof -
  define f where "f = (if P then timeStepB_source else timeStepB)"
  have keeps: "ID (f p step r e') = ID e'" for step r e'
    unfolding f_def by (rule stepB_keeps)
  have "ID (fold (\<lambda>step. f p step (b step)) [0..<n] e) = ID e"
    by (induction n) (simp_all add: keeps)
  then show ?thesis by (simp add: f_def)
qed

text \<open>
  \<open>solver::timeStepA\<close> and \<open>solver::timeStepB\<close> element by element: the element kernel with
  the coefficient \<open>RKa[step+1]\<close> (\<open>RKb[step]\<close>) on every advanced element, nothing elsewhere.
\<close>

lemma solver_timeStepA_eles:
  "solver_timeStepA C step P s
     = s\<lparr>eles := map (\<lambda>e. if advanced C s e
                            then (if P then timeStepA_source else timeStepA) (params s) step
                                   (RKa (params s) ! (step + 1)) e
                            else e) (eles s)\<rparr>"
  by (simp add: solver_timeStepA_def advanced_def Let_def)

lemma solver_timeStepB_eles:
  "solver_timeStepB C step P s
     = s\<lparr>eles := map (\<lambda>e. if advanced C s e
                            then (if P then timeStepB_source else timeStepB) (params s) step
                                   (RKb (params s) ! step) e
                            else e) (eles s)\<rparr>"
  by (simp add: solver_timeStepB_def advanced_def Let_def)

lemma fold_solver_timeStepB:
  "fold (\<lambda>step. solver_timeStepB C step P) [0..<n] s
     = s\<lparr>eles := map (\<lambda>e. if advanced C s e
                            then fold (\<lambda>step. (if P then timeStepB_source else timeStepB) (params s) step
                                                 (RKb (params s) ! step)) [0..<n] e
                            else e) (eles s)\<rparr>"
proof -
  define g where "g = (\<lambda>step. (if P then timeStepB_source else timeStepB) (params s) step (RKb (params s) ! step))"
  have gid: "ID (fold g [0..<m] e) = ID e" for m e
    unfolding g_def by (rule fold_stepB_ID)
  have one: "solver_timeStepB C step P t
        = t\<lparr>eles := map (\<lambda>e. if advanced C t e then g step e else e) (eles t)\<rparr>"
    if "params t = params s" for step t
    unfolding solver_timeStepB_eles g_def using that by simp
  have "fold (\<lambda>step. solver_timeStepB C step P) [0..<n] s
     = s\<lparr>eles := map (\<lambda>e. if advanced C s e then fold g [0..<n] e else e) (eles s)\<rparr>"
  proof (induction n)
    case 0
    show ?case by (simp add: map_idI)
  next
    case (Suc n)
    let ?t = "s\<lparr>eles := map (\<lambda>e. if advanced C s e then fold g [0..<n] e else e) (eles s)\<rparr>"
    have "fold (\<lambda>step. solver_timeStepB C step P) [0..<Suc n] s = solver_timeStepB C n P ?t"
      by (simp only: upt_Suc_append[OF le0] fold_append fold.simps o_apply id_apply Suc)
    also have "\<dots> = ?t\<lparr>eles := map (\<lambda>e. if advanced C ?t e then g n e else e) (eles ?t)\<rparr>"
      by (rule one) simp
    also have "\<dots> = s\<lparr>eles := map (\<lambda>e. if advanced C s e then fold g [0..<Suc n] e else e) (eles s)\<rparr>"
      by (simp add: advanced_def gid)
    finally show ?case .
  qed
  then show ?thesis by (simp add: g_def)
qed


text \<open>
  The tail of \<open>solver::update\<close>: from the state reached after the residual of the last stage,
  the restore, the \<open>timeStepB\<close> loop and the time increment.
\<close>

lemma update_split:
  "update C K P s =
     (let S = nRKSteps s; t = update_stages C K P s;
          t = (if S > 1 then solver_copyU0_Uspts t else t);
          t = fold (\<lambda>step. solver_timeStepB C step P) [0..<S] t
      in t\<lparr>params := (params t)\<lparr>time := time (params t) + params_dt (params t)\<rparr>\<rparr>)"
  by (simp add: update_def update_stages_def Let_def)

lemma update_time:
  "time (params (update C K P s))
     = time (params (update_stages C K P s)) + params_dt (params (update_stages C K P s))"
  "length (eles (update C K P s)) = length (eles (update_stages C K P s))"
  by (simp_all add: update_split Let_def fold_solver_timeStepB solver_copyU0_Uspts_def)

lemma update_entry:
  assumes "n < length (eles t)" and "t = update_stages C K P s" and "e = eles t ! n"
    and "spt < nSpts e" "i < nFields e"
    and "spt < length (U_spts e)" "i < length (U_spts e ! spt)"
    and "spt < length (U0 e)" "i < length (U0 e ! spt)"
  shows "U_spts (eles (update C K P s) ! n) ! spt ! i
     = (if 1 < nRKSteps s then U0 e else U_spts e) ! spt ! i
       - (if advanced C t e
          then \<Sum>step<nRKSteps s. RKb (params t) ! step * dt_eff (params t) e
                 * (divF_spts e ! step ! spt ! i + (if P then src_spts e ! spt ! i else 0))
                 / (detJac_spts e ! spt)
          else 0)"
proof -
  define e0 where "e0 = (if 1 < nRKSteps s then copyU0_Uspts e else e)"
  define t0 where "t0 = (if 1 < nRKSteps s then solver_copyU0_Uspts t else t)"
  define g where "g = (\<lambda>step. (if P then timeStepB_source else timeStepB) (params t) step (RKb (params t) ! step))"
  have t0: "params t0 = params t" "eles t0 ! n = e0" "n < length (eles t0)"
    "advanced C t0 e0 = advanced C t e"
    using assms(1,3) by (simp_all add: t0_def e0_def solver_copyU0_Uspts_def advanced_def copyU0_Uspts_def)
  have e0: "spt < nSpts e0" "i < nFields e0" "spt < length (U_spts e0)" "i < length (U_spts e0 ! spt)"
    using assms by (simp_all add: e0_def copyU0_Uspts_def)
  have base: "U_spts e0 = (if 1 < nRKSteps s then U0 e else U_spts e)"
    "divF_spts e0 = divF_spts e" "src_spts e0 = src_spts e" "detJac_spts e0 = detJac_spts e"
    "dt_eff (params t) e0 = dt_eff (params t) e"
    by (simp_all add: e0_def copyU0_Uspts_def dt_eff_def)
  have run: "U_spts (fold g [0..<nRKSteps s] e0) ! spt ! i
        = U_spts e0 ! spt ! i
          - (\<Sum>step<nRKSteps s. RKb (params t) ! step * dt_eff (params t) e0
               * (divF_spts e0 ! step ! spt ! i + (if P then src_spts e0 ! spt ! i else 0))
               / (detJac_spts e0 ! spt))"
    using fold_stepB[OF e0, of P "params t" "\<lambda>step. RKb (params t) ! step" "nRKSteps s"]
    by (simp add: Let_def g_def)
  have "eles (update C K P s) = eles (fold (\<lambda>step. solver_timeStepB C step P) [0..<nRKSteps s] t0)"
    unfolding update_split Let_def t0_def assms(2) by simp
  also have "\<dots> = map (\<lambda>e. if advanced C t0 e then fold g [0..<nRKSteps s] e else e) (eles t0)"
    unfolding fold_solver_timeStepB g_def t0(1) by simp
  finally have "eles (update C K P s) ! n = (if advanced C t e then fold g [0..<nRKSteps s] e0 else e0)"
    using t0(2,3,4) by simp
  then show ?thesis
    using run by (simp add: base)
qed


lemma update_stages_seq:
  "update_stages C K P s
     = (calcResidual K (nRKSteps s - 1) \<circ> moveMesh K (nRKSteps s - 1) \<circ> set_rkTime (nRKSteps s - 1))
         (fold (\<lambda>step. solver_timeStepA C step P \<circ> calcResidual K step
                     \<circ> (if step = 0 then solver_copyUspts_U0 else id) \<circ> moveMesh K step \<circ> set_rkTime step)
            [0..<nRKSteps s - 1]
            ((if dtType (params s) \<noteq> 0 then calcDt K else id)
               (s\<lparr>params := (params s)\<lparr>iter := iter (params s) + 1\<rparr>\<rparr>)))"
proof -
  have "(\<lambda>step. solver_timeStepA C step P \<circ> calcResidual K step
                     \<circ> (if step = 0 then solver_copyUspts_U0 else id) \<circ> moveMesh K step \<circ> set_rkTime step)
        = (\<lambda>step s.
                 let s = set_rkTime step s;
                     s = moveMesh K step s;
                     s = (if step = 0 then solver_copyUspts_U0 s else s);
                     s = calcResidual K step s
                 in solver_timeStepA C step P s)"
    by (rule ext)+ (simp add: Let_def)
  then show ?thesis
    by (simp add: update_stages_def Let_def)
qed

lemma update_seq:
  "update C K P s
     = (let t = (if 1 < nRKSteps s then solver_copyU0_Uspts else id) (update_stages C K P s);
            t = fold (\<lambda>step. solver_timeStepB C step P) [0..<nRKSteps s] t
        in t\<lparr>params := (params t)\<lparr>time := time (params t) + params_dt (params t)\<rparr>\<rparr>)"
  by (simp add: update_split Let_def)

text \<open>
  Claim C1, as the code has it. \<open>ele::timeStepA(s, rk)\<close> sets \<open>U = U0 - rk*dt*divF[s]/detJac\<close>
  and \<open>ele::timeStepB(s, rk)\<close> sets \<open>U = U - rk*dt*divF[s]/detJac\<close> at every solution point and
  field; the \<open>_source\<close> kernels, used when \<open>PMG_Source\<close> is set, have \<open>divF[s] + src\<close> in place of
  \<open>divF[s]\<close> (\<open>dt\<close> is the global step unless \<open>dtType = 2\<close>). \<open>solver::timeStepA(s)\<close> applies
  the element kernel with \<open>RKa[s+1]\<close>, and \<open>solver::timeStepB(s)\<close> with \<open>RKb[s]\<close>, to every
  advanced element, that is to every element except, in an overset run with field
  interpolation, the cells not tagged \<open>NORMAL\<close>. One call of \<open>solver::update\<close> runs the stages
  \<open>0..S-2\<close> in order, each one ending with \<open>timeStepA\<close>, then computes the residual of the last
  stage; from the state \<open>t\<close> reached there it restores \<open>U = U0\<close> on every element once when
  \<open>S > 1\<close>, applies \<open>timeStepB\<close> for every stage \<open>0..S-1\<close>, so that every advanced element ends
  with \<open>U = U0 - \<Sum>s<S. RKb[s] * dt * (divF[s] + src)/detJac\<close> (\<open>src\<close> only with \<open>PMG_Source\<close>, and
  \<open>U\<close> in place of \<open>U0\<close> when \<open>S = 1\<close>) and every other element with \<open>U = U0\<close> (its \<open>U\<close> when
  \<open>S = 1\<close>), and increments the simulation time by exactly \<open>dt\<close>.
\<close>

theorem rk_update:
  assumes "0 < nRKSteps s"
  shows "(\<forall>p e step rk spt i.
            spt < nSpts e \<and> i < nFields e \<and> spt < length (U_spts e) \<and> i < length (U_spts e ! spt) \<longrightarrow>
              U_spts (timeStepA p step rk e) ! spt ! i
                = U0 e ! spt ! i - rk * dt_eff p e * (divF_spts e ! step ! spt ! i) / (detJac_spts e ! spt)
            \<and> U_spts (timeStepB p step rk e) ! spt ! i
                = U_spts e ! spt ! i - rk * dt_eff p e * (divF_spts e ! step ! spt ! i) / (detJac_spts e ! spt)
            \<and> U_spts (timeStepA_source p step rk e) ! spt ! i
                = U0 e ! spt ! i
                  - rk * dt_eff p e * (divF_spts e ! step ! spt ! i + src_spts e ! spt ! i) / (detJac_spts e ! spt)
            \<and> U_spts (timeStepB_source p step rk e) ! spt ! i
                = U_spts e ! spt ! i
                  - rk * dt_eff p e * (divF_spts e ! step ! spt ! i + src_spts e ! spt ! i) / (detJac_spts e ! spt))
       \<and> (\<forall>t step.
            solver_timeStepA C step P t
              = t\<lparr>eles := map (\<lambda>e. if advanced C t e
                                     then (if P then timeStepA_source else timeStepA) (params t) step
                                            (RKa (params t) ! (step + 1)) e
                                     else e) (eles t)\<rparr>
          \<and> solver_timeStepB C step P t
              = t\<lparr>eles := map (\<lambda>e. if advanced C t e
                                     then (if P then timeStepB_source else timeStepB) (params t) step
                                            (RKb (params t) ! step) e
                                     else e) (eles t)\<rparr>
          \<and> solver_copyU0_Uspts t = t\<lparr>eles := map (\<lambda>e. e\<lparr>U_spts := U0 e\<rparr>) (eles t)\<rparr>)
       \<and> update_stages C K P s
           = (calcResidual K (nRKSteps s - 1) \<circ> moveMesh K (nRKSteps s - 1) \<circ> set_rkTime (nRKSteps s - 1))
               (fold (\<lambda>step. solver_timeStepA C step P \<circ> calcResidual K step
                           \<circ> (if step = 0 then solver_copyUspts_U0 else id) \<circ> moveMesh K step
                           \<circ> set_rkTime step)
                  [0..<nRKSteps s - 1]
                  ((if dtType (params s) \<noteq> 0 then calcDt K else id)
                     (s\<lparr>params := (params s)\<lparr>iter := iter (params s) + 1\<rparr>\<rparr>)))
       \<and> update C K P s
           = (let t = (if 1 < nRKSteps s then solver_copyU0_Uspts else id) (update_stages C K P s);
                  t = fold (\<lambda>step. solver_timeStepB C step P) [0..<nRKSteps s] t
              in t\<lparr>params := (params t)\<lparr>time := time (params t) + params_dt (params t)\<rparr>\<rparr>)
       \<and> (let t = update_stages C K P s; s' = update C K P s in
            time (params s') = time (params t) + params_dt (params t)
          \<and> length (eles s') = length (eles t)
          \<and> (\<forall>n spt i. n < length (eles t)
                \<and> spt < nSpts (eles t ! n) \<and> i < nFields (eles t ! n)
                \<and> spt < length (U_spts (eles t ! n)) \<and> i < length (U_spts (eles t ! n) ! spt)
                \<and> spt < length (U0 (eles t ! n)) \<and> i < length (U0 (eles t ! n) ! spt) \<longrightarrow>
              U_spts (eles s' ! n) ! spt ! i
                = (if 1 < nRKSteps s then U0 (eles t ! n) else U_spts (eles t ! n)) ! spt ! i
                  - (if advanced C t (eles t ! n)
                     then \<Sum>step<nRKSteps s. RKb (params t) ! step * dt_eff (params t) (eles t ! n)
                            * (divF_spts (eles t ! n) ! step ! spt ! i
                                 + (if P then src_spts (eles t ! n) ! spt ! i else 0))
                            / (detJac_spts (eles t ! n) ! spt)
                     else 0)))"
proof (intro conjI)
  show "\<forall>p e step rk spt i.
            spt < nSpts e \<and> i < nFields e \<and> spt < length (U_spts e) \<and> i < length (U_spts e ! spt) \<longrightarrow>
              U_spts (timeStepA p step rk e) ! spt ! i
                = U0 e ! spt ! i - rk * dt_eff p e * (divF_spts e ! step ! spt ! i) / (detJac_spts e ! spt)
            \<and> U_spts (timeStepB p step rk e) ! spt ! i
                = U_spts e ! spt ! i - rk * dt_eff p e * (divF_spts e ! step ! spt ! i) / (detJac_spts e ! spt)
            \<and> U_spts (timeStepA_source p step rk e) ! spt ! i
                = U0 e ! spt ! i
                  - rk * dt_eff p e * (divF_spts e ! step ! spt ! i + src_spts e ! spt ! i) / (detJac_spts e ! spt)
            \<and> U_spts (timeStepB_source p step rk e) ! spt ! i
                = U_spts e ! spt ! i
                  - rk * dt_eff p e * (divF_spts e ! step ! spt ! i + src_spts e ! spt ! i) / (detJac_spts e ! spt)"
    by (intro allI impI; elim conjE)
      (simp add: timeStepA_entry timeStepB_entry timeStepA_source_entry timeStepB_source_entry)
next
  show "\<forall>t step.
            solver_timeStepA C step P t
              = t\<lparr>eles := map (\<lambda>e. if advanced C t e
                                     then (if P then timeStepA_source else timeStepA) (params t) step
                                            (RKa (params t) ! (step + 1)) e
                                     else e) (eles t)\<rparr>
          \<and> solver_timeStepB C step P t
              = t\<lparr>eles := map (\<lambda>e. if advanced C t e
                                     then (if P then timeStepB_source else timeStepB) (params t) step
                                            (RKb (params t) ! step) e
                                     else e) (eles t)\<rparr>
          \<and> solver_copyU0_Uspts t = t\<lparr>eles := map (\<lambda>e. e\<lparr>U_spts := U0 e\<rparr>) (eles t)\<rparr>"
    using solver_timeStepA_eles solver_timeStepB_eles
    by (simp add: solver_copyU0_Uspts_def copyU0_Uspts_def)
next
  show "update_stages C K P s
           = (calcResidual K (nRKSteps s - 1) \<circ> moveMesh K (nRKSteps s - 1) \<circ> set_rkTime (nRKSteps s - 1))
               (fold (\<lambda>step. solver_timeStepA C step P \<circ> calcResidual K step
                           \<circ> (if step = 0 then solver_copyUspts_U0 else id) \<circ> moveMesh K step
                           \<circ> set_rkTime step)
                  [0..<nRKSteps s - 1]
                  ((if dtType (params s) \<noteq> 0 then calcDt K else id)
                     (s\<lparr>params := (params s)\<lparr>iter := iter (params s) + 1\<rparr>\<rparr>)))"
    by (rule update_stages_seq)
next
  show "update C K P s
           = (let t = (if 1 < nRKSteps s then solver_copyU0_Uspts else id) (update_stages C K P s);
                  t = fold (\<lambda>step. solver_timeStepB C step P) [0..<nRKSteps s] t
              in t\<lparr>params := (params t)\<lparr>time := time (params t) + params_dt (params t)\<rparr>\<rparr>)"
    by (rule update_seq)
next
  show "let t = update_stages C K P s; s' = update C K P s in
            time (params s') = time (params t) + params_dt (params t)
          \<and> length (eles s') = length (eles t)
          \<and> (\<forall>n spt i. n < length (eles t)
                \<and> spt < nSpts (eles t ! n) \<and> i < nFields (eles t ! n)
                \<and> spt < length (U_spts (eles t ! n)) \<and> i < length (U_spts (eles t ! n) ! spt)
                \<and> spt < length (U0 (eles t ! n)) \<and> i < length (U0 (eles t ! n) ! spt) \<longrightarrow>
              U_spts (eles s' ! n) ! spt ! i
                = (if 1 < nRKSteps s then U0 (eles t ! n) else U_spts (eles t ! n)) ! spt ! i
                  - (if advanced C t (eles t ! n)
                     then \<Sum>step<nRKSteps s. RKb (params t) ! step * dt_eff (params t) (eles t ! n)
                            * (divF_spts (eles t ! n) ! step ! spt ! i
                                 + (if P then src_spts (eles t ! n) ! spt ! i else 0))
                            / (detJac_spts (eles t ! n) ! spt)
                     else 0))"
    unfolding Let_def
  proof (intro conjI allI impI)
    show "time (params (update C K P s))
        = time (params (update_stages C K P s)) + params_dt (params (update_stages C K P s))"
      by (rule update_time)
    show "length (eles (update C K P s)) = length (eles (update_stages C K P s))"
      by (rule update_time)
  next
    fix n spt i
    assume h: "n < length (eles (update_stages C K P s))
                \<and> spt < nSpts (eles (update_stages C K P s) ! n) \<and> i < nFields (eles (update_stages C K P s) ! n)
                \<and> spt < length (U_spts (eles (update_stages C K P s) ! n))
                \<and> i < length (U_spts (eles (update_stages C K P s) ! n) ! spt)
                \<and> spt < length (U0 (eles (update_stages C K P s) ! n))
                \<and> i < length (U0 (eles (update_stages C K P s) ! n) ! spt)"
    show "U_spts (eles (update C K P s) ! n) ! spt ! i
                = (if 1 < nRKSteps s then U0 (eles (update_stages C K P s) ! n)
                   else U_spts (eles (update_stages C K P s) ! n)) ! spt ! i
                  - (if advanced C (update_stages C K P s) (eles (update_stages C K P s) ! n)
                     then \<Sum>step<nRKSteps s. RKb (params (update_stages C K P s)) ! step
                            * dt_eff (params (update_stages C K P s)) (eles (update_stages C K P s) ! n)
                            * (divF_spts (eles (update_stages C K P s) ! n) ! step ! spt ! i
                                 + (if P then src_spts (eles (update_stages C K P s) ! n) ! spt ! i else 0))
                            / (detJac_spts (eles (update_stages C K P s) ! n) ! spt)
                     else 0)"
      using h by (intro update_entry[OF _ refl refl]) simp_all
  qed
qed


text \<open>
  The theorem at a two-stage step of one element with one solution point and one field:
  \<open>U = 1\<close>, \<open>divF = [2, 4]\<close>, \<open>detJac = 2\<close>, \<open>dt = 1/10\<close>, \<open>a = [0, 1/2]\<close>, \<open>b = [1/2, 1/2]\<close>. Stage 0
  leaves \<open>U = 1 - 1/2 * 1/10 * 2/2 = 19/20\<close>, the step ends with
  \<open>U = 1 - (1/2 * 1/10 * 2/2 + 1/2 * 1/10 * 4/2) = 17/20\<close>.
\<close>

lemmas rk_defs = rk_solver_def rk_kernels_def rk_consts_def rk_ele_def blank_ele_def blank_input_def
  ov_solver_def src_solver_def

lemma rk_solver_stages:
  "update_stages rk_consts rk_kernels False rk_solver
     = rk_solver\<lparr>params := (params rk_solver)\<lparr>iter := 1, rkTime := 1/20\<rparr>,
                  eles := [rk_ele\<lparr>U0 := [[1]], U_spts := [[19/20]], dt := 1/10\<rparr>]\<rparr>"
  by (simp add: update_stages_def rk_defs Let_def set_rkTime_def solver_copyUspts_U0_def copyUspts_U0_def
      solver_timeStepA_def timeStepA_def mat_loop_def mat_set_def)

theorem rk_update_witness:
  "U_spts (eles (solver_timeStepA rk_consts 0 False (solver_copyUspts_U0 rk_solver)) ! 0) ! 0 ! 0 = 19/20
   \<and> time (params (update rk_consts rk_kernels False rk_solver)) = 1/10
   \<and> U_spts (eles (update rk_consts rk_kernels False rk_solver) ! 0) ! 0 ! 0 = 17/20"
proof -
  have S: "0 < nRKSteps rk_solver" by (simp add: rk_solver_def)
  note T = rk_update[OF S, where C = rk_consts and K = rk_kernels and P = False,
      unfolded Let_def rk_solver_stages]
  note A = T[THEN conjunct1, rule_format, of 0 "rk_ele\<lparr>U0 := [[1]]\<rparr>" 0 "params rk_solver" 0 "1/2",
      THEN conjunct1]
  note Q = T[THEN conjunct2, THEN conjunct1, rule_format, of 0 "solver_copyUspts_U0 rk_solver",
      THEN conjunct1]
  note R = T[THEN conjunct2, THEN conjunct2, THEN conjunct2, THEN conjunct2]
  note B = R[THEN conjunct1]
  note D = R[THEN conjunct2, THEN conjunct2, rule_format, of 0 0 0]
  have "eles (solver_timeStepA rk_consts 0 False (solver_copyUspts_U0 rk_solver)) ! 0
      = timeStepA (params rk_solver) 0 (1/2) (rk_ele\<lparr>U0 := [[1]]\<rparr>)"
    unfolding Q by (simp add: advanced_def solver_copyUspts_U0_def rk_defs copyUspts_U0_def)
  then have "U_spts (eles (solver_timeStepA rk_consts 0 False (solver_copyUspts_U0 rk_solver)) ! 0) ! 0 ! 0 = 19/20"
    using A by (simp add: rk_defs dt_eff_def)
  moreover have "time (params (update rk_consts rk_kernels False rk_solver)) = 1/10"
    using B by (simp add: rk_defs)
  moreover have "U_spts (eles (update rk_consts rk_kernels False rk_solver) ! 0) ! 0 ! 0 = 17/20"
    using D by (simp add: advanced_def rk_defs dt_eff_def)
  ultimately show ?thesis by simp
qed

text \<open>
  The same step in an overset run whose cell is not tagged \<open>NORMAL\<close>: no element kernel runs,
  and the cell ends with \<open>U = U0 = 1\<close>. With the source term \<open>src = 1\<close> the step ends with
  \<open>U = 1 - (1/2 * 1/10 * 3/2 + 1/2 * 1/10 * 5/2) = 4/5\<close>. Applying \<open>ele::timeStepB\<close> for both
  stages after the restore gives \<open>17/20\<close>.
\<close>

lemmas update_defs = update_def update_stages_def Let_def set_rkTime_def solver_copyUspts_U0_def
  copyUspts_U0_def solver_copyU0_Uspts_def copyU0_Uspts_def solver_timeStepA_def solver_timeStepB_def
  timeStepA_def timeStepB_def timeStepA_source_def timeStepB_source_def mat_loop_def mat_set_def

lemma ov_solver_update:
  "U_spts (eles (update rk_consts rk_kernels False ov_solver) ! 0) = [[1]]"
  by (simp add: update_defs rk_defs eval_nat_numeral)

lemma src_solver_update:
  "U_spts (eles (update rk_consts rk_kernels True src_solver) ! 0) = [[4/5]]"
  by (simp add: update_defs rk_defs eval_nat_numeral)

theorem rk_update_counterexample:
  "U_spts (eles (update rk_consts rk_kernels False ov_solver) ! 0) = [[1]]
   \<and> U_spts (eles (update rk_consts rk_kernels True src_solver) ! 0) = [[4/5]]
   \<and> U_spts (timeStepB (params rk_solver) 1 (1/2) (timeStepB (params rk_solver) 0 (1/2)
               (copyU0_Uspts (rk_ele\<lparr>U0 := [[1]]\<rparr>)))) = [[17/20]]"
  using ov_solver_update src_solver_update
  by (simp add: copyU0_Uspts_def timeStepB_def mat_loop_def mat_set_def rk_defs)

subsection \<open>Frame of the Runge-Kutta update\<close>

text \<open>
  Claim C10. For every element, stage index and coefficient, \<open>ele::timeStepA\<close> and
  \<open>ele::timeStepB\<close> write only \<open>U_spts\<close> and \<open>dt\<close> (the latter becomes the global step unless
  \<open>dtType = 2\<close>, in which case it is kept): the snapshot \<open>U0\<close>, every stage divergence, the
  Jacobian determinants and all geometric arrays are unchanged.
\<close>

theorem timeStep_frame:
  "timeStepA p step rk e = e\<lparr>dt := dt_eff p e, U_spts := U_spts (timeStepA p step rk e)\<rparr>
   \<and> timeStepB p step rk e = e\<lparr>dt := dt_eff p e, U_spts := U_spts (timeStepB p step rk e)\<rparr>
   \<and> dt_eff p e = (if dtType p \<noteq> 2 then params_dt p else dt e)
   \<and> U0 (timeStepA p step rk e) = U0 e \<and> U0 (timeStepB p step rk e) = U0 e
   \<and> divF_spts (timeStepA p step rk e) = divF_spts e \<and> divF_spts (timeStepB p step rk e) = divF_spts e
   \<and> detJac_spts (timeStepA p step rk e) = detJac_spts e \<and> detJac_spts (timeStepB p step rk e) = detJac_spts e
   \<and> detJac_fpts (timeStepA p step rk e) = detJac_fpts e \<and> detJac_fpts (timeStepB p step rk e) = detJac_fpts e
   \<and> Jac_spts (timeStepA p step rk e) = Jac_spts e \<and> Jac_spts (timeStepB p step rk e) = Jac_spts e
   \<and> JGinv_spts (timeStepA p step rk e) = JGinv_spts e \<and> JGinv_spts (timeStepB p step rk e) = JGinv_spts e
   \<and> nodes (timeStepA p step rk e) = nodes e \<and> nodes (timeStepB p step rk e) = nodes e
   \<and> norm_fpts (timeStepA p step rk e) = norm_fpts e \<and> norm_fpts (timeStepB p step rk e) = norm_fpts e
   \<and> dA_fpts (timeStepA p step rk e) = dA_fpts e \<and> dA_fpts (timeStepB p step rk e) = dA_fpts e"
  by (simp add: timeStepA_def timeStepB_def dt_eff_def Let_def)

subsection \<open>Supermesh clipping and integration\<close>




text \<open>
  Claim C8. \<open>superMesh::integrate\<close> is fatal exactly when the data length differs from
  \<open>nQpts\<close>; on data of the right length it has to return the quadrature sum. The code returns
  no value there: with \<open>nQpts = nTets = nQpts_tet = 1\<close> and \<open>data = [1]\<close> the loops do nothing and
  the function ends without a \<open>return\<close>.
\<close>

theorem integrate_no_value:
  "integrate sm1 [1] = Inr None
   \<and> (\<forall>sm data. (\<exists>msg. integrate sm data = Inl (FatalError msg)) \<longleftrightarrow> int (length data) \<noteq> nQpts sm)
   \<and> (\<forall>sm data v. integrate sm data \<noteq> Inr (Some v))"
  by (simp add: integrate_def sm1_def Let_def)

subsection \<open>Geometric transformation\<close>


lemma transform_spt_keeps:
  "nDims (transform_spt m spt e) = nDims e"
  "nSpts (transform_spt m spt e) = nSpts e"
  "nFpts (transform_spt m spt e) = nFpts e"
  "nNodes (transform_spt m spt e) = nNodes e"
  "nodes (transform_spt m spt e) = nodes e"
  "nodesRK (transform_spt m spt e) = nodesRK e"
  "dShape_spts (transform_spt m spt e) = dShape_spts e"
  "length (detJac_spts (transform_spt m spt e)) = length (detJac_spts e)"
  by (simp_all add: transform_spt_def Let_def)

lemma transform_spt_det_same:
  "spt < length (detJac_spts e) \<Longrightarrow> detJac_spts (transform_spt m spt e) ! spt = spt_det m e spt"
  by (simp add: transform_spt_def spt_det_def Let_def)

lemma transform_spt_det_other:
  "k \<noteq> spt \<Longrightarrow> detJac_spts (transform_spt m spt e) ! k = detJac_spts e ! k"
  by (simp add: transform_spt_def Let_def)

lemma spt_det_transform_spt:
  "k \<noteq> spt \<Longrightarrow> spt_det m (transform_spt m spt e) k = spt_det m e k"
  by (simp add: spt_det_def Let_def transform_spt_keeps transform_spt_det_other)

lemma spts_loop_Inr:
  assumes "spts_loop m idxs e = Inr e'" "distinct idxs" "\<forall>k\<in>set idxs. k < length (detJac_spts e)"
  shows "(\<forall>k\<in>set idxs. detJac_spts e' ! k = spt_det m e k \<and> 0 \<le> spt_det m e k)
       \<and> (\<forall>k. k \<notin> set idxs \<longrightarrow> detJac_spts e' ! k = detJac_spts e ! k)
       \<and> nFpts e' = nFpts e \<and> nSpts e' = nSpts e \<and> nDims e' = nDims e"
  using assms
proof (induction idxs arbitrary: e)
  case Nil
  then show ?case by simp
next
  case (Cons spt rest)
  let ?e1 = "transform_spt m spt e"
  from Cons.prems(1) have ok: "\<not> detJac_spts ?e1 ! spt < 0" and rest: "spts_loop m rest ?e1 = Inr e'"
    by (simp_all add: Let_def split: if_splits)
  have spt: "spt < length (detJac_spts e)" "spt \<notin> set rest" "distinct rest"
    using Cons.prems by simp_all
  have "\<forall>k\<in>set rest. k < length (detJac_spts ?e1)"
    using Cons.prems(3) by (simp add: transform_spt_keeps)
  from Cons.IH[OF rest spt(3) this]
  have IH: "\<forall>k\<in>set rest. detJac_spts e' ! k = spt_det m ?e1 k \<and> 0 \<le> spt_det m ?e1 k"
    "\<forall>k. k \<notin> set rest \<longrightarrow> detJac_spts e' ! k = detJac_spts ?e1 ! k"
    "nFpts e' = nFpts e" "nSpts e' = nSpts e" "nDims e' = nDims e"
    by (simp_all add: transform_spt_keeps)
  have here: "detJac_spts e' ! spt = spt_det m e spt" "0 \<le> spt_det m e spt"
    using IH(2) spt(1,2) ok by (simp_all add: transform_spt_det_same)
  have there: "k \<in> set rest \<Longrightarrow> detJac_spts e' ! k = spt_det m e k \<and> 0 \<le> spt_det m e k" for k
  proof -
    assume k: "k \<in> set rest"
    then have "spt_det m ?e1 k = spt_det m e k"
      using spt(2) by (intro spt_det_transform_spt) auto
    then show ?thesis using IH(1) k by auto
  qed
  have other: "k \<notin> set (spt # rest) \<Longrightarrow> detJac_spts e' ! k = detJac_spts e ! k" for k
    using IH(2) by (simp add: transform_spt_det_other)
  show ?case
    using here there other IH(3,4,5) by auto
qed

lemma spts_loop_Inl:
  assumes "distinct idxs" "\<forall>k\<in>set idxs. k < length (detJac_spts e)"
  shows "(\<exists>err. spts_loop m idxs e = Inl err) \<longleftrightarrow> (\<exists>k\<in>set idxs. spt_det m e k < 0)"
  using assms
proof (induction idxs arbitrary: e)
  case Nil
  then show ?case by simp
next
  case (Cons spt rest)
  let ?e1 = "transform_spt m spt e"
  have spt: "spt < length (detJac_spts e)" "spt \<notin> set rest" "distinct rest"
    using Cons.prems by simp_all
  have "\<forall>k\<in>set rest. k < length (detJac_spts ?e1)"
    using Cons.prems(2) by (simp add: transform_spt_keeps)
  from Cons.IH[OF spt(3) this]
  have IH: "(\<exists>err. spts_loop m rest ?e1 = Inl err) \<longleftrightarrow> (\<exists>k\<in>set rest. spt_det m e k < 0)"
  proof -
    have "spt_det m ?e1 k = spt_det m e k" if "k \<in> set rest" for k
      using that spt(2) by (intro spt_det_transform_spt) auto
    then show "(\<exists>err. spts_loop m rest ?e1 = Inl err) \<longleftrightarrow> (\<exists>k\<in>set rest. spt_det m e k < 0)"
      using \<open>(\<exists>err. spts_loop m rest ?e1 = Inl err) \<longleftrightarrow> (\<exists>k\<in>set rest. spt_det m ?e1 k < 0)\<close>
      by auto
  qed
  show ?case
    using IH spt(1) by (auto simp add: Let_def transform_spt_det_same)
qed

lemma fpt_jacobian_keeps:
  "nDims (fpt_jacobian m fpt e) = nDims e"
  "nSpts (fpt_jacobian m fpt e) = nSpts e"
  "nFpts (fpt_jacobian m fpt e) = nFpts e"
  "nNodes (fpt_jacobian m fpt e) = nNodes e"
  "nodes (fpt_jacobian m fpt e) = nodes e"
  "nodesRK (fpt_jacobian m fpt e) = nodesRK e"
  "dShape_fpts (fpt_jacobian m fpt e) = dShape_fpts e"
  "tNorm_fpts (fpt_jacobian m fpt e) = tNorm_fpts e"
  "detJac_spts (fpt_jacobian m fpt e) = detJac_spts e"
  "length (detJac_fpts (fpt_jacobian m fpt e)) = length (detJac_fpts e)"
  "length (JGinv_fpts (fpt_jacobian m fpt e)) = length (JGinv_fpts e)"
  "norm_fpts (fpt_jacobian m fpt e) = norm_fpts e"
  "dA_fpts (fpt_jacobian m fpt e) = dA_fpts e"
  "k \<noteq> fpt \<Longrightarrow> detJac_fpts (fpt_jacobian m fpt e) ! k = detJac_fpts e ! k"
  "k \<noteq> fpt \<Longrightarrow> JGinv_fpts (fpt_jacobian m fpt e) ! k = JGinv_fpts e ! k"
  by (simp_all add: fpt_jacobian_def Let_def)

lemma fpt_normal_keeps:
  "nDims (fpt_normal fpt e) = nDims e"
  "nSpts (fpt_normal fpt e) = nSpts e"
  "nFpts (fpt_normal fpt e) = nFpts e"
  "nNodes (fpt_normal fpt e) = nNodes e"
  "nodes (fpt_normal fpt e) = nodes e"
  "nodesRK (fpt_normal fpt e) = nodesRK e"
  "dShape_fpts (fpt_normal fpt e) = dShape_fpts e"
  "tNorm_fpts (fpt_normal fpt e) = tNorm_fpts e"
  "detJac_spts (fpt_normal fpt e) = detJac_spts e"
  "detJac_fpts (fpt_normal fpt e) = detJac_fpts e"
  "JGinv_fpts (fpt_normal fpt e) = JGinv_fpts e"
  "dA_fpts (fpt_normal fpt e) = dA_fpts e"
  "length (norm_fpts (fpt_normal fpt e)) = length (norm_fpts e)"
  "k \<noteq> fpt \<Longrightarrow> norm_fpts (fpt_normal fpt e) ! k = norm_fpts e ! k"
  by (simp_all add: fpt_normal_def)

lemma fpt_area_keeps:
  "nDims (fpt_area fpt e) = nDims e"
  "nSpts (fpt_area fpt e) = nSpts e"
  "nFpts (fpt_area fpt e) = nFpts e"
  "nNodes (fpt_area fpt e) = nNodes e"
  "nodes (fpt_area fpt e) = nodes e"
  "nodesRK (fpt_area fpt e) = nodesRK e"
  "dShape_fpts (fpt_area fpt e) = dShape_fpts e"
  "tNorm_fpts (fpt_area fpt e) = tNorm_fpts e"
  "detJac_spts (fpt_area fpt e) = detJac_spts e"
  "detJac_fpts (fpt_area fpt e) = detJac_fpts e"
  "JGinv_fpts (fpt_area fpt e) = JGinv_fpts e"
  "length (norm_fpts (fpt_area fpt e)) = length (norm_fpts e)"
  "length (dA_fpts (fpt_area fpt e)) = length (dA_fpts e)"
  "k \<noteq> fpt \<Longrightarrow> norm_fpts (fpt_area fpt e) ! k = norm_fpts e ! k"
  "k \<noteq> fpt \<Longrightarrow> dA_fpts (fpt_area fpt e) ! k = dA_fpts e ! k"
  by (simp_all add: fpt_area_def Let_def)

lemma transform_fpt_keeps:
  "nDims (transform_fpt m fpt e) = nDims e"
  "nSpts (transform_fpt m fpt e) = nSpts e"
  "nFpts (transform_fpt m fpt e) = nFpts e"
  "nNodes (transform_fpt m fpt e) = nNodes e"
  "nodes (transform_fpt m fpt e) = nodes e"
  "nodesRK (transform_fpt m fpt e) = nodesRK e"
  "dShape_fpts (transform_fpt m fpt e) = dShape_fpts e"
  "tNorm_fpts (transform_fpt m fpt e) = tNorm_fpts e"
  "detJac_spts (transform_fpt m fpt e) = detJac_spts e"
  "length (detJac_fpts (transform_fpt m fpt e)) = length (detJac_fpts e)"
  "length (JGinv_fpts (transform_fpt m fpt e)) = length (JGinv_fpts e)"
  "length (norm_fpts (transform_fpt m fpt e)) = length (norm_fpts e)"
  "length (dA_fpts (transform_fpt m fpt e)) = length (dA_fpts e)"
  by (simp_all add: transform_fpt_def fpt_area_keeps fpt_normal_keeps fpt_jacobian_keeps)

lemma fold_transform_fpt_keeps:
  "nDims (fold (transform_fpt m) idxs e) = nDims e
   \<and> nSpts (fold (transform_fpt m) idxs e) = nSpts e
   \<and> nFpts (fold (transform_fpt m) idxs e) = nFpts e
   \<and> detJac_spts (fold (transform_fpt m) idxs e) = detJac_spts e"
  by (induction idxs arbitrary: e) (simp_all add: transform_fpt_keeps)

lemma calcTransforms_spts:
  assumes "length (detJac_spts e) = nSpts e"
  shows "((\<exists>err. calcTransforms moving e = Inl err) \<longleftrightarrow> (\<exists>spt<nSpts e. spt_det moving e spt < 0))
       \<and> (\<forall>e'. calcTransforms moving e = Inr e' \<longrightarrow>
            (\<forall>spt<nSpts e. detJac_spts e' ! spt = spt_det moving e spt \<and> 0 \<le> detJac_spts e' ! spt))"
proof -
  have bound: "\<forall>k\<in>set [0..<nSpts e]. k < length (detJac_spts e)"
    using assms by simp
  have "(\<exists>err. calcTransforms moving e = Inl err) \<longleftrightarrow> (\<exists>err. spts_loop moving [0..<nSpts e] e = Inl err)"
    by (simp add: calcTransforms_def split: sum.splits)
  also have "\<dots> \<longleftrightarrow> (\<exists>k\<in>set [0..<nSpts e]. spt_det moving e k < 0)"
    by (rule spts_loop_Inl[OF _ bound]) simp
  finally have fatal: "(\<exists>err. calcTransforms moving e = Inl err) \<longleftrightarrow> (\<exists>spt<nSpts e. spt_det moving e spt < 0)"
    by auto
  have ok: "detJac_spts e' ! spt = spt_det moving e spt \<and> 0 \<le> detJac_spts e' ! spt"
    if "calcTransforms moving e = Inr e'" "spt < nSpts e" for e' spt
  proof -
    from that(1) obtain e1 where e1: "spts_loop moving [0..<nSpts e] e = Inr e1"
      and e': "e' = fold (transform_fpt moving) [0..<nFpts e1] e1"
      by (auto simp add: calcTransforms_def split: sum.splits)
    from spts_loop_Inr[OF e1 _ bound] that(2)
    have "detJac_spts e1 ! spt = spt_det moving e spt \<and> 0 \<le> spt_det moving e spt"
      by simp
    then show ?thesis
      by (simp add: e' fold_transform_fpt_keeps)
  qed
  show ?thesis
    using fatal ok by blast
qed

lemma upt_small:
  "[0..<1] = [0]" "[0..<2] = [0, 1]" "[0..<3] = [0, 1, 2]" "[0..<4] = [0, 1, 2, 3]"
  by (simp_all add: upt_rec)

lemma transform_fpt_other:
  assumes "k \<noteq> fpt"
  shows "detJac_fpts (transform_fpt m fpt e) ! k = detJac_fpts e ! k"
    and "norm_fpts (transform_fpt m fpt e) ! k = norm_fpts e ! k"
    and "dA_fpts (transform_fpt m fpt e) ! k = dA_fpts e ! k"
  using assms
  by (simp_all add: transform_fpt_def fpt_area_keeps fpt_normal_keeps fpt_jacobian_keeps)

lemma fold_add_sum:
  fixes a :: real
  shows "fold (\<lambda>i acc. acc + f i) [0..<n] a = a + (\<Sum>i<n. f i)"
  by (induction n) simp_all

lemma fpt_jacobian_same:
  "fpt < length (detJac_fpts e) \<Longrightarrow> detJac_fpts (fpt_jacobian m fpt e) ! fpt = fpt_det m e fpt"
  "fpt < length (JGinv_fpts e) \<Longrightarrow> JGinv_fpts (fpt_jacobian m fpt e) ! fpt = fpt_adj m e fpt"
  "norm_fpts (fpt_jacobian m fpt e) = norm_fpts e"
  "dA_fpts (fpt_jacobian m fpt e) = dA_fpts e"
  "nDims (fpt_jacobian m fpt e) = nDims e"
  "tNorm_fpts (fpt_jacobian m fpt e) = tNorm_fpts e"
  by (simp_all add: fpt_jacobian_def fpt_det_def fpt_adj_def fpt_jac_def Let_def)

lemma fpt_normal_same:
  assumes "fpt < length (norm_fpts e)" "length (norm_fpts e ! fpt) = nDims e"
  shows "length (norm_fpts (fpt_normal fpt e) ! fpt) = nDims e"
    and "d < nDims e \<Longrightarrow> norm_fpts (fpt_normal fpt e) ! fpt ! d
           = fold (\<lambda>dim2 acc. acc + JGinv_fpts e ! fpt ! dim2 ! d * (tNorm_fpts e ! fpt ! dim2)) [0..<nDims e] 0"
    and "dA_fpts (fpt_normal fpt e) = dA_fpts e"
    and "nDims (fpt_normal fpt e) = nDims e"
    and "detJac_fpts (fpt_normal fpt e) = detJac_fpts e"
    and "length (norm_fpts (fpt_normal fpt e)) = length (norm_fpts e)"
  using assms by (simp_all add: fpt_normal_def nth_vec_loop)

lemma fpt_area_same:
  assumes "fpt < length (norm_fpts e)" "length (norm_fpts e ! fpt) = nDims e" "fpt < length (dA_fpts e)"
  defines "mag \<equiv> sqrt (\<Sum>d<nDims e. norm_fpts e ! fpt ! d * (norm_fpts e ! fpt ! d))"
  shows "dA_fpts (fpt_area fpt e) ! fpt = (if mag < 1 / 10 ^ 10 then 0 else mag)"
    and "length (norm_fpts (fpt_area fpt e) ! fpt) = nDims e"
    and "d < nDims e \<Longrightarrow> norm_fpts (fpt_area fpt e) ! fpt ! d
           = (if mag < 1 / 10 ^ 10 then 0 else norm_fpts e ! fpt ! d / mag)"
    and "detJac_fpts (fpt_area fpt e) = detJac_fpts e"
proof -
  have nonneg: "0 \<le> mag"
    unfolding mag_def by (simp add: sum_nonneg)
  have m: "sqrt (fold (\<lambda>dim acc. acc + norm_fpts e ! fpt ! dim * (norm_fpts e ! fpt ! dim)) [0..<nDims e] 0) = mag"
    by (simp add: fold_add_sum mag_def)
  show "dA_fpts (fpt_area fpt e) ! fpt = (if mag < 1 / 10 ^ 10 then 0 else mag)"
    using assms(3) nonneg by (simp add: fpt_area_def Let_def m)
  show "length (norm_fpts (fpt_area fpt e) ! fpt) = nDims e"
    using assms(1,2,3) by (simp add: fpt_area_def Let_def m)
  show "norm_fpts (fpt_area fpt e) ! fpt ! d = (if mag < 1 / 10 ^ 10 then 0 else norm_fpts e ! fpt ! d / mag)"
    if "d < nDims e"
    using assms(1,2,3) nonneg that by (simp add: fpt_area_def Let_def m nth_vec_loop)
  show "detJac_fpts (fpt_area fpt e) = detJac_fpts e"
    by (simp add: fpt_area_def Let_def)
qed

lemma transform_fpt_same:
  assumes "fpt < length (JGinv_fpts e)" "fpt < length (norm_fpts e)" "fpt < length (dA_fpts e)"
    and "length (norm_fpts e ! fpt) = nDims e" "fpt < length (detJac_fpts e)"
  shows "dA_fpts (transform_fpt m fpt e) ! fpt
           = (if fpt_mag m e fpt < 1 / 10 ^ 10 then 0 else fpt_mag m e fpt)"
    and "length (norm_fpts (transform_fpt m fpt e) ! fpt) = nDims e"
    and "d < nDims e \<Longrightarrow> norm_fpts (transform_fpt m fpt e) ! fpt ! d
           = (if fpt_mag m e fpt < 1 / 10 ^ 10 then 0 else fpt_raw m e fpt d / fpt_mag m e fpt)"
    and "detJac_fpts (transform_fpt m fpt e) ! fpt = fpt_det m e fpt"
proof -
  let ?e1 = "fpt_jacobian m fpt e"
  let ?e2 = "fpt_normal fpt ?e1"
  have s1: "fpt < length (norm_fpts ?e1)" "length (norm_fpts ?e1 ! fpt) = nDims ?e1"
    using assms by (simp_all add: fpt_jacobian_same)
  have raw: "norm_fpts ?e2 ! fpt ! k = fpt_raw m e fpt k" if "k < nDims e" for k
    using fpt_normal_same(2)[OF s1, of k] that assms(1)
    by (simp add: fpt_jacobian_same fpt_raw_def)
  have s2: "fpt < length (norm_fpts ?e2)" "length (norm_fpts ?e2 ! fpt) = nDims ?e2" "fpt < length (dA_fpts ?e2)"
    using fpt_normal_same(1,3,4,6)[OF s1] assms by (simp_all add: fpt_jacobian_same)
  have nd: "nDims ?e2 = nDims e"
    using fpt_normal_same(4)[OF s1] by (simp add: fpt_jacobian_same)
  have mag: "sqrt (\<Sum>d<nDims ?e2. norm_fpts ?e2 ! fpt ! d * (norm_fpts ?e2 ! fpt ! d)) = fpt_mag m e fpt"
    by (simp add: nd raw fpt_mag_def fold_add_sum)
  show "dA_fpts (transform_fpt m fpt e) ! fpt
           = (if fpt_mag m e fpt < 1 / 10 ^ 10 then 0 else fpt_mag m e fpt)"
    using fpt_area_same(1)[OF s2, unfolded mag] by (simp add: transform_fpt_def)
  show "length (norm_fpts (transform_fpt m fpt e) ! fpt) = nDims e"
    using fpt_area_same(2)[OF s2] by (simp add: transform_fpt_def nd)
  show "norm_fpts (transform_fpt m fpt e) ! fpt ! d
           = (if fpt_mag m e fpt < 1 / 10 ^ 10 then 0 else fpt_raw m e fpt d / fpt_mag m e fpt)"
    if "d < nDims e"
    using fpt_area_same(3)[OF s2, of d, unfolded mag] that by (simp add: transform_fpt_def nd raw)
  show "detJac_fpts (transform_fpt m fpt e) ! fpt = fpt_det m e fpt"
    using fpt_area_same(4)[OF s2] fpt_normal_same(5)[OF s1] assms(5)
    by (simp add: transform_fpt_def fpt_jacobian_same)
qed


lemma transform_spt_fpt_frame:
  "dShape_fpts (transform_spt m spt e) = dShape_fpts e"
  "tNorm_fpts (transform_spt m spt e) = tNorm_fpts e"
  "norm_fpts (transform_spt m spt e) = norm_fpts e"
  "dA_fpts (transform_spt m spt e) = dA_fpts e"
  "JGinv_fpts (transform_spt m spt e) = JGinv_fpts e"
  "detJac_fpts (transform_spt m spt e) = detJac_fpts e"
  by (simp_all add: transform_spt_def Let_def)

lemma spts_loop_frame:
  "spts_loop m idxs e = Inr e' \<Longrightarrow>
     nDims e' = nDims e \<and> nFpts e' = nFpts e \<and> nNodes e' = nNodes e \<and> nodes e' = nodes e
     \<and> nodesRK e' = nodesRK e \<and> dShape_fpts e' = dShape_fpts e \<and> tNorm_fpts e' = tNorm_fpts e
     \<and> norm_fpts e' = norm_fpts e \<and> dA_fpts e' = dA_fpts e \<and> JGinv_fpts e' = JGinv_fpts e
     \<and> detJac_fpts e' = detJac_fpts e"
proof (induction idxs arbitrary: e)
  case Nil
  then show ?case by simp
next
  case (Cons spt rest)
  from Cons.prems have "spts_loop m rest (transform_spt m spt e) = Inr e'"
    by (simp add: Let_def split: if_splits)
  from Cons.IH[OF this] show ?case
    by (simp add: transform_spt_keeps transform_spt_fpt_frame)
qed

lemma fpt_frame:
  assumes "nDims e' = nDims e" "nNodes e' = nNodes e" "nodes e' = nodes e" "nodesRK e' = nodesRK e"
    and "dShape_fpts e' = dShape_fpts e" "tNorm_fpts e' = tNorm_fpts e"
    and "nDims e = 2 \<or> nDims e = 3"
  shows "fpt_det m e' fpt = fpt_det m e fpt" "fpt_raw m e' fpt d = fpt_raw m e fpt d"
    "fpt_mag m e' fpt = fpt_mag m e fpt"
proof -
  have jac: "fpt_jac m e' fpt = fpt_jac m e fpt"
    using assms by (simp add: fpt_jac_def)
  have adj: "fpt_adj m e' fpt = fpt_adj m e fpt"
    using assms(1,7) jac by (auto simp add: fpt_adj_def)
  show "fpt_det m e' fpt = fpt_det m e fpt"
    using assms(1,7) jac by (auto simp add: fpt_det_def)
  show raw: "fpt_raw m e' fpt d = fpt_raw m e fpt d" for d
    using assms(1,6) adj by (simp add: fpt_raw_def)
  show "fpt_mag m e' fpt = fpt_mag m e fpt"
    using assms(1) raw by (simp add: fpt_mag_def)
qed

lemma fold_transform_fpt:
  assumes "n \<le> length (JGinv_fpts e)" "n \<le> length (norm_fpts e)" "n \<le> length (dA_fpts e)"
    and "n \<le> length (detJac_fpts e)"
    and "\<forall>k<n. length (norm_fpts e ! k) = nDims e" and "nDims e = 2 \<or> nDims e = 3"
  shows "(let e' = fold (transform_fpt m) [0..<n] e in
           nDims e' = nDims e \<and> nNodes e' = nNodes e \<and> nodes e' = nodes e \<and> nodesRK e' = nodesRK e
         \<and> dShape_fpts e' = dShape_fpts e \<and> tNorm_fpts e' = tNorm_fpts e
         \<and> length (JGinv_fpts e') = length (JGinv_fpts e) \<and> length (norm_fpts e') = length (norm_fpts e)
         \<and> length (dA_fpts e') = length (dA_fpts e) \<and> length (detJac_fpts e') = length (detJac_fpts e)
         \<and> (\<forall>k\<ge>n. norm_fpts e' ! k = norm_fpts e ! k)
         \<and> (\<forall>fpt<n. fpt_result m e e' fpt))"
  using assms
proof (induction n)
  case 0
  show ?case by simp
next
  case (Suc n)
  define e1 where "e1 = fold (transform_fpt m) [0..<n] e"
  have IH: "nDims e1 = nDims e" "nNodes e1 = nNodes e" "nodes e1 = nodes e" "nodesRK e1 = nodesRK e"
    "dShape_fpts e1 = dShape_fpts e" "tNorm_fpts e1 = tNorm_fpts e"
    "length (JGinv_fpts e1) = length (JGinv_fpts e)" "length (norm_fpts e1) = length (norm_fpts e)"
    "length (dA_fpts e1) = length (dA_fpts e)" "length (detJac_fpts e1) = length (detJac_fpts e)"
    "\<forall>k\<ge>n. norm_fpts e1 ! k = norm_fpts e ! k" "\<forall>fpt<n. fpt_result m e e1 fpt"
    using Suc.IH Suc.prems by (simp_all add: Let_def e1_def)
  let ?e2 = "transform_fpt m n e1"
  have step: "fold (transform_fpt m) [0..<Suc n] e = ?e2"
    by (simp add: e1_def)
  have pre: "n < length (JGinv_fpts e1)" "n < length (norm_fpts e1)" "n < length (dA_fpts e1)"
    "length (norm_fpts e1 ! n) = nDims e1" "n < length (detJac_fpts e1)"
    using Suc.prems IH by simp_all
  note fr = fpt_frame[OF IH(1,2,3,4,5,6) Suc.prems(6)]
  have new: "fpt_result m e ?e2 n"
    unfolding fpt_result_def
    using transform_fpt_same[OF pre, where m = m] by (simp add: fr IH(1))
  have old: "fpt_result m e ?e2 fpt" if "fpt < n" for fpt
  proof -
    have "fpt \<noteq> n" using that by simp
    then show ?thesis
      using IH(12) that by (simp add: fpt_result_def transform_fpt_other)
  qed
  have all: "\<forall>fpt<Suc n. fpt_result m e ?e2 fpt"
    using new old by (auto simp add: less_Suc_eq)
  have later: "\<forall>k\<ge>Suc n. norm_fpts ?e2 ! k = norm_fpts e ! k"
    using IH(11) by (simp add: transform_fpt_other)
  show ?case
    unfolding step Let_def
    using all later IH by (simp add: transform_fpt_keeps)
qed

lemma calcTransforms_fpts:
  assumes "geo_sized e" "calcTransforms m e = Inr e'" "fpt < nFpts e"
  shows "fpt_result m e e' fpt" "nDims e' = nDims e"
proof -
  from assms(2) obtain e1 where e1: "spts_loop m [0..<nSpts e] e = Inr e1"
    and e': "e' = fold (transform_fpt m) [0..<nFpts e1] e1"
    by (auto simp add: calcTransforms_def split: sum.splits)
  note f = spts_loop_frame[OF e1]
  have rows: "\<forall>k<nFpts e1. length (norm_fpts e1 ! k) = nDims e1"
    using assms(1) f by (simp add: geo_sized_def list_all_length)
  have sz: "nFpts e1 \<le> length (JGinv_fpts e1)" "nFpts e1 \<le> length (norm_fpts e1)"
    "nFpts e1 \<le> length (dA_fpts e1)" "nFpts e1 \<le> length (detJac_fpts e1)"
    "nDims e1 = 2 \<or> nDims e1 = 3"
    using assms(1) f by (simp_all add: geo_sized_def)
  from fold_transform_fpt[OF sz(1,2,3,4) rows sz(5), where m = m]
  have res: "fpt_result m e1 e' fpt" and nd: "nDims e' = nDims e1"
    using assms(3) f by (simp_all add: Let_def e')
  have same: "nDims e = 2 \<or> nDims e = 3"
    using assms(1) by (simp add: geo_sized_def)
  note fr = fpt_frame[of e1 e, OF _ _ _ _ _ _ same]
  show "fpt_result m e e' fpt"
    using res f by (simp add: fpt_result_def fr)
  show "nDims e' = nDims e"
    using nd f by simp
qed


lemmas quad_defs = quad_p0_def blank_ele_def mk_point_def pt_get_def jacobian_at_def upt_small
  det2_def adj2_def

lemma quad_sized:
  "geo_sized square4" "geo_sized flat_quad" "geo_sized dart_quad" "geo_sized flipped_quad"
  by (simp_all add: geo_sized_def square4_def flat_quad_def dart_quad_def flipped_quad_def
      quad_p0_def blank_ele_def list_all_iff)

lemma quad_spt_det:
  "spt_det False square4 0 = 4" "spt_det False flat_quad 0 = 0" "spt_det False dart_quad 0 = 1"
  "spt_det False flipped_quad 0 = - 4"
  by (simp_all add: spt_det_def square4_def flat_quad_def dart_quad_def flipped_quad_def quad_defs)

lemma quad_fpt_det:
  "fpt_det False dart_quad (Suc 0) = - 1 / 2"
  by (simp add: fpt_det_def fpt_jac_def dart_quad_def quad_defs)

lemma quad_fpt_raw:
  "fpt_raw False square4 (Suc 0) 0 = 2" "fpt_raw False square4 (Suc 0) (Suc 0) = 0"
  "fpt_raw False flat_quad (Suc 0) 0 = 0" "fpt_raw False flat_quad (Suc 0) (Suc 0) = 0"
  by (simp_all add: fpt_raw_def fpt_adj_def fpt_jac_def square4_def flat_quad_def quad_defs)

lemma quad_fpt_mag:
  "fpt_mag False square4 (Suc 0) = 2" "fpt_mag False flat_quad (Suc 0) = 0"
proof -
  have "nDims square4 = 2" "nDims flat_quad = 2"
    by (simp_all add: square4_def flat_quad_def quad_p0_def blank_ele_def)
  then show "fpt_mag False square4 (Suc 0) = 2" "fpt_mag False flat_quad (Suc 0) = 0"
    by (simp_all add: fpt_mag_def upt_small quad_fpt_raw)
qed

lemma quad_returns:
  "\<not> isl (calcTransforms False square4)" "\<not> isl (calcTransforms False flat_quad)"
  "\<not> isl (calcTransforms False dart_quad)" "isl (calcTransforms False flipped_quad)"
proof -
  have n: "nSpts square4 = 1" "nSpts flat_quad = 1" "nSpts dart_quad = 1" "nSpts flipped_quad = 1"
    by (simp_all add: square4_def flat_quad_def dart_quad_def flipped_quad_def quad_p0_def blank_ele_def)
  have len: "length (detJac_spts e) = nSpts e" if "geo_sized e" for e
    using that by (simp add: geo_sized_def)
  have iff: "isl (calcTransforms False e) \<longleftrightarrow> (\<exists>spt<nSpts e. spt_det False e spt < 0)"
    if "geo_sized e" for e
    using calcTransforms_spts[OF len[OF that], of False] by (auto simp add: isl_def)
  show "\<not> isl (calcTransforms False square4)" "\<not> isl (calcTransforms False flat_quad)"
    "\<not> isl (calcTransforms False dart_quad)" "isl (calcTransforms False flipped_quad)"
    by (simp_all add: iff quad_sized n quad_spt_det)
qed

text \<open>
  Claim C2, as the code has it. \<open>ele::calcTransforms\<close> is fatal exactly when the Jacobian
  determinant is negative at some solution point; when it returns, the stored determinant at
  every solution point is the determinant of the Jacobian there and is not negative. (A zero
  determinant is accepted, and the flux-point loop has no check.)
\<close>

theorem calcTransforms_det_spts:
  assumes "length (detJac_spts e) = nSpts e"
  shows "((\<exists>err. calcTransforms moving e = Inl err) \<longleftrightarrow> (\<exists>spt<nSpts e. spt_det moving e spt < 0))
       \<and> (\<forall>e'. calcTransforms moving e = Inr e' \<longrightarrow>
            (\<forall>spt<nSpts e. detJac_spts e' ! spt = spt_det moving e spt \<and> 0 \<le> detJac_spts e' ! spt))"
  using calcTransforms_spts[OF assms] .

text \<open>
  The theorem on two squares of side 4: with the nodes in clockwise order the determinant is
  \<open>-4\<close> and the call is fatal; in counter-clockwise order it returns with determinant \<open>4\<close>.
\<close>

theorem calcTransforms_det_spts_witness:
  "isl (calcTransforms False flipped_quad)
   \<and> calcTransforms False square4 = Inr (projr (calcTransforms False square4))
   \<and> detJac_spts (projr (calcTransforms False square4)) ! 0 = 4"
proof -
  have len: "length (detJac_spts square4) = nSpts square4" "length (detJac_spts flipped_quad) = nSpts flipped_quad"
    by (simp_all add: square4_def flipped_quad_def quad_p0_def blank_ele_def)
  have n: "nSpts square4 = 1" "nSpts flipped_quad = 1"
    by (simp_all add: square4_def flipped_quad_def quad_p0_def blank_ele_def)
  note sq = calcTransforms_det_spts[OF len(1), of False]
  note fl = calcTransforms_det_spts[OF len(2), of False]
  have "\<exists>err. calcTransforms False flipped_quad = Inl err"
    using fl by (simp add: n quad_spt_det)
  then have a: "isl (calcTransforms False flipped_quad)"
    by auto
  have "\<not> (\<exists>err. calcTransforms False square4 = Inl err)"
    using sq by (simp add: n quad_spt_det)
  then obtain e' where e': "calcTransforms False square4 = Inr e'"
    by (cases "calcTransforms False square4") auto
  have "detJac_spts e' ! 0 = 4"
    using sq e' by (simp add: n quad_spt_det)
  then show ?thesis
    using a e' by simp
qed

text \<open>
  Strict positivity fails, and a non-positive determinant is not always fatal: on a
  quadrilateral flattened onto a segment the call returns with determinant \<open>0\<close> at the
  solution point, and on a concave quadrilateral it returns with determinant \<open>-1/2\<close> at a
  flux point.
\<close>

theorem calcTransforms_det_counterexample:
  "\<not> isl (calcTransforms False flat_quad)
   \<and> detJac_spts (projr (calcTransforms False flat_quad)) ! 0 = 0
   \<and> \<not> isl (calcTransforms False dart_quad)
   \<and> detJac_fpts (projr (calcTransforms False dart_quad)) ! 1 = - 1 / 2"
proof -
  obtain e1 where e1: "calcTransforms False flat_quad = Inr e1"
    using quad_returns(2) by (cases "calcTransforms False flat_quad") auto
  obtain e2 where e2: "calcTransforms False dart_quad = Inr e2"
    using quad_returns(3) by (cases "calcTransforms False dart_quad") auto
  have len: "length (detJac_spts flat_quad) = nSpts flat_quad" "nSpts flat_quad = 1" "nFpts dart_quad = 4"
    by (simp_all add: flat_quad_def dart_quad_def quad_p0_def blank_ele_def)
  have "detJac_spts e1 ! 0 = 0"
    using calcTransforms_spts[OF len(1), of False] e1 by (simp add: len quad_spt_det)
  moreover have "detJac_fpts e2 ! 1 = - 1 / 2"
    using calcTransforms_fpts(1)[OF quad_sized(3) e2, of 1]
    by (simp add: len fpt_result_def quad_fpt_det)
  ultimately show ?thesis
    using e1 e2 by simp
qed

text \<open>
  The adjoint stored at a flux point is the one the normal is computed from, and the
  reference normals are not written.
\<close>

lemma transform_fpt_JGinv:
  "fpt < length (JGinv_fpts e) \<Longrightarrow> JGinv_fpts (transform_fpt m fpt e) ! fpt = fpt_adj m e fpt"
  "k \<noteq> fpt \<Longrightarrow> JGinv_fpts (transform_fpt m fpt e) ! k = JGinv_fpts e ! k"
  by (simp_all add: transform_fpt_def fpt_area_keeps fpt_normal_keeps fpt_jacobian_same fpt_jacobian_keeps)

lemma fpt_adj_frame:
  assumes "nDims e' = nDims e" "nNodes e' = nNodes e" "nodes e' = nodes e" "nodesRK e' = nodesRK e"
    and "dShape_fpts e' = dShape_fpts e" "nDims e = 2 \<or> nDims e = 3"
  shows "fpt_adj m e' fpt = fpt_adj m e fpt"
proof -
  have "fpt_jac m e' fpt = fpt_jac m e fpt"
    using assms by (simp add: fpt_jac_def)
  then show ?thesis
    using assms(1,6) by (auto simp add: fpt_adj_def)
qed

lemma fold_transform_fpt_JGinv:
  assumes "n \<le> length (JGinv_fpts e)" "n \<le> length (norm_fpts e)" "n \<le> length (dA_fpts e)"
    and "n \<le> length (detJac_fpts e)"
    and "\<forall>k<n. length (norm_fpts e ! k) = nDims e" and "nDims e = 2 \<or> nDims e = 3"
  shows "\<forall>fpt<n. JGinv_fpts (fold (transform_fpt m) [0..<n] e) ! fpt = fpt_adj m e fpt"
  using assms
proof (induction n)
  case 0
  show ?case by simp
next
  case (Suc n)
  define e1 where "e1 = fold (transform_fpt m) [0..<n] e"
  have IH: "\<forall>fpt<n. JGinv_fpts e1 ! fpt = fpt_adj m e fpt"
    using Suc.IH Suc.prems by (simp add: e1_def)
  have fr: "nDims e1 = nDims e" "nNodes e1 = nNodes e" "nodes e1 = nodes e" "nodesRK e1 = nodesRK e"
    "dShape_fpts e1 = dShape_fpts e" "length (JGinv_fpts e1) = length (JGinv_fpts e)"
    using fold_transform_fpt[of n e m] Suc.prems by (simp_all add: Let_def e1_def)
  have step: "fold (transform_fpt m) [0..<Suc n] e = transform_fpt m n e1"
    by (simp add: e1_def)
  have new: "JGinv_fpts (transform_fpt m n e1) ! n = fpt_adj m e n"
    using transform_fpt_JGinv(1)[of n e1 m] Suc.prems(1) fr(6)
    by (simp add: fpt_adj_frame[OF fr(1,2,3,4,5) Suc.prems(6)])
  have old: "JGinv_fpts (transform_fpt m n e1) ! fpt = fpt_adj m e fpt" if "fpt < n" for fpt
    using that IH by (simp add: transform_fpt_JGinv(2))
  show ?case
    unfolding step using new old by (auto simp add: less_Suc_eq)
qed

lemma calcTransforms_JGinv:
  assumes "geo_sized e" "calcTransforms m e = Inr e'" "fpt < nFpts e"
  shows "JGinv_fpts e' ! fpt = fpt_adj m e fpt" "tNorm_fpts e' = tNorm_fpts e"
proof -
  from assms(2) obtain e1 where e1: "spts_loop m [0..<nSpts e] e = Inr e1"
    and e': "e' = fold (transform_fpt m) [0..<nFpts e1] e1"
    by (auto simp add: calcTransforms_def split: sum.splits)
  note f = spts_loop_frame[OF e1]
  have rows: "\<forall>k<nFpts e1. length (norm_fpts e1 ! k) = nDims e1"
    using assms(1) f by (simp add: geo_sized_def list_all_length)
  have sz: "nFpts e1 \<le> length (JGinv_fpts e1)" "nFpts e1 \<le> length (norm_fpts e1)"
    "nFpts e1 \<le> length (dA_fpts e1)" "nFpts e1 \<le> length (detJac_fpts e1)"
    "nDims e1 = 2 \<or> nDims e1 = 3"
    using assms(1) f by (simp_all add: geo_sized_def)
  have same: "nDims e = 2 \<or> nDims e = 3"
    using assms(1) by (simp add: geo_sized_def)
  have "JGinv_fpts e' ! fpt = fpt_adj m e1 fpt"
    using fold_transform_fpt_JGinv[OF sz(1,2,3,4) rows sz(5), where m = m] assms(3) f
    by (simp add: e')
  also have "\<dots> = fpt_adj m e fpt"
    using f by (intro fpt_adj_frame[OF _ _ _ _ _ same]) simp_all
  finally show "JGinv_fpts e' ! fpt = fpt_adj m e fpt" .
  show "tNorm_fpts e' = tNorm_fpts e"
    using fold_transform_fpt[OF sz(1,2,3,4) rows sz(5), where m = m] f
    by (simp add: Let_def e')
qed

lemma unit_normal:
  assumes "fpt_result m e e' fpt" "nDims e' = nDims e"
  shows "dA_fpts e' ! fpt = (if fpt_mag m e fpt < 1 / 10 ^ 10 then 0 else fpt_mag m e fpt)"
    and "dA_fpts e' ! fpt = 0 \<longrightarrow> (\<forall>d<nDims e'. norm_fpts e' ! fpt ! d = 0)"
    and "dA_fpts e' ! fpt \<noteq> 0 \<longrightarrow> 1 / 10 ^ 10 \<le> dA_fpts e' ! fpt \<and> norm_len e' fpt = 1"
proof -
  let ?mag = "fpt_mag m e fpt"
  have dA: "dA_fpts e' ! fpt = (if ?mag < 1 / 10 ^ 10 then 0 else ?mag)"
    and nrm: "\<And>d. d < nDims e \<Longrightarrow> norm_fpts e' ! fpt ! d
                = (if ?mag < 1 / 10 ^ 10 then 0 else fpt_raw m e fpt d / ?mag)"
    using assms(1) by (simp_all add: fpt_result_def)
  show "dA_fpts e' ! fpt = (if ?mag < 1 / 10 ^ 10 then 0 else ?mag)"
    by (rule dA)
  show "dA_fpts e' ! fpt = 0 \<longrightarrow> (\<forall>d<nDims e'. norm_fpts e' ! fpt ! d = 0)"
    using dA nrm assms(2) by (auto split: if_splits)
  show "dA_fpts e' ! fpt \<noteq> 0 \<longrightarrow> 1 / 10 ^ 10 \<le> dA_fpts e' ! fpt \<and> norm_len e' fpt = 1"
  proof
    assume "dA_fpts e' ! fpt \<noteq> 0"
    then have big: "\<not> ?mag < 1 / 10 ^ 10" and eq: "dA_fpts e' ! fpt = ?mag"
      using dA by (auto split: if_splits)
    have "(0::real) < 1 / 10 ^ 10"
      by simp
    with big have pos: "0 < ?mag"
      by linarith
    have sq: "?mag\<^sup>2 = (\<Sum>d<nDims e. (fpt_raw m e fpt d)\<^sup>2)"
      unfolding fpt_mag_def fold_add_sum
      by (simp add: sum_nonneg power2_eq_square)
    have "(\<Sum>d<nDims e'. (norm_fpts e' ! fpt ! d)\<^sup>2) = (\<Sum>d<nDims e. (fpt_raw m e fpt d / ?mag)\<^sup>2)"
      using nrm big assms(2) by simp
    also have "\<dots> = (\<Sum>d<nDims e. (fpt_raw m e fpt d)\<^sup>2) / ?mag\<^sup>2"
      by (simp add: power_divide sum_divide_distrib)
    also have "\<dots> = 1"
      using pos by (simp add: sq[symmetric])
    finally have "norm_len e' fpt = 1"
      by (simp add: norm_len_def)
    then show "1 / 10 ^ 10 \<le> dA_fpts e' ! fpt \<and> norm_len e' fpt = 1"
      using big eq by simp
  qed
qed


lemma stored_normal:
  assumes "fpt_result m e e' fpt" "nDims e' = nDims e" "JGinv_fpts e' ! fpt = fpt_adj m e fpt"
    "tNorm_fpts e' = tNorm_fpts e"
  shows "(let raw = (\<lambda>d. \<Sum>dim2<nDims e'. JGinv_fpts e' ! fpt ! dim2 ! d * (tNorm_fpts e' ! fpt ! dim2));
              mag = sqrt (\<Sum>d<nDims e'. raw d * raw d)
          in dA_fpts e' ! fpt = (if mag < 1 / 10 ^ 10 then 0 else mag)
             \<and> (\<forall>d<nDims e'. norm_fpts e' ! fpt ! d = (if mag < 1 / 10 ^ 10 then 0 else raw d / mag)))"
proof -
  have raw: "(\<Sum>dim2<nDims e'. JGinv_fpts e' ! fpt ! dim2 ! d * (tNorm_fpts e' ! fpt ! dim2)) = fpt_raw m e fpt d"
    for d
    by (simp add: assms(2,3,4) fpt_raw_def fold_add_sum)
  have mag: "sqrt (\<Sum>d<nDims e'. fpt_raw m e fpt d * fpt_raw m e fpt d) = fpt_mag m e fpt"
    by (simp add: assms(2) fpt_mag_def fold_add_sum)
  show ?thesis
    unfolding Let_def raw mag
    using assms(1,2) by (simp add: fpt_result_def)
qed

text \<open>
  Claim C5, as the code has it. After \<open>ele::calcTransforms\<close>, at every flux point, with \<open>raw\<close>
  the physical normal \<open>JGinv^T * tNorm\<close> formed from the stored adjoint and \<open>mag\<close> its Euclidean
  length, \<open>dA_fpts\<close> is \<open>mag\<close> and the stored normal \<open>norm_fpts\<close> is \<open>raw / mag\<close>, component by
  component; both are zero when \<open>mag < 1e-10\<close>. So the Euclidean norm of the stored normal is
  1, not \<open>dA_fpts\<close>, whenever \<open>dA_fpts\<close> is not zero, and the stored normal is the zero vector
  whenever \<open>dA_fpts\<close> is zero.
\<close>

theorem calcTransforms_unit_normals:
  assumes "geo_sized e" "calcTransforms moving e = Inr e'" "fpt < nFpts e"
  shows "(let raw = (\<lambda>d. \<Sum>dim2<nDims e'. JGinv_fpts e' ! fpt ! dim2 ! d * (tNorm_fpts e' ! fpt ! dim2));
              mag = sqrt (\<Sum>d<nDims e'. raw d * raw d)
          in dA_fpts e' ! fpt = (if mag < 1 / 10 ^ 10 then 0 else mag)
             \<and> (\<forall>d<nDims e'. norm_fpts e' ! fpt ! d = (if mag < 1 / 10 ^ 10 then 0 else raw d / mag)))
       \<and> JGinv_fpts e' ! fpt = fpt_adj moving e fpt \<and> tNorm_fpts e' = tNorm_fpts e \<and> nDims e' = nDims e
       \<and> dA_fpts e' ! fpt = (if fpt_mag moving e fpt < 1 / 10 ^ 10 then 0 else fpt_mag moving e fpt)
       \<and> (dA_fpts e' ! fpt = 0 \<longrightarrow> (\<forall>d<nDims e'. norm_fpts e' ! fpt ! d = 0))
       \<and> (dA_fpts e' ! fpt \<noteq> 0 \<longrightarrow> 1 / 10 ^ 10 \<le> dA_fpts e' ! fpt \<and> norm_len e' fpt = 1)"
  using unit_normal[OF calcTransforms_fpts[OF assms]]
    stored_normal[OF calcTransforms_fpts[OF assms] calcTransforms_JGinv[OF assms]]
    calcTransforms_JGinv[OF assms] calcTransforms_fpts(2)[OF assms]
  by blast

text \<open>
  The theorem at the second flux point of the flattened quadrilateral (a collapsed edge) and
  of the square of side 4, where the stored normal is \<open>(2, 0) / 2 = (1, 0)\<close>.
\<close>

lemma quad_fpt_adj:
  "fpt_adj False square4 (Suc 0) = [[2, 0], [0, 2]]"
  by (simp add: fpt_adj_def fpt_jac_def square4_def quad_defs)

theorem calcTransforms_unit_normals_witness:
  "dA_fpts (projr (calcTransforms False flat_quad)) ! 1 = 0
   \<and> norm_fpts (projr (calcTransforms False flat_quad)) ! 1 ! 0 = 0
   \<and> norm_fpts (projr (calcTransforms False flat_quad)) ! 1 ! 1 = 0
   \<and> dA_fpts (projr (calcTransforms False square4)) ! 1 = 2
   \<and> norm_len (projr (calcTransforms False square4)) 1 = 1
   \<and> norm_fpts (projr (calcTransforms False square4)) ! 1 ! 0 = 1
   \<and> norm_fpts (projr (calcTransforms False square4)) ! 1 ! 1 = 0"
proof -
  obtain e1 where e1: "calcTransforms False flat_quad = Inr e1"
    using quad_returns(2) by (cases "calcTransforms False flat_quad") auto
  obtain e2 where e2: "calcTransforms False square4 = Inr e2"
    using quad_returns(1) by (cases "calcTransforms False square4") auto
  have n: "(1::nat) < nFpts flat_quad" "(1::nat) < nFpts square4" "nDims flat_quad = 2" "nDims square4 = 2"
    by (simp_all add: flat_quad_def square4_def quad_p0_def blank_ele_def)
  have tn: "tNorm_fpts square4 ! Suc 0 = [1, 0]"
    by (simp add: square4_def quad_p0_def blank_ele_def)
  note a = calcTransforms_unit_normals[OF quad_sized(2) e1 n(1)]
  note b = calcTransforms_unit_normals[OF quad_sized(1) e2 n(2)]
  have nd: "nDims e1 = 2" "nDims e2 = 2"
    using a b n by simp_all
  have "dA_fpts e1 ! 1 = 0 \<and> norm_fpts e1 ! 1 ! 0 = 0 \<and> norm_fpts e1 ! 1 ! 1 = 0"
    using a by (simp add: quad_fpt_mag nd)
  moreover have "dA_fpts e2 ! 1 = 2 \<and> norm_len e2 1 = 1"
    using b by (simp add: quad_fpt_mag)
  moreover have "norm_fpts e2 ! 1 ! 0 = 1 \<and> norm_fpts e2 ! 1 ! 1 = 0"
  proof -
    have J: "JGinv_fpts e2 ! Suc 0 = [[2, 0], [0, 2]]" "tNorm_fpts e2 ! Suc 0 = [1, 0]"
      using b by (simp_all add: quad_fpt_adj tn)
    from b[THEN conjunct1] show ?thesis
      by (simp add: Let_def nd J eval_nat_numeral All_less_Suc)
  qed
  ultimately show ?thesis
    using e1 e2 by simp
qed

text \<open>
  On the square of side 4 the stored normal at the second flux point has norm 1 while the
  stored area element is 2; the difference exceeds \<open>1e-12\<close> times the side.
\<close>

theorem calcTransforms_normals_counterexample:
  "\<not> isl (calcTransforms False square4)
   \<and> dA_fpts (projr (calcTransforms False square4)) ! 1 = 2
   \<and> norm_len (projr (calcTransforms False square4)) 1 = 1
   \<and> \<not> \<bar>norm_len (projr (calcTransforms False square4)) 1
          - dA_fpts (projr (calcTransforms False square4)) ! 1\<bar> \<le> 4 / 10 ^ 12"
proof -
  obtain e2 where e2: "calcTransforms False square4 = Inr e2"
    using quad_returns(1) by (cases "calcTransforms False square4") auto
  have n: "(1::nat) < nFpts square4"
    by (simp add: square4_def quad_p0_def blank_ele_def)
  note r = calcTransforms_fpts[OF quad_sized(1) e2 n]
  have "dA_fpts e2 ! 1 = 2 \<and> norm_len e2 1 = 1"
    using unit_normal[OF r] by (simp add: quad_fpt_mag)
  then show ?thesis
    using e2 by simp
qed

subsection \<open>Reference-location search\<close>

lemma in_ref_cube_pt_set:
  "in_ref_cube l \<Longrightarrow> \<bar>v\<bar> \<le> 1 \<Longrightarrow> in_ref_cube (pt_set l i v)"
  by (simp add: in_ref_cube_def pt_set_def)

lemma clamp_abs: "\<bar>max (min (v::real) 1) (- 1)\<bar> \<le> 1"
  by (auto simp add: max_def min_def abs_le_iff)

lemma fold_clamp_in_ref_cube:
  "in_ref_cube l \<Longrightarrow> in_ref_cube (fold (\<lambda>i l. pt_set l i (max (min (g i l) 1) (- 1))) idxs l)"
  by (induction idxs arbitrary: l) (simp_all add: in_ref_cube_pt_set clamp_abs)

lemma newton_step_None:
  "newton_step sf prm e pos loc = None \<longleftrightarrow> mat_det (newton_grad sf prm e loc) = 0"
  by (simp add: newton_step_def Let_def)

lemma newton_step_in_ref_cube:
  "in_ref_cube loc \<Longrightarrow> newton_step sf prm e pos loc = Some (loc', nrm') \<Longrightarrow> in_ref_cube loc'"
  unfolding newton_step_def Let_def
  by (auto split: if_splits intro: fold_clamp_in_ref_cube)

lemma pt_get_set:
  "i \<le> 2 \<Longrightarrow> j \<le> 2 \<Longrightarrow> pt_get (pt_set l i v) j = (if i = j then v else pt_get l j)"
  by (simp add: pt_get_def pt_set_def)

lemma fold_clamp_components:
  assumes "\<forall>i\<in>S. \<bar>pt_get l i\<bar> \<le> 1" "\<forall>i\<in>S. i \<le> 2" "\<forall>i\<in>set idxs. i \<le> 2"
  shows "\<forall>i\<in>S \<union> set idxs.
           \<bar>pt_get (fold (\<lambda>i l. pt_set l i (max (min (g i l) 1) (- 1))) idxs l) i\<bar> \<le> 1"
  using assms
proof (induction idxs arbitrary: l S)
  case Nil
  then show ?case by simp
next
  case (Cons k idxs)
  let ?l = "pt_set l k (max (min (g k l) 1) (- 1))"
  have "\<forall>i\<in>insert k S. \<bar>pt_get ?l i\<bar> \<le> 1"
    using Cons.prems by (auto simp add: pt_get_set clamp_abs)
  moreover have "\<forall>i\<in>insert k S. i \<le> 2" "\<forall>i\<in>set idxs. i \<le> 2"
    using Cons.prems by auto
  ultimately have "\<forall>i\<in>insert k S \<union> set idxs.
      \<bar>pt_get (fold (\<lambda>i l. pt_set l i (max (min (g i l) 1) (- 1))) idxs ?l) i\<bar> \<le> 1"
    by (rule Cons.IH)
  then show ?case by simp
qed

lemma newton_step_clamps:
  assumes "nDims e = 2 \<or> nDims e = 3" "i < nDims e" "newton_step sf prm e pos loc = Some (loc', nrm')"
  shows "\<bar>pt_get loc' i\<bar> \<le> 1"
proof -
  have "\<forall>i\<in>{} \<union> set [0..<nDims e].
           \<bar>pt_get (fold (\<lambda>i l. pt_set l i (max (min (g i l) 1) (- 1))) [0..<nDims e] l) i\<bar> \<le> 1" for g l
    using assms(1) by (intro fold_clamp_components) auto
  then have *: "\<bar>pt_get (fold (\<lambda>i l. pt_set l i (max (min (g i l) 1) (- 1))) [0..<nDims e] l) i\<bar> \<le> 1" for g l
    using assms(2) by simp
  show ?thesis
    using assms(3) unfolding newton_step_def Let_def
    by (auto split: if_splits intro: *)
qed

text \<open>
  The loop from a location in the reference cube, with the counter below the limit: the
  iterates stay in the cube, the counter ends at the limit exactly when the result is false,
  and the loop has no result only when the Jacobian is singular at one of its iterates.
\<close>

lemma newton_loop_props:
  assumes "in_ref_cube loc" "it < iterMax"
  shows "(case newton_loop sf prm e pos tol iterMax loc nrm it of
            None \<Rightarrow> (\<exists>l. in_ref_cube l \<and> mat_det (newton_grad sf prm e l) = 0)
          | Some (ok, loc', it') \<Rightarrow>
              in_ref_cube loc' \<and> it' \<le> iterMax \<and> it \<le> it' \<and> (\<not> ok \<longleftrightarrow> it' = iterMax))"
  using assms
proof (induction sf prm e pos tol iterMax loc nrm it rule: newton_loop.induct)
  case (1 sf prm e pos tol iterMax loc nrm it)
  show ?case
  proof (cases "nrm > tol")
    case False
    have "newton_loop sf prm e pos tol iterMax loc nrm it = Some (True, loc, it)"
      by (subst newton_loop.simps) (insert False, auto)
    then show ?thesis
      using "1.prems" by simp
  next
    case True
    note go = conjI[OF True "1.prems"(2)]
    show ?thesis
    proof (cases "newton_step sf prm e pos loc")
      case None
      have "newton_loop sf prm e pos tol iterMax loc nrm it = None"
        by (subst newton_loop.simps) (insert go, simp add: None)
      moreover have "mat_det (newton_grad sf prm e loc) = 0"
        using None by (simp add: newton_step_None)
      ultimately show ?thesis
        using "1.prems"(1) by auto
    next
      case (Some r)
      obtain loc1 nrm1 where r: "r = (loc1, nrm1)"
        by (cases r)
      have st: "newton_step sf prm e pos loc = Some (loc1, nrm1)"
        using Some r by simp
      have cube: "in_ref_cube loc1"
        using newton_step_in_ref_cube[OF "1.prems"(1) st] .
      show ?thesis
      proof (cases "it + 1 = iterMax")
        case last: True
        have "newton_loop sf prm e pos tol iterMax loc nrm it = Some (False, loc1, it + 1)"
          by (subst newton_loop.simps) (insert go last, simp add: st)
        then show ?thesis
          using cube last by simp
      next
        case more: False
        have lt: "it + 1 < iterMax"
          using "1.prems"(2) more by simp
        have "newton_loop sf prm e pos tol iterMax loc nrm it
                = newton_loop sf prm e pos tol iterMax loc1 nrm1 (it + 1)"
          by (subst newton_loop.simps) (insert go more, simp add: st)
        moreover note "1.IH"[OF go st refl refl more cube lt]
        ultimately show ?thesis
          by (auto split: option.splits prod.splits)
      qed
    qed
  qed
qed

lemma sentinel_outside: "in_ref_cube p \<Longrightarrow> p \<noteq> mk_point 99 99 99"
  by (auto simp add: in_ref_cube_def mk_point_def)


text \<open>
  Claim C4, as the code has it. \<open>ele::getRefLocNewton\<close> runs at most 20 Newton iterations and,
  where the Jacobian determinant at the iterate is not zero, clamps every updated component of
  the reference coordinate to \<open>[-1, 1]\<close>. On the bounding-box reject it returns false and hands
  back the sentinel \<open>{99, 99, 99}\<close>. Otherwise, whether it returns true or false, the location
  handed back is the last iterate, with every coordinate in \<open>[-1, 1]\<close>, so it is never the
  sentinel; it returns false exactly when the iteration counter has reached 20. The search has
  no such result only when the determinant is zero at an iterate, and it has one for every
  position when the determinant is zero nowhere in the reference cube.
\<close>

theorem getRefLocNewton_result:
  "(bbox_reject (getBoundingBox prm e) pos \<longrightarrow>
        getRefLocNewton sf prm e pos = Some (False, mk_point 99 99 99))
   \<and> (\<not> bbox_reject (getBoundingBox prm e) pos \<longrightarrow>
        (\<forall>ok loc it. getRefLocNewton_run sf prm e pos = Some (ok, loc, it) \<longrightarrow>
           getRefLocNewton sf prm e pos = Some (ok, loc)
           \<and> it \<le> 20 \<and> in_ref_cube loc \<and> loc \<noteq> mk_point 99 99 99 \<and> (\<not> ok \<longleftrightarrow> it = 20)))
   \<and> (\<forall>loc loc' nrm' i. (nDims e = 2 \<or> nDims e = 3) \<and> i < nDims e
          \<and> newton_step sf prm e pos loc = Some (loc', nrm') \<longrightarrow> \<bar>pt_get loc' i\<bar> \<le> 1)
   \<and> (\<forall>loc. newton_step sf prm e pos loc = None \<longleftrightarrow> mat_det (newton_grad sf prm e loc) = 0)
   \<and> ((\<forall>l. in_ref_cube l \<longrightarrow> mat_det (newton_grad sf prm e l) \<noteq> 0) \<longrightarrow>
        (\<exists>ok loc. getRefLocNewton sf prm e pos = Some (ok, loc)))"
proof -
  have z: "in_ref_cube (mk_point 0 0 0)"
    by (simp add: in_ref_cube_def mk_point_def)
  define tol where "tol = 1 / 10 ^ 12 *
      (let b = the (getBoundingBox prm e); h = min (b ! 3 - b ! 0) (b ! 4 - b ! 1)
       in if nDims e = 3 then min h (b ! 5 - b ! 2) else h)"
  have run: "getRefLocNewton_run sf prm e pos
      = newton_loop sf prm e pos tol 20 (mk_point 0 0 0) 1 0"
    if "\<not> bbox_reject (getBoundingBox prm e) pos"
    using that by (simp add: getRefLocNewton_run_def Let_def tol_def)
  note props = newton_loop_props[OF z, of 0 20 sf prm e pos tol 1]
  have b: "getRefLocNewton sf prm e pos = Some (False, mk_point 99 99 99)"
    if "bbox_reject (getBoundingBox prm e) pos"
    using that by (simp add: getRefLocNewton_def getRefLocNewton_run_def Let_def)
  have c: "getRefLocNewton sf prm e pos = Some (ok, loc)
           \<and> it \<le> 20 \<and> in_ref_cube loc \<and> loc \<noteq> mk_point 99 99 99 \<and> (\<not> ok \<longleftrightarrow> it = 20)"
    if "\<not> bbox_reject (getBoundingBox prm e) pos" "getRefLocNewton_run sf prm e pos = Some (ok, loc, it)"
    for ok loc it
    using props that(2) run[OF that(1)]
    by (auto simp add: getRefLocNewton_def sentinel_outside)
  have d: "\<exists>ok loc. getRefLocNewton sf prm e pos = Some (ok, loc)"
    if "\<forall>l. in_ref_cube l \<longrightarrow> mat_det (newton_grad sf prm e l) \<noteq> 0"
  proof (cases "bbox_reject (getBoundingBox prm e) pos")
    case True
    then show ?thesis using b by blast
  next
    case False
    have "getRefLocNewton_run sf prm e pos \<noteq> None"
      using props that by (auto simp add: run[OF False] split: option.splits)
    then show ?thesis
      by (auto simp add: getRefLocNewton_def)
  qed
  show ?thesis
    using b c d newton_step_clamps newton_step_None by blast
qed

lemmas diamond_defs = newton_step_def newton_grad_def bilinear_def diamond_def blank_ele_def blank_input_def
  mk_point_def pt_get_def pt_set_def upt_small mat_det_def mat_adjoint_def minor_mat_def Let_def

lemma diamond_first_step:
  "newton_step bilinear blank_input diamond (mk_point (9/10) (9/10) 0) (mk_point 0 0 0)
     = Some (mk_point 1 0 0, 81 / 50)"
  by (simp add: diamond_defs)

lemma diamond_stuck_step:
  "newton_step bilinear blank_input diamond (mk_point (9/10) (9/10) 0) (mk_point 1 0 0)
     = Some (mk_point 1 0 0, 8 / 25)"
  by (simp add: diamond_defs)

lemma diamond_det: "mat_det (newton_grad bilinear blank_input diamond l) = 1 / 2"
  by (simp add: diamond_defs field_simps)

lemma diamond_stuck_loop:
  assumes "it < 20" "tol < 8 / 25" "tol < nrm"
  shows "newton_loop bilinear blank_input diamond (mk_point (9/10) (9/10) 0) tol 20 (mk_point 1 0 0) nrm it
           = Some (False, mk_point 1 0 0, 20)"
  using assms
proof (induction "20 - it" arbitrary: it nrm)
  case 0
  then show ?case by simp
next
  case (Suc k)
  show ?case
  proof (cases "it + 1 = 20")
    case True
    then show ?thesis
      using Suc.prems by (subst newton_loop.simps) (simp add: diamond_stuck_step)
  next
    case False
    have "newton_loop bilinear blank_input diamond (mk_point (9/10) (9/10) 0) tol 20 (mk_point 1 0 0) nrm it
        = newton_loop bilinear blank_input diamond (mk_point (9/10) (9/10) 0) tol 20 (mk_point 1 0 0) (8 / 25) (it + 1)"
      using Suc.prems False by (subst newton_loop.simps) (simp add: diamond_stuck_step)
    also have "\<dots> = Some (False, mk_point 1 0 0, 20)"
      using Suc.hyps(2) Suc.prems False by (intro Suc.hyps(1)) auto
    finally show ?thesis .
  qed
qed

lemma diamond_box:
  "getBoundingBox blank_input diamond = Some [- 1, - 1, 0, 1, 1, 0]"
  by (simp add: getBoundingBox_def diamond_def blank_ele_def blank_input_def mk_point_def pt_get_def)

lemma diamond_run:
  "getRefLocNewton_run bilinear blank_input diamond (mk_point (9/10) (9/10) 0)
     = Some (False, mk_point 1 0 0, 20)"
proof -
  have nd: "nDims diamond = 2"
    by (simp add: diamond_def blank_ele_def)
  have "getRefLocNewton_run bilinear blank_input diamond (mk_point (9/10) (9/10) 0)
      = newton_loop bilinear blank_input diamond (mk_point (9/10) (9/10) 0) (2 / 10 ^ 12) 20 (mk_point 0 0 0) 1 0"
    by (simp add: getRefLocNewton_run_def diamond_box bbox_reject_def nd mk_point_def)
  also have "\<dots> = newton_loop bilinear blank_input diamond (mk_point (9/10) (9/10) 0) (2 / 10 ^ 12) 20
                      (mk_point 1 0 0) (81 / 50) 1"
    by (subst newton_loop.simps) (simp add: diamond_first_step)
  also have "\<dots> = Some (False, mk_point 1 0 0, 20)"
    by (rule diamond_stuck_loop) simp_all
  finally show ?thesis .
qed

text \<open>
  On the square with corners on the axes, the point \<open>(0.9, 0.9)\<close> lies in the bounding box but
  outside the element: the iteration stays at the clamped location \<open>(1, 0, 0)\<close>, the search
  returns false after 20 iterations, and the location handed back is \<open>(1, 0, 0)\<close>, not the
  sentinel.
\<close>

theorem getRefLocNewton_sentinel_counterexample:
  "getRefLocNewton bilinear blank_input diamond (mk_point (9/10) (9/10) 0) = Some (False, mk_point 1 0 0)
   \<and> mk_point 1 0 0 \<noteq> mk_point 99 99 99"
  unfolding getRefLocNewton_def diamond_run by (simp add: mk_point_def)

text \<open>
  The theorem on the same element, whose Jacobian determinant is \<open>1/2\<close> everywhere: a point
  outside the bounding box, the point above, and a point inside the element.
\<close>

theorem getRefLocNewton_result_witness:
  "getRefLocNewton bilinear blank_input diamond (mk_point (11/10) (1/5) 0) = Some (False, mk_point 99 99 99)
   \<and> getRefLocNewton bilinear blank_input diamond (mk_point (9/10) (9/10) 0) = Some (False, mk_point 1 0 0)
   \<and> in_ref_cube (mk_point 1 0 0) \<and> mk_point 1 0 0 \<noteq> mk_point 99 99 99
   \<and> \<bar>pt_get (mk_point 1 0 0) 0\<bar> \<le> 1
   \<and> newton_step bilinear blank_input diamond (mk_point (9/10) (9/10) 0) (mk_point 0 0 0) \<noteq> None
   \<and> (\<exists>ok loc. getRefLocNewton bilinear blank_input diamond (mk_point (1/10) (1/5) 0) = Some (ok, loc))"
proof -
  have rej: "bbox_reject (getBoundingBox blank_input diamond) (mk_point (11/10) (1/5) 0)"
    by (simp add: diamond_box bbox_reject_def mk_point_def)
  have ok: "\<not> bbox_reject (getBoundingBox blank_input diamond) (mk_point (9/10) (9/10) 0)"
    by (simp add: diamond_box bbox_reject_def mk_point_def)
  have nd: "(nDims diamond = 2 \<or> nDims diamond = 3) \<and> 0 < nDims diamond
      \<and> newton_step bilinear blank_input diamond (mk_point (9/10) (9/10) 0) (mk_point 0 0 0)
          = Some (mk_point 1 0 0, 81 / 50)"
    by (simp add: diamond_first_step) (simp add: diamond_def blank_ele_def)
  have reg: "\<forall>l. in_ref_cube l \<longrightarrow> mat_det (newton_grad bilinear blank_input diamond l) \<noteq> 0"
    by (simp add: diamond_det)
  note a = getRefLocNewton_result[of blank_input diamond "mk_point (11/10) (1/5) 0" bilinear,
      THEN conjunct1, rule_format, OF rej]
  note b = getRefLocNewton_result[of blank_input diamond "mk_point (9/10) (9/10) 0" bilinear,
      THEN conjunct2, THEN conjunct1, rule_format, OF ok diamond_run]
  note c = getRefLocNewton_result[of blank_input diamond "mk_point (9/10) (9/10) 0" bilinear,
      THEN conjunct2, THEN conjunct2, THEN conjunct1, rule_format, OF nd]
  note d = getRefLocNewton_result[of blank_input diamond "mk_point (9/10) (9/10) 0" bilinear,
      THEN conjunct2, THEN conjunct2, THEN conjunct2, THEN conjunct1, rule_format, of "mk_point 0 0 0"]
  note f = getRefLocNewton_result[of blank_input diamond "mk_point (1/10) (1/5) 0" bilinear,
      THEN conjunct2, THEN conjunct2, THEN conjunct2, THEN conjunct2, THEN mp, OF reg]
  have "newton_step bilinear blank_input diamond (mk_point (9/10) (9/10) 0) (mk_point 0 0 0) \<noteq> None"
    unfolding d by (simp add: diamond_det)
  then show ?thesis
    using a b c f by simp
qed

text \<open>
  On the quadrilateral flattened onto a segment the determinant is zero at the first iterate,
  and the search for a point of the segment has no result.
\<close>

lemma flat_quad_singular:
  "newton_step bilinear blank_input flat_quad pos (mk_point 0 0 0) = None"
  by (simp add: newton_step_def newton_grad_def bilinear_def flat_quad_def quad_p0_def blank_ele_def
      blank_input_def mk_point_def pt_get_def upt_small mat_det_def minor_mat_def Let_def)

lemma flat_quad_search:
  "getRefLocNewton bilinear blank_input flat_quad (mk_point (1/2) 0 0) = None"
proof -
  have box: "getBoundingBox blank_input flat_quad = Some [0, 0, 0, 1, 0, 0]"
    by (simp add: getBoundingBox_def flat_quad_def quad_p0_def blank_ele_def blank_input_def
        mk_point_def pt_get_def)
  have nd: "nDims flat_quad = 2"
    by (simp add: flat_quad_def quad_p0_def blank_ele_def)
  have "getRefLocNewton_run bilinear blank_input flat_quad (mk_point (1/2) 0 0)
      = newton_loop bilinear blank_input flat_quad (mk_point (1/2) 0 0) 0 20 (mk_point 0 0 0) 1 0"
    by (simp add: getRefLocNewton_run_def box bbox_reject_def nd mk_point_def)
  also have "\<dots> = None"
    by (subst newton_loop.simps) (simp add: flat_quad_singular)
  finally show ?thesis
    by (simp add: getRefLocNewton_def)
qed

subsection \<open>Positivity enforcement\<close>


lemma scan_neg_props:
  "(case scan_neg vs (n0, m0) of (n, m) \<Rightarrow>
      (n \<longleftrightarrow> n0 \<or> (\<exists>v\<in>set vs. v < 0)) \<and> m \<le> m0 \<and> (\<forall>v\<in>set vs. v < 0 \<longrightarrow> m \<le> v)
      \<and> (m = m0 \<or> (m \<in> set vs \<and> m < 0)))"
proof (induction vs arbitrary: n0 m0)
  case Nil
  show ?case by (simp add: scan_neg_def)
next
  case (Cons v vs)
  show ?case
  proof (cases "v < 0")
    case True
    have step: "scan_neg (v # vs) (n0, m0) = scan_neg vs (True, min m0 v)"
      using True by (simp add: scan_neg_def)
    show ?thesis
      unfolding step using Cons.IH[where ?n0.0 = True and ?m0.0 = "min m0 v"] True
      by (auto simp add: min_def split: prod.splits if_splits)
  next
    case False
    have step: "scan_neg (v # vs) (n0, m0) = scan_neg vs (n0, m0)"
      using False by (simp add: scan_neg_def)
    show ?thesis
      unfolding step using Cons.IH[where ?n0.0 = n0 and ?m0.0 = m0] False
      by (auto split: prod.splits)
  qed
qed

lemma neg_scan_append: "neg_scan e = scan_neg (spt_densities e @ fpt_densities e) (False, 10 ^ 15)"
  by (simp add: neg_scan_def scan_neg_def)

lemma neg_scan_fst:
  "fst (neg_scan e) \<longleftrightarrow> (\<exists>v\<in>set (spt_densities e @ fpt_densities e). v < 0)"
  using scan_neg_props[where vs = "spt_densities e @ fpt_densities e" and ?n0.0 = False and ?m0.0 = "10 ^ 15"]
  by (auto simp add: neg_scan_append split: prod.splits)

lemma neg_scan_snd:
  assumes "\<exists>v\<in>set (spt_densities e @ fpt_densities e). v < 0"
  shows "snd (neg_scan e) = rho_min e"
proof -
  let ?vs = "spt_densities e @ fpt_densities e"
  obtain n m where nm: "scan_neg ?vs (False, 10 ^ 15) = (n, m)"
    by (cases "scan_neg ?vs (False, 10 ^ 15)")
  from scan_neg_props[where vs = ?vs and ?n0.0 = False and ?m0.0 = "10 ^ 15"] nm
  have le: "\<forall>v\<in>set ?vs. v < 0 \<longrightarrow> m \<le> v" and alt: "m = 10 ^ 15 \<or> (m \<in> set ?vs \<and> m < 0)"
    by simp_all
  from assms obtain v where v: "v \<in> set ?vs" "v < 0"
    by blast
  then have "m \<le> v"
    using le by blast
  then have mem: "m \<in> set ?vs" "m < 0"
    using alt v(2) by auto
  have "Min (set ?vs) = m"
  proof (rule Min_eqI)
    show "finite (set ?vs)" by simp
    show "m \<in> set ?vs" by (rule mem)
    show "m \<le> y" if "y \<in> set ?vs" for y
      using le that mem(2) by (cases "y < 0") auto
  qed
  then show ?thesis
    using nm by (simp add: neg_scan_append rho_min_def)
qed

lemma length_col_loop [simp]: "length (col_loop nR c f M) = length M"
  by (simp add: col_loop_vec_loop)

lemma nth_col_loop:
  "r < length M \<Longrightarrow> col_loop nR c f M ! r = (if r < nR then (M ! r)[c := f r (M ! r ! c)] else M ! r)"
  by (simp add: col_loop_vec_loop nth_vec_loop)

lemma squeeze_blend:
  fixes a :: real
  assumes "tol \<le> a" "m < 0" "0 < tol" "m \<le> old"
  defines "eps \<equiv> \<bar>a - tol\<bar> / (a - m)"
  shows "eps = (a - tol) / (a - m)" "tol \<le> (1 - eps) * a + eps * old"
    "old = m \<Longrightarrow> (1 - eps) * a + eps * old = tol"
proof -
  have am: "0 < a - m"
    using assms by linarith
  show e: "eps = (a - tol) / (a - m)"
    using assms(1) by (simp add: eps_def)
  have e0: "0 \<le> eps"
    using am assms(1) by (simp add: e)
  have full: "eps * (a - m) = a - tol"
    using am by (simp add: e)
  have "eps * (a - old) \<le> eps * (a - m)"
    using e0 assms(4) by (intro mult_left_mono) auto
  then have "eps * (a - old) \<le> a - tol"
    by (simp add: full)
  moreover have "(1 - eps) * a + eps * old = a - eps * (a - old)"
    by (simp add: algebra_simps)
  ultimately show "tol \<le> (1 - eps) * a + eps * old"
    by linarith
  show "(1 - eps) * a + eps * old = tol" if "old = m"
  proof -
    have "(1 - eps) * a + eps * m = a - eps * (a - m)"
      by (simp add: algebra_simps)
    then show ?thesis
      using full that by simp
  qed
qed

lemma squeeze_density_rows:
  assumes "fst (neg_scan e)"
  shows "spt < nSpts e \<Longrightarrow> spt < length (U_spts e) \<Longrightarrow>
           U_spts (squeeze_density e) ! spt
             = (U_spts e ! spt)[0 := (1 - density_eps e) * Uavg e ! 0 + density_eps e * (U_spts e ! spt ! 0)]"
    and "fpt < nFpts e \<Longrightarrow> fpt < length (U_fpts e) \<Longrightarrow>
           U_fpts (squeeze_density e) ! fpt
             = (U_fpts e ! fpt)[0 := (1 - density_eps e) * Uavg e ! 0 + density_eps e * (U_fpts e ! fpt ! 0)]"
  using assms by (simp_all add: squeeze_density_def Let_def nth_col_loop)

lemma density_squeeze_aux:
  assumes "sol_sized e" "\<exists>v\<in>set (spt_densities e @ fpt_densities e). v < 0" "1 / 10 ^ 10 \<le> Uavg e ! 0"
  shows "fst (neg_scan e)
       \<and> density_eps e = (Uavg e ! 0 - 1 / 10 ^ 10) / (Uavg e ! 0 - rho_min e)
       \<and> (\<forall>spt<nSpts e.
             U_spts (squeeze_density e) ! spt ! 0
               = (1 - density_eps e) * Uavg e ! 0 + density_eps e * (U_spts e ! spt ! 0)
           \<and> 1 / 10 ^ 10 \<le> U_spts (squeeze_density e) ! spt ! 0
           \<and> (U_spts e ! spt ! 0 = rho_min e \<longrightarrow> U_spts (squeeze_density e) ! spt ! 0 = 1 / 10 ^ 10)
           \<and> (\<forall>i. 0 < i \<longrightarrow> U_spts (squeeze_density e) ! spt ! i = U_spts e ! spt ! i))
       \<and> (\<forall>fpt<nFpts e.
             U_fpts (squeeze_density e) ! fpt ! 0
               = (1 - density_eps e) * Uavg e ! 0 + density_eps e * (U_fpts e ! fpt ! 0)
           \<and> 1 / 10 ^ 10 \<le> U_fpts (squeeze_density e) ! fpt ! 0
           \<and> (U_fpts e ! fpt ! 0 = rho_min e \<longrightarrow> U_fpts (squeeze_density e) ! fpt ! 0 = 1 / 10 ^ 10)
           \<and> (\<forall>i. 0 < i \<longrightarrow> U_fpts (squeeze_density e) ! fpt ! i = U_fpts e ! fpt ! i))"
proof -
  let ?vs = "spt_densities e @ fpt_densities e"
  have neg: "fst (neg_scan e)"
    using assms(2) by (simp add: neg_scan_fst)
  have m: "snd (neg_scan e) = rho_min e"
    by (rule neg_scan_snd[OF assms(2)])
  have fin: "finite (set ?vs)" "set ?vs \<noteq> {}"
    using assms(2) by auto
  have mneg: "rho_min e < 0"
    using assms(2) fin unfolding rho_min_def by (meson Min_le le_less_trans)
  have lower: "rho_min e \<le> v" if "v \<in> set ?vs" for v
    using that fin unfolding rho_min_def by simp
  have tol: "(0::real) < 1 / 10 ^ 10"
    by simp
  have eps: "density_eps e = \<bar>Uavg e ! 0 - 1 / 10 ^ 10\<bar> / (Uavg e ! 0 - rho_min e)"
    by (simp add: density_eps_def m)
  note blend = squeeze_blend[OF assms(3) mneg tol, folded eps]
  have len: "length (U_spts e) = nSpts e" "length (U_fpts e) = nFpts e"
    and rows: "\<And>spt. spt < nSpts e \<Longrightarrow> 0 < length (U_spts e ! spt)"
      "\<And>fpt. fpt < nFpts e \<Longrightarrow> 0 < length (U_fpts e ! fpt)"
    using assms(1) by (auto simp add: sol_sized_def list_all_length)
  have spt: "U_spts (squeeze_density e) ! spt ! 0
               = (1 - density_eps e) * Uavg e ! 0 + density_eps e * (U_spts e ! spt ! 0)
           \<and> 1 / 10 ^ 10 \<le> U_spts (squeeze_density e) ! spt ! 0
           \<and> (U_spts e ! spt ! 0 = rho_min e \<longrightarrow> U_spts (squeeze_density e) ! spt ! 0 = 1 / 10 ^ 10)
           \<and> (\<forall>i. 0 < i \<longrightarrow> U_spts (squeeze_density e) ! spt ! i = U_spts e ! spt ! i)"
    if "spt < nSpts e" for spt
  proof -
    have "U_spts e ! spt ! 0 \<in> set ?vs"
      using that by (simp add: spt_densities_def)
    then have lo: "rho_min e \<le> U_spts e ! spt ! 0"
      by (rule lower)
    show ?thesis
      using squeeze_density_rows(1)[OF neg that] that len rows(1)[OF that] blend(2)[OF lo] blend(3)
      by simp
  qed
  have fpt: "U_fpts (squeeze_density e) ! fpt ! 0
               = (1 - density_eps e) * Uavg e ! 0 + density_eps e * (U_fpts e ! fpt ! 0)
           \<and> 1 / 10 ^ 10 \<le> U_fpts (squeeze_density e) ! fpt ! 0
           \<and> (U_fpts e ! fpt ! 0 = rho_min e \<longrightarrow> U_fpts (squeeze_density e) ! fpt ! 0 = 1 / 10 ^ 10)
           \<and> (\<forall>i. 0 < i \<longrightarrow> U_fpts (squeeze_density e) ! fpt ! i = U_fpts e ! fpt ! i)"
    if "fpt < nFpts e" for fpt
  proof -
    have "U_fpts e ! fpt ! 0 \<in> set ?vs"
      using that by (simp add: fpt_densities_def)
    then have lo: "rho_min e \<le> U_fpts e ! fpt ! 0"
      by (rule lower)
    show ?thesis
      using squeeze_density_rows(2)[OF neg that] that len rows(2)[OF that] blend(2)[OF lo] blend(3)
      by simp
  qed
  show ?thesis
    using neg blend(1) spt fpt by blast
qed

text \<open>
  Claim C3, as the code has it. When the density squeeze of \<open>ele::checkEntropy\<close> fires (some
  solution-point or flux-point density is negative) on an element whose mean density
  \<open>Uavg[0]\<close> is at least the tolerance \<open>tol = 1e-10\<close>, the blend factor is
  \<open>eps = (Uavg[0] - tol) / (Uavg[0] - rho_min)\<close> with \<open>rho_min\<close> the minimum density over all
  solution and flux points; the density of every point is blended toward \<open>Uavg[0]\<close> (the other
  fields are left as they are), every density ends at or above \<open>tol\<close>, and the density at the
  worst point equals \<open>tol\<close>.
\<close>

theorem density_squeeze:
  assumes "sol_sized e" "\<exists>v\<in>set (spt_densities e @ fpt_densities e). v < 0" "1 / 10 ^ 10 \<le> Uavg e ! 0"
  shows "fst (neg_scan e)
       \<and> density_eps e = (Uavg e ! 0 - 1 / 10 ^ 10) / (Uavg e ! 0 - rho_min e)
       \<and> (\<forall>spt<nSpts e.
             U_spts (squeeze_density e) ! spt ! 0
               = (1 - density_eps e) * Uavg e ! 0 + density_eps e * (U_spts e ! spt ! 0)
           \<and> 1 / 10 ^ 10 \<le> U_spts (squeeze_density e) ! spt ! 0
           \<and> (U_spts e ! spt ! 0 = rho_min e \<longrightarrow> U_spts (squeeze_density e) ! spt ! 0 = 1 / 10 ^ 10)
           \<and> (\<forall>i. 0 < i \<longrightarrow> U_spts (squeeze_density e) ! spt ! i = U_spts e ! spt ! i))
       \<and> (\<forall>fpt<nFpts e.
             U_fpts (squeeze_density e) ! fpt ! 0
               = (1 - density_eps e) * Uavg e ! 0 + density_eps e * (U_fpts e ! fpt ! 0)
           \<and> 1 / 10 ^ 10 \<le> U_fpts (squeeze_density e) ! fpt ! 0
           \<and> (U_fpts e ! fpt ! 0 = rho_min e \<longrightarrow> U_fpts (squeeze_density e) ! fpt ! 0 = 1 / 10 ^ 10)
           \<and> (\<forall>i. 0 < i \<longrightarrow> U_fpts (squeeze_density e) ! fpt ! i = U_fpts e ! fpt ! i))"
  using density_squeeze_aux[OF assms] .

lemmas cell_defs = cell_D_def cell_tiny_def one_spt_def blank_ele_def spt_densities_def fpt_densities_def
  upt_small

lemma cell_scan:
  "neg_scan cell_D = (True, - 1 / 100)" "neg_scan cell_tiny = (True, - 1)"
  by (simp_all add: neg_scan_def scan_neg_def cell_defs)

text \<open>
  The theorem at a single point with \<open>rho = -0.01\<close> on a cell with \<open>Uavg[0] = 1\<close>: the
  factor is \<open>(1 - 1e-10) / (1 + 0.01)\<close> and the point is left at \<open>rho = 1e-10\<close>.
\<close>

theorem density_squeeze_witness:
  "density_eps cell_D = (1 - 1 / 10 ^ 10) / (1 + 1 / 100)
   \<and> U_spts (squeeze_density cell_D) ! 0 ! 0 = 1 / 10 ^ 10
   \<and> U_spts (squeeze_density cell_D) ! 0 ! 3 = 1"
proof -
  have sz: "sol_sized cell_D"
    by (simp add: sol_sized_def cell_defs)
  have neg: "\<exists>v\<in>set (spt_densities cell_D @ fpt_densities cell_D). v < 0"
    by (simp add: cell_defs)
  have avg: "1 / 10 ^ 10 \<le> Uavg cell_D ! 0"
    by (simp add: cell_defs)
  have rm: "rho_min cell_D = - 1 / 100" "nSpts cell_D = 1" "Uavg cell_D ! 0 = 1"
    "U_spts cell_D ! 0 ! 0 = - 1 / 100" "U_spts cell_D ! 0 ! 3 = 1"
    by (simp_all add: rho_min_def cell_defs)
  note T = density_squeeze[OF sz neg avg]
  note A = T[THEN conjunct2, THEN conjunct1]
  note B = T[THEN conjunct2, THEN conjunct2, THEN conjunct1, rule_format, of 0]
  have "density_eps cell_D = (1 - 1 / 10 ^ 10) / (1 + 1 / 100)"
    using A by (simp add: rm)
  moreover have "U_spts (squeeze_density cell_D) ! 0 ! 0 = 1 / 10 ^ 10"
    using B by (simp add: rm)
  moreover have "U_spts (squeeze_density cell_D) ! 0 ! 3 = 1"
    using B[THEN conjunct2, THEN conjunct2, THEN conjunct2, rule_format, of 3] by (simp add: rm)
  ultimately show ?thesis by simp
qed

text \<open>
  With a positive mean density below the tolerance (\<open>Uavg[0] = 5e-11\<close>, one point with
  \<open>rho = -1\<close>) the factor is not \<open>(Uavg[0] - tol) / (Uavg[0] - rho_min)\<close> and the worst point
  is left at \<open>0\<close>, not at \<open>tol\<close>; and in the example of the claim the factor is not
  \<open>1 / (1 + 0.01)\<close>.
\<close>

theorem density_squeeze_counterexample:
  "density_eps cell_tiny \<noteq> (Uavg cell_tiny ! 0 - 1 / 10 ^ 10) / (Uavg cell_tiny ! 0 - rho_min cell_tiny)
   \<and> U_spts cell_tiny ! 0 ! 0 = rho_min cell_tiny
   \<and> U_spts (squeeze_density cell_tiny) ! 0 ! 0 \<noteq> 1 / 10 ^ 10
   \<and> density_eps cell_D \<noteq> 1 / (1 + 1 / 100)"
proof -
  have rm: "rho_min cell_tiny = - 1"
    by (simp add: rho_min_def cell_defs)
  have e1: "density_eps cell_tiny = (1 / (2 * 10 ^ 10)) / (1 / (2 * 10 ^ 10) + 1)"
    by (simp add: density_eps_def cell_scan) (simp add: cell_defs)
  have e2: "density_eps cell_D = (1 - 1 / 10 ^ 10) / (1 + 1 / 100)"
    by (simp add: density_eps_def cell_scan) (simp add: cell_defs)
  have u: "U_spts (squeeze_density cell_tiny) ! 0 ! 0 = 0"
    by (simp add: squeeze_density_def cell_scan Let_def e1) 
       (simp add: cell_defs col_loop_def mat_set_def field_simps)
  show ?thesis
    unfolding e1 e2 u rm by (simp add: cell_defs)
qed

text \<open>
  \<open>ele::checkDensity\<close> stops each scan at the first negative density: with the densities
  \<open>-0.01\<close> and \<open>-0.5\<close> on a cell with \<open>Uavg[0] = 1\<close> it squeezes with respect to \<open>-0.01\<close>
  and leaves the second point negative.
\<close>

lemma checkDensity_first_negative:
  "fst (checkDensity cell_two) \<and> U_spts (snd (checkDensity cell_two)) ! 1 ! 0 < 0"
  by (simp add: checkDensity_def scan_first_neg_def cell_two_def blank_ele_def spt_densities_def
      fpt_densities_def upt_small Let_def col_loop_def mat_set_def)

subsection \<open>Idempotence of squeezing\<close>



lemma exp_convex2:
  fixes u :: real
  assumes "0 \<le> a" "a \<le> 1"
  shows "exp (a * u) \<le> a * exp u + (1 - a)"
proof -
  have t1: "exp (a * u) * (1 + (u - a * u)) \<le> exp u"
  proof -
    have "1 + (u - a * u) \<le> exp (u - a * u)" by (rule exp_ge_add_one_self)
    then have "exp (a * u) * (1 + (u - a * u)) \<le> exp (a * u) * exp (u - a * u)"
      by (intro mult_left_mono) auto
    also have "\<dots> = exp u" by (simp add: exp_add[symmetric])
    finally show ?thesis .
  qed
  have t2: "exp (a * u) * (1 + (0 - a * u)) \<le> 1"
  proof -
    have "1 + (0 - a * u) \<le> exp (0 - a * u)" by (rule exp_ge_add_one_self)
    then have "exp (a * u) * (1 + (0 - a * u)) \<le> exp (a * u) * exp (0 - a * u)"
      by (intro mult_left_mono) auto
    also have "\<dots> = 1" by (simp add: exp_add[symmetric])
    finally show ?thesis .
  qed
  have "a * (exp (a * u) * (1 + (u - a * u))) + (1 - a) * (exp (a * u) * (1 + (0 - a * u)))
        \<le> a * exp u + (1 - a) * 1"
    using t1 t2 assms by (intro add_mono mult_left_mono) auto
  moreover have "a * (exp (a * u) * (1 + (u - a * u))) + (1 - a) * (exp (a * u) * (1 + (0 - a * u)))
        = exp (a * u)"
    by (simp add: algebra_simps)
  ultimately show ?thesis by simp
qed

lemma powr_concave_Bernoulli:
  fixes y :: real
  assumes "0 < y" "0 \<le> a" "a \<le> 1"
  shows "y powr a \<le> 1 + a * (y - 1)"
proof -
  have "y powr a = exp (a * ln y)"
    using assms(1) by (simp add: powr_def)
  also have "\<dots> \<le> a * exp (ln y) + (1 - a)"
    by (rule exp_convex2[OF assms(2,3)])
  also have "\<dots> = 1 + a * (y - 1)"
    using assms(1) by (simp add: algebra_simps)
  finally show ?thesis .
qed

lemma powr_Bernoulli:
  fixes t :: real
  assumes "0 < t" "1 \<le> g"
  shows "1 + g * (t - 1) \<le> t powr g"
proof (cases "0 < 1 + g * (t - 1)")
  case False
  then have "1 + g * (t - 1) \<le> 0" by simp
  also have "0 \<le> t powr g" by simp
  finally show ?thesis .
next
  case True
  let ?y = "1 + g * (t - 1)"
  have g: "0 < g" using assms(2) by simp
  have "?y powr (1 / g) \<le> 1 + (1 / g) * (?y - 1)"
    using True g assms(2) by (intro powr_concave_Bernoulli) (auto simp add: field_simps)
  also have "\<dots> = t"
    using g by (simp add: field_simps)
  finally have le: "?y powr (1 / g) \<le> t" .
  have "?y = (?y powr (1 / g)) powr g"
    using True g by (simp add: powr_powr)
  also have "\<dots> \<le> t powr g"
    using le g by (intro powr_mono2) auto
  finally show ?thesis .
qed

lemma powr_convex:
  fixes r s :: real
  assumes "0 < r" "0 < s" "0 \<le> th" "th \<le> 1" "1 \<le> g"
  shows "(th * r + (1 - th) * s) powr g \<le> th * r powr g + (1 - th) * s powr g"
proof -
  define c where "c = th * r + (1 - th) * s"
  have c: "0 < c"
  proof (cases "th = 0")
    case True then show ?thesis using assms by (simp add: c_def)
  next
    case False
    then have "0 < th * r" using assms by simp
    moreover have "0 \<le> (1 - th) * s" using assms by simp
    ultimately show ?thesis unfolding c_def by linarith
  qed
  have tang: "c powr g * (1 + g * (x / c - 1)) \<le> x powr g" if "0 < x" for x
  proof -
    have "1 + g * (x / c - 1) \<le> (x / c) powr g"
      using that c assms(5) by (intro powr_Bernoulli) auto
    then have "c powr g * (1 + g * (x / c - 1)) \<le> c powr g * (x / c) powr g"
      by (intro mult_left_mono) auto
    also have "\<dots> = x powr g"
      using that c by (simp add: powr_mult[symmetric])
    finally show ?thesis .
  qed
  have "th * (c powr g * (1 + g * (r / c - 1))) + (1 - th) * (c powr g * (1 + g * (s / c - 1)))
        \<le> th * r powr g + (1 - th) * s powr g"
    using tang[OF assms(1)] tang[OF assms(2)] assms(3,4) by (intro add_mono mult_left_mono) auto
  moreover have "th * (c powr g * (1 + g * (r / c - 1))) + (1 - th) * (c powr g * (1 + g * (s / c - 1)))
        = c powr g * (1 + g * ((th * (r / c) + (1 - th) * (s / c)) - 1))"
    by (simp add: algebra_simps)
  moreover have "th * (r / c) + (1 - th) * (s / c) = 1"
  proof -
    have "th * (r / c) + (1 - th) * (s / c) = (th * r + (1 - th) * s) / c"
      by (simp add: add_divide_distrib)
    also have "\<dots> = 1"
      using c by (simp add: c_def)
    finally show ?thesis .
  qed
  ultimately show ?thesis
    by (simp add: c_def)
qed

lemma perspective_convex:
  fixes a b r s :: real
  assumes "0 < r" "0 < s" "0 \<le> th" "th \<le> 1"
  shows "(th * a + (1 - th) * b)\<^sup>2 / (th * r + (1 - th) * s) \<le> th * (a\<^sup>2 / r) + (1 - th) * (b\<^sup>2 / s)"
proof -
  define c where "c = th * r + (1 - th) * s"
  have c: "0 < c"
  proof (cases "th = 0")
    case True then show ?thesis using assms by (simp add: c_def)
  next
    case False
    then have "0 < th * r" using assms by simp
    moreover have "0 \<le> (1 - th) * s" using assms by simp
    ultimately show ?thesis unfolding c_def by linarith
  qed
  have "th * (a\<^sup>2 / r) + (1 - th) * (b\<^sup>2 / s) - (th * a + (1 - th) * b)\<^sup>2 / c
        = th * (1 - th) * (a * s - b * r)\<^sup>2 / (r * s * c)"
    using assms(1,2) c unfolding c_def
    by (simp add: field_simps power2_eq_square) (simp add: algebra_simps)?
  moreover have "0 \<le> th * (1 - th) * (a * s - b * r)\<^sup>2 / (r * s * c)"
    using assms c by (intro divide_nonneg_pos mult_nonneg_nonneg mult_pos_pos) auto
  ultimately show ?thesis
    unfolding c_def by linarith
qed

lemma primitives_NS:
  assumes "equation prm = NAVIER_STOKES C" "NAVIER_STOKES C \<noteq> ADVECTION_DIFFUSION C"
    and "nDims e = 2 \<or> nDims e = 3" "nFields e = nDims e + 2" "U ! 0 \<noteq> 0"
  shows "primitives C prm e U ! 0 = U ! 0"
    and "tau_of C prm e U = tau_fn prm (nDims e) U"
proof -
  have ad: "equation prm \<noteq> ADVECTION_DIFFUSION C"
    using assms(1,2) by simp
  show "primitives C prm e U ! 0 = U ! 0"
    using assms(1,3,4) ad by (auto simp add: primitives_def Let_def)
  have sq: "U ! 0 * (x / U ! 0 * (x / U ! 0)) = x\<^sup>2 / U ! 0" for x
    using assms(5) by (simp add: power2_eq_square)
  show "tau_of C prm e U = tau_fn prm (nDims e) U"
    using assms(3)
  proof
    assume nd: "nDims e = 2"
    then have nf: "nFields e = 4" using assms(4) by simp
    show ?thesis
      using assms(1) ad assms(5)
      by (simp add: tau_of_def tau_fn_def primitives_def Let_def nd nf eval_nat_numeral
          lessThan_Suc power2_eq_square) (simp add: field_simps)
  next
    assume nd: "nDims e = 3"
    then have nf: "nFields e = 5" using assms(4) by simp
    show ?thesis
      using assms(1) ad assms(5)
      by (simp add: tau_of_def tau_fn_def primitives_def Let_def nd nf eval_nat_numeral
          lessThan_Suc power2_eq_square) (simp add: field_simps)
  qed
qed

lemma tau_fn_concave:
  assumes "0 < A ! 0" "0 < B ! 0" "0 \<le> th" "th \<le> 1" "1 \<le> gamma prm" "0 \<le> exps0 prm"
    and "\<forall>i\<le>nD + 1. N ! i = th * A ! i + (1 - th) * B ! i"
  shows "th * tau_fn prm nD A + (1 - th) * tau_fn prm nD B \<le> tau_fn prm nD N"
proof -
  have N0: "N ! 0 = th * A ! 0 + (1 - th) * B ! 0" and NE: "N ! (nD + 1) = th * A ! (nD + 1) + (1 - th) * B ! (nD + 1)"
    and Nk: "\<And>k. k < nD \<Longrightarrow> N ! (k + 1) = th * A ! (k + 1) + (1 - th) * B ! (k + 1)"
    using assms(7) by simp_all
  have kin: "(\<Sum>k<nD. (N ! (k + 1))\<^sup>2 / N ! 0)
        \<le> (\<Sum>k<nD. th * ((A ! (k + 1))\<^sup>2 / A ! 0) + (1 - th) * ((B ! (k + 1))\<^sup>2 / B ! 0))"
  proof (rule sum_mono)
    fix k assume "k \<in> {..<nD}"
    then have "k < nD" by simp
    then have Nk': "N ! (k + 1) = th * A ! (k + 1) + (1 - th) * B ! (k + 1)"
      by (rule Nk)
    show "(N ! (k + 1))\<^sup>2 / N ! 0 \<le> th * ((A ! (k + 1))\<^sup>2 / A ! 0) + (1 - th) * ((B ! (k + 1))\<^sup>2 / B ! 0)"
      unfolding N0 Nk' by (intro perspective_convex assms(1,2,3,4))
  qed
  have kin': "(\<Sum>k<nD. (N ! (k + 1))\<^sup>2 / N ! 0)
        \<le> th * (\<Sum>k<nD. (A ! (k + 1))\<^sup>2 / A ! 0) + (1 - th) * (\<Sum>k<nD. (B ! (k + 1))\<^sup>2 / B ! 0)"
    using kin by (simp add: sum.distrib sum_distrib_left)
  have pw: "(N ! 0) powr gamma prm \<le> th * (A ! 0) powr gamma prm + (1 - th) * (B ! 0) powr gamma prm"
    unfolding N0 by (intro powr_convex assms(1,2,3,4,5))
  define SA where "SA = (\<Sum>k<nD. (A ! (k + 1))\<^sup>2 / A ! 0)"
  define SB where "SB = (\<Sum>k<nD. (B ! (k + 1))\<^sup>2 / B ! 0)"
  define SN where "SN = (\<Sum>k<nD. (N ! (k + 1))\<^sup>2 / N ! 0)"
  define g1 where "g1 = gamma prm - 1"
  have g1: "0 \<le> g1" using assms(5) by (simp add: g1_def)
  have a: "g1 * (1 / 2 * SN) \<le> g1 * (1 / 2 * (th * SA + (1 - th) * SB))"
    using kin' g1 unfolding SA_def SB_def SN_def by (intro mult_left_mono) auto
  have b: "exps0 prm * (N ! 0) powr gamma prm
        \<le> exps0 prm * (th * (A ! 0) powr gamma prm + (1 - th) * (B ! 0) powr gamma prm)"
    using pw assms(6) by (intro mult_left_mono) auto
  have "th * tau_fn prm nD A + (1 - th) * tau_fn prm nD B
      = g1 * (N ! (nD + 1)) - g1 * (1 / 2 * (th * SA + (1 - th) * SB))
        - exps0 prm * (th * (A ! 0) powr gamma prm + (1 - th) * (B ! 0) powr gamma prm)"
    unfolding tau_fn_def NE SA_def[symmetric] SB_def[symmetric] g1_def[symmetric]
    by (simp add: field_simps)
  also have "\<dots> \<le> g1 * (N ! (nD + 1)) - g1 * (1 / 2 * SN) - exps0 prm * (N ! 0) powr gamma prm"
    using a b by linarith
  also have "\<dots> = tau_fn prm nD N"
    unfolding tau_fn_def SN_def[symmetric] g1_def[symmetric] by (simp add: field_simps)
  finally show ?thesis .
qed


lemma fold_min_props:
  fixes m0 :: real
  shows "fold (\<lambda>x mt. min mt (f x)) xs m0 \<le> m0
       \<and> (\<forall>x\<in>set xs. fold (\<lambda>x mt. min mt (f x)) xs m0 \<le> f x)
       \<and> (fold (\<lambda>x mt. min mt (f x)) xs m0 = m0 \<or> (\<exists>x\<in>set xs. fold (\<lambda>x mt. min mt (f x)) xs m0 = f x))"
proof (induction xs arbitrary: m0)
  case Nil
  show ?case by simp
next
  case (Cons x xs)
  show ?case
    using Cons.IH[of "min m0 (f x)"] by (auto simp add: min_def split: if_splits)
qed

lemma minTau_le:
  "spt < nSpts e \<Longrightarrow> minTau C prm e \<le> tau_of C prm e (U_spts e ! spt)"
  "fpt < nFpts e \<Longrightarrow> minTau C prm e \<le> tau_of C prm e (U_fpts e ! fpt)"
proof -
  let ?f = "\<lambda>spt. tau_of C prm e (U_spts e ! spt)"
  let ?g = "\<lambda>fpt. tau_of C prm e (U_fpts e ! fpt)"
  let ?m1 = "fold (\<lambda>spt mt. min mt (?f spt)) [0..<nSpts e] (10 ^ 15)"
  have m: "minTau C prm e = fold (\<lambda>fpt mt. min mt (?g fpt)) [0..<nFpts e] ?m1"
    by (simp add: minTau_def)
  note a = fold_min_props[of ?f "[0..<nSpts e]" "10 ^ 15"]
  note b = fold_min_props[of ?g "[0..<nFpts e]" ?m1]
  show "minTau C prm e \<le> ?f spt" if "spt < nSpts e"
  proof -
    have "minTau C prm e \<le> ?m1" using b by (simp add: m)
    also have "?m1 \<le> ?f spt" using a that by simp
    finally show ?thesis .
  qed
  show "minTau C prm e \<le> ?g fpt" if "fpt < nFpts e"
    using b that by (simp add: m)
qed

lemma minTau_nonneg:
  assumes "\<forall>spt<nSpts e. 0 \<le> tau_of C prm e (U_spts e ! spt)"
    and "\<forall>fpt<nFpts e. 0 \<le> tau_of C prm e (U_fpts e ! fpt)"
  shows "0 \<le> minTau C prm e"
proof -
  let ?f = "\<lambda>spt. tau_of C prm e (U_spts e ! spt)"
  let ?g = "\<lambda>fpt. tau_of C prm e (U_fpts e ! fpt)"
  let ?m1 = "fold (\<lambda>spt mt. min mt (?f spt)) [0..<nSpts e] (10 ^ 15)"
  have m: "minTau C prm e = fold (\<lambda>fpt mt. min mt (?g fpt)) [0..<nFpts e] ?m1"
    by (simp add: minTau_def)
  have "?m1 = 10 ^ 15 \<or> (\<exists>x\<in>set [0..<nSpts e]. ?m1 = ?f x)"
    using fold_min_props[of ?f "[0..<nSpts e]" "10 ^ 15"] by blast
  then have m1: "0 \<le> ?m1"
    using assms(1) by auto
  have "minTau C prm e = ?m1 \<or> (\<exists>x\<in>set [0..<nFpts e]. minTau C prm e = ?g x)"
    unfolding m using fold_min_props[of ?g "[0..<nFpts e]" ?m1] by blast
  then show ?thesis
    using m1 assms(2) by auto
qed

lemma settled_fixed:
  assumes "settled C prm e"
  shows "checkEntropy C prm e = e"
proof -
  have "\<not> (\<exists>v\<in>set (spt_densities e @ fpt_densities e). v < 0)"
    using assms by (auto simp add: settled_def spt_densities_def fpt_densities_def)
  then have d: "squeeze_density e = e"
    by (simp add: squeeze_density_def neg_scan_fst)
  have "0 \<le> minTau C prm e"
    using assms by (intro minTau_nonneg) (auto simp add: settled_def)
  then have "squeeze_entropy C prm e = e"
    by (simp add: squeeze_entropy_def)
  then show ?thesis
    by (simp add: checkEntropy_def d)
qed

lemma tau_of_cong:
  "nDims e' = nDims e \<Longrightarrow> nFields e' = nFields e \<Longrightarrow> tau_of C prm e' U = tau_of C prm e U"
  by (simp add: tau_of_def primitives_def Let_def)

lemma squeeze_density_frame:
  "nDims (squeeze_density e) = nDims e" "nFields (squeeze_density e) = nFields e"
  "nSpts (squeeze_density e) = nSpts e" "nFpts (squeeze_density e) = nFpts e"
  "Uavg (squeeze_density e) = Uavg e"
  by (simp_all add: squeeze_density_def Let_def)

lemma squeeze_density_sized:
  assumes "sol_sized e"
  shows "sol_sized (squeeze_density e)"
proof (cases "fst (neg_scan e)")
  case False
  then show ?thesis using assms by (simp add: squeeze_density_def)
next
  case True
  have len: "length (U_spts e) = nSpts e" "length (U_fpts e) = nFpts e"
    and rows: "\<And>spt. spt < nSpts e \<Longrightarrow> length (U_spts e ! spt) = nFields e"
      "\<And>fpt. fpt < nFpts e \<Longrightarrow> length (U_fpts e ! fpt) = nFields e"
    and nf: "0 < nFields e"
    using assms by (auto simp add: sol_sized_def list_all_length)
  show ?thesis
    unfolding sol_sized_def list_all_length squeeze_density_frame
    using len rows nf squeeze_density_rows[OF True]
    by (simp add: squeeze_density_def Let_def True)
qed


lemma squeeze_density_pos:
  assumes "sol_sized e" "1 / 10 ^ 10 \<le> Uavg e ! 0" "\<forall>v\<in>set (spt_densities e @ fpt_densities e). v \<noteq> 0"
  shows "\<forall>spt<nSpts e. 0 < U_spts (squeeze_density e) ! spt ! 0"
    and "\<forall>fpt<nFpts e. 0 < U_fpts (squeeze_density e) ! fpt ! 0"
proof -
  have tol: "(0::real) < 1 / 10 ^ 10" by simp
  show "\<forall>spt<nSpts e. 0 < U_spts (squeeze_density e) ! spt ! 0"
  proof (cases "\<exists>v\<in>set (spt_densities e @ fpt_densities e). v < 0")
    case True
    note T = density_squeeze_aux[OF assms(1) True assms(2)]
    have "1 / 10 ^ 10 \<le> U_spts (squeeze_density e) ! spt ! 0" if "spt < nSpts e" for spt
      using T that by blast
    then show ?thesis
      using tol by (meson less_le_trans)
  next
    case False
    then have same: "squeeze_density e = e"
      by (simp add: squeeze_density_def neg_scan_fst)
    have "0 < U_spts e ! spt ! 0" if "spt < nSpts e" for spt
    proof -
      have "U_spts e ! spt ! 0 \<in> set (spt_densities e @ fpt_densities e)"
        using that by (simp add: spt_densities_def)
      then show ?thesis
        using False assms(3) by (metis less_linear)
    qed
    then show ?thesis by (simp add: same)
  qed
  show "\<forall>fpt<nFpts e. 0 < U_fpts (squeeze_density e) ! fpt ! 0"
  proof (cases "\<exists>v\<in>set (spt_densities e @ fpt_densities e). v < 0")
    case True
    note T = density_squeeze_aux[OF assms(1) True assms(2)]
    have "1 / 10 ^ 10 \<le> U_fpts (squeeze_density e) ! fpt ! 0" if "fpt < nFpts e" for fpt
      using T that by blast
    then show ?thesis
      using tol by (meson less_le_trans)
  next
    case False
    then have same: "squeeze_density e = e"
      by (simp add: squeeze_density_def neg_scan_fst)
    have "0 < U_fpts e ! fpt ! 0" if "fpt < nFpts e" for fpt
    proof -
      have "U_fpts e ! fpt ! 0 \<in> set (spt_densities e @ fpt_densities e)"
        using that by (simp add: fpt_densities_def)
      then show ?thesis
        using False assms(3) by (metis less_linear)
    qed
    then show ?thesis by (simp add: same)
  qed
qed

lemma entropy_Eps_eq:
  assumes "nDims e = 2 \<or> nDims e = 3" "Uavg e ! 0 \<noteq> 0"
  shows "entropy_Eps C prm e = minTau C prm e / (minTau C prm e - tau_fn prm (nDims e) (Uavg e))"
proof -
  define w where "w = (if nDims e = 3 then Uavg e ! 3 / Uavg e ! 0 else 0)"
  define P where "P = (gamma prm - 1) * (Uavg e ! (nDims e + 1) - 1 / 2 * Uavg e ! 0 *
          (Uavg e ! 1 / Uavg e ! 0 * (Uavg e ! 1 / Uavg e ! 0)
           + Uavg e ! 2 / Uavg e ! 0 * (Uavg e ! 2 / Uavg e ! 0) + w * w))"
  have eps: "entropy_Eps C prm e
      = minTau C prm e / (minTau C prm e - P + exps0 prm * (Uavg e ! 0) powr gamma prm)"
    unfolding entropy_Eps_def Let_def P_def w_def ..
  have "P - exps0 prm * (Uavg e ! 0) powr gamma prm = tau_fn prm (nDims e) (Uavg e)"
    using assms(1)
  proof
    assume "nDims e = 2"
    then show ?thesis
      using assms(2) unfolding P_def w_def
      by (simp add: tau_fn_def eval_nat_numeral lessThan_Suc power2_eq_square) (simp add: field_simps)
  next
    assume "nDims e = 3"
    then show ?thesis
      using assms(2) unfolding P_def w_def
      by (simp add: tau_fn_def eval_nat_numeral lessThan_Suc power2_eq_square) (simp add: field_simps)
  qed
  then have "minTau C prm e - P + exps0 prm * (Uavg e ! 0) powr gamma prm
      = minTau C prm e - tau_fn prm (nDims e) (Uavg e)"
    by linarith
  then show ?thesis
    by (simp only: eps)
qed

lemma squeeze_entropy_settles:
  assumes sz: "sol_sized e"
    and ns: "equation prm = NAVIER_STOKES C" "NAVIER_STOKES C \<noteq> ADVECTION_DIFFUSION C"
    and nd: "nDims e = 2 \<or> nDims e = 3" "nFields e = nDims e + 2"
    and gs: "1 \<le> gamma prm" "0 \<le> exps0 prm"
    and avg: "0 < Uavg e ! 0" "0 < tau_of C prm e (Uavg e)"
    and pos: "\<forall>spt<nSpts e. 0 < U_spts e ! spt ! 0" "\<forall>fpt<nFpts e. 0 < U_fpts e ! fpt ! 0"
  shows "settled C prm (squeeze_entropy C prm e)"
proof (cases "minTau C prm e < 0")
  case False
  then have same: "squeeze_entropy C prm e = e"
    by (simp add: squeeze_entropy_def)
  have "0 \<le> tau_of C prm e (U_spts e ! spt)" if "spt < nSpts e" for spt
    using minTau_le(1)[OF that, of C prm] False by linarith
  moreover have "0 \<le> tau_of C prm e (U_fpts e ! fpt)" if "fpt < nFpts e" for fpt
    using minTau_le(2)[OF that, of C prm] False by linarith
  ultimately show ?thesis
    using pos by (simp add: same settled_def)
next
  case True
  let ?e2 = "squeeze_entropy C prm e"
  define mt where "mt = minTau C prm e"
  define ta where "ta = tau_fn prm (nDims e) (Uavg e)"
  define th where "th = entropy_Eps C prm e"
  have ta: "0 < ta"
    using avg primitives_NS(2)[OF ns nd, of "Uavg e"] by (simp add: ta_def)
  have mtn: "mt < 0"
    using True by (simp add: mt_def)
  have th: "th = mt / (mt - ta)"
    using entropy_Eps_eq[OF nd(1), of C prm] avg(1) by (simp add: th_def mt_def ta_def)
  have den: "mt - ta < 0"
    using ta mtn by linarith
  have th01: "0 \<le> th" "th \<le> 1"
    using den mtn ta by (simp_all add: th divide_nonpos_neg field_simps)
  have thpos: "0 < th"
    using den mtn by (simp add: th divide_neg_neg)
  have bal: "th * ta + (1 - th) * mt = 0"
  proof -
    have "th * (mt - ta) = mt"
      using den by (simp add: th)
    then show ?thesis
      by (simp add: algebra_simps)
  qed
  have len: "length (U_spts e) = nSpts e" "length (U_fpts e) = nFpts e"
    and rows: "\<And>spt. spt < nSpts e \<Longrightarrow> length (U_spts e ! spt) = nFields e"
      "\<And>fpt. fpt < nFpts e \<Longrightarrow> length (U_fpts e ! fpt) = nFields e"
    using sz by (auto simp add: sol_sized_def list_all_length)
  have frame: "nDims ?e2 = nDims e" "nFields ?e2 = nFields e" "nSpts ?e2 = nSpts e" "nFpts ?e2 = nFpts e"
    by (simp_all add: squeeze_entropy_def Let_def)
  have newS: "U_spts ?e2 ! spt ! i = th * Uavg e ! i + (1 - th) * U_spts e ! spt ! i"
    if "spt < nSpts e" "i < nFields e" for spt i
    using that len rows(1)[OF that(1)] True
    by (simp add: squeeze_entropy_def Let_def th_def nth_mat_loop)
  have newF: "U_fpts ?e2 ! fpt ! i = th * Uavg e ! i + (1 - th) * U_fpts e ! fpt ! i"
    if "fpt < nFpts e" "i < nFields e" for fpt i
    using that len rows(2)[OF that(1)] True
    by (simp add: squeeze_entropy_def Let_def th_def nth_mat_loop)
  have good: "0 < N ! 0 \<and> 0 \<le> tau_of C prm ?e2 N"
    if N: "\<forall>i<nFields e. N ! i = th * Uavg e ! i + (1 - th) * B ! i"
      and B: "0 < B ! 0" "mt \<le> tau_of C prm e B" for N B
  proof -
    have N0: "N ! 0 = th * Uavg e ! 0 + (1 - th) * B ! 0"
      using N nd(2) by simp
    have "0 < th * Uavg e ! 0" "0 \<le> (1 - th) * B ! 0"
      using thpos avg(1) th01 B(1) by simp_all
    then have p: "0 < N ! 0"
      unfolding N0 by linarith
    have tb: "tau_of C prm e B = tau_fn prm (nDims e) B"
      using primitives_NS(2)[OF ns nd] B(1) by simp
    have tn: "tau_of C prm ?e2 N = tau_fn prm (nDims e) N"
      using primitives_NS(2)[OF ns nd, of N] p tau_of_cong[OF frame(1,2)] by simp
    have "\<forall>i\<le>nDims e + 1. N ! i = th * Uavg e ! i + (1 - th) * B ! i"
      using N nd(2) by simp
    from tau_fn_concave[OF avg(1) B(1) th01 gs this]
    have "th * ta + (1 - th) * tau_fn prm (nDims e) B \<le> tau_fn prm (nDims e) N"
      by (simp add: ta_def)
    moreover have "(1 - th) * mt \<le> (1 - th) * tau_fn prm (nDims e) B"
      using B(2) th01 tb by (intro mult_left_mono) auto
    ultimately have "0 \<le> tau_fn prm (nDims e) N"
      using bal by linarith
    then show ?thesis
      using p tn by simp
  qed
  have "0 < U_spts ?e2 ! spt ! 0 \<and> 0 \<le> tau_of C prm ?e2 (U_spts ?e2 ! spt)" if "spt < nSpts e" for spt
    using good[of "U_spts ?e2 ! spt" "U_spts e ! spt"] newS[OF that] pos(1) that
      minTau_le(1)[OF that, of C prm] by (simp add: mt_def)
  moreover have "0 < U_fpts ?e2 ! fpt ! 0 \<and> 0 \<le> tau_of C prm ?e2 (U_fpts ?e2 ! fpt)" if "fpt < nFpts e" for fpt
    using good[of "U_fpts ?e2 ! fpt" "U_fpts e ! fpt"] newF[OF that] pos(2) that
      minTau_le(2)[OF that, of C prm] by (simp add: mt_def)
  ultimately show ?thesis
    by (simp add: settled_def frame)
qed

lemma checkEntropy_settles:
  assumes "sol_sized e"
    and "equation prm = NAVIER_STOKES C" "NAVIER_STOKES C \<noteq> ADVECTION_DIFFUSION C"
    and "nDims e = 2 \<or> nDims e = 3" "nFields e = nDims e + 2"
    and "1 \<le> gamma prm" "0 \<le> exps0 prm"
    and "1 / 10 ^ 10 \<le> Uavg e ! 0" "0 < tau_of C prm e (Uavg e)"
    and "\<forall>v\<in>set (spt_densities e @ fpt_densities e). v \<noteq> 0"
  shows "settled C prm (checkEntropy C prm e)"
proof -
  let ?e1 = "squeeze_density e"
  have tol: "(0::real) < 1 / 10 ^ 10" by simp
  have a0: "0 < Uavg ?e1 ! 0"
    using assms(8) tol by (simp add: squeeze_density_frame)
  have ta: "0 < tau_of C prm ?e1 (Uavg ?e1)"
    using assms(9) tau_of_cong[of ?e1 e] by (simp add: squeeze_density_frame)
  have pos: "\<forall>spt<nSpts ?e1. 0 < U_spts ?e1 ! spt ! 0" "\<forall>fpt<nFpts ?e1. 0 < U_fpts ?e1 ! fpt ! 0"
    using squeeze_density_pos[OF assms(1,8,10)] by (simp_all add: squeeze_density_frame)
  have nd: "nDims ?e1 = 2 \<or> nDims ?e1 = 3" "nFields ?e1 = nDims ?e1 + 2"
    using assms(4,5) by (simp_all add: squeeze_density_frame)
  show ?thesis
    unfolding checkEntropy_def
    by (rule squeeze_entropy_settles[OF squeeze_density_sized[OF assms(1)] assms(2,3) nd assms(6,7) a0 ta pos])
qed


text \<open>
  Claim C7, as the code has it, in exact arithmetic. With every operation of
  \<open>ele::checkEntropy\<close> carried out over the reals, squeezing is idempotent on every
  Navier-Stokes element state whose mean state is admissible: in two or three dimensions, with
  \<open>gamma \<ge> 1\<close> and \<open>exps0 \<ge> 0\<close>, if the mean density \<open>Uavg[0]\<close> is at least \<open>1e-10\<close>, the mean
  state has \<open>tau > 0\<close> and no point density is exactly zero, then the state produced by a first
  application has a positive density and \<open>tau \<ge> 0\<close> at every point, and applying
  \<open>ele::checkEntropy\<close> a second time to it changes no solution-point or flux-point value (nor
  anything else of the element).
\<close>

theorem checkEntropy_idempotent:
  assumes "sol_sized e"
    and "equation prm = NAVIER_STOKES C" "NAVIER_STOKES C \<noteq> ADVECTION_DIFFUSION C"
    and "nDims e = 2 \<or> nDims e = 3" "nFields e = nDims e + 2"
    and "1 \<le> gamma prm" "0 \<le> exps0 prm"
    and "1 / 10 ^ 10 \<le> Uavg e ! 0" "0 < tau_of C prm e (Uavg e)"
    and "\<forall>v\<in>set (spt_densities e @ fpt_densities e). v \<noteq> 0"
  shows "checkEntropy C prm (checkEntropy C prm e) = checkEntropy C prm e
       \<and> settled C prm (checkEntropy C prm e)"
  using settled_fixed[OF checkEntropy_settles[OF assms]] checkEntropy_settles[OF assms] by simp

lemma upt_8: "[0..<8] = [0, 1, 2, 3, 4, 5, 6, 7]"
  by (simp add: upt_rec)

lemma tau_of_2d:
  assumes "nDims e = 2" "nFields e = 4"
  shows "tau_of rk_consts blank_input e [r, m1, m2, E] = 2 / 5 * (E - 1 / 2 * r * (m1 / r * (m1 / r) + m2 / r * (m2 / r)))"
  using assms by (simp add: tau_of_def primitives_def rk_consts_def blank_input_def Let_def)

lemma cell_swap_dims:
  "nDims cell_swap = 2" "nFields cell_swap = 4" "nSpts cell_swap = 4" "nFpts cell_swap = 8"
  "nDims cell_swapped = 2" "nFields cell_swapped = 4" "nSpts cell_swapped = 4" "nFpts cell_swapped = 8"
  "Uavg cell_swap = [1, 3, 0, 1]" "Uavg cell_swapped = [1, 3, 0, 1]"
  by (simp_all add: cell_swap_def cell_swapped_def blank_ele_def)

lemma cell_swap_rows:
  "U_spts cell_swap = [[1, 2, 0, 1], [1, 4, 0, 1], [1, 2, 0, 1], [1, 4, 0, 1]]"
  "U_fpts cell_swap = [[1, 2, 0, 1], [1, 4, 0, 1], [1, 4, 0, 1], [1, 4, 0, 1],
                [1, 4, 0, 1], [1, 2, 0, 1], [1, 2, 0, 1], [1, 2, 0, 1]]"
  "U_spts cell_swapped = [[1, 4, 0, 1], [1, 2, 0, 1], [1, 4, 0, 1], [1, 2, 0, 1]]"
  "U_fpts cell_swapped = [[1, 4, 0, 1], [1, 2, 0, 1], [1, 2, 0, 1], [1, 2, 0, 1],
                [1, 2, 0, 1], [1, 4, 0, 1], [1, 4, 0, 1], [1, 4, 0, 1]]"
  by (simp_all add: cell_swap_def cell_swapped_def blank_ele_def)

lemma cell_swap_minTau:
  "minTau rk_consts blank_input cell_swap = - 14 / 5"
  "minTau rk_consts blank_input cell_swapped = - 14 / 5"
  unfolding minTau_def cell_swap_dims upt_8 upt_small cell_swap_rows
  by (simp_all add: tau_of_2d[OF cell_swap_dims(1,2)] tau_of_2d[OF cell_swap_dims(5,6)])

lemma cell_swap_Eps:
  "entropy_Eps rk_consts blank_input cell_swap = 2"
  "entropy_Eps rk_consts blank_input cell_swapped = 2"
  unfolding entropy_Eps_def cell_swap_minTau cell_swap_dims
  by (simp_all add: blank_input_def Let_def)

lemma cell_swap_no_density_squeeze:
  "squeeze_density cell_swap = cell_swap" "squeeze_density cell_swapped = cell_swapped"
  by (simp_all add: squeeze_density_def neg_scan_fst spt_densities_def fpt_densities_def
      cell_swap_dims cell_swap_rows upt_8 upt_small)

lemma cell_swap_pass:
  "checkEntropy rk_consts blank_input cell_swap = cell_swapped"
  "checkEntropy rk_consts blank_input cell_swapped = cell_swap"
proof -
  have "squeeze_entropy rk_consts blank_input cell_swap = cell_swapped"
    unfolding squeeze_entropy_def cell_swap_minTau cell_swap_Eps Let_def cell_swap_dims cell_swap_rows
    by (simp add: mat_loop_def mat_set_def upt_8 upt_small cell_swapped_def)
  then show "checkEntropy rk_consts blank_input cell_swap = cell_swapped"
    by (simp add: checkEntropy_def cell_swap_no_density_squeeze)
  have "squeeze_entropy rk_consts blank_input cell_swapped = cell_swap"
    unfolding squeeze_entropy_def cell_swap_minTau cell_swap_Eps Let_def cell_swap_dims cell_swap_rows
    by (simp add: mat_loop_def mat_set_def upt_8 upt_small cell_swapped_def cell_swap_def)
  then show "checkEntropy rk_consts blank_input cell_swapped = cell_swap"
    by (simp add: checkEntropy_def cell_swap_no_density_squeeze)
qed

text \<open>
  Without an admissible mean the second pass does change the state. On an element whose
  points hold the states \<open>(1, 2, 0, 1)\<close> and \<open>(1, 4, 0, 1)\<close> and whose mean is \<open>(1, 3, 0, 1)\<close>,
  all of negative pressure, the first pass reflects every point about the mean (\<open>Eps = 2\<close>)
  and the second pass reflects it back.
\<close>

theorem checkEntropy_idempotent_counterexample:
  "U_spts (checkEntropy rk_consts blank_input cell_swap) ! 0 = [1, 4, 0, 1]
   \<and> U_spts (checkEntropy rk_consts blank_input (checkEntropy rk_consts blank_input cell_swap)) ! 0 = [1, 2, 0, 1]
   \<and> Uavg cell_swap = [1, 3, 0, 1]
   \<and> checkEntropy rk_consts blank_input (checkEntropy rk_consts blank_input cell_swap)
       \<noteq> checkEntropy rk_consts blank_input cell_swap"
proof -
  have "cell_swap \<noteq> cell_swapped"
  proof
    assume "cell_swap = cell_swapped"
    then have "U_spts cell_swap = U_spts cell_swapped" by simp
    then show False by (simp add: cell_swap_rows)
  qed
  then show ?thesis
    by (simp add: cell_swap_pass cell_swap_rows cell_swap_dims)
qed

lemma cell_fast_facts:
  "sol_sized cell_fast" "nDims cell_fast = 2" "nFields cell_fast = 4" "Uavg cell_fast = [1, 0, 0, 1]"
  "spt_densities cell_fast @ fpt_densities cell_fast = [1]"
  by (simp_all add: cell_fast_def one_spt_def blank_ele_def sol_sized_def spt_densities_def
      fpt_densities_def upt_small)

lemma cell_fast_squeezed:
  "U_spts (checkEntropy rk_consts blank_input cell_fast) = [[1, 1, 0, 1]]"
proof -
  have d: "squeeze_density cell_fast = cell_fast"
    by (simp add: squeeze_density_def neg_scan_fst cell_fast_facts)
  have rows: "U_spts cell_fast = [[1, 2, 0, 1]]" "U_fpts cell_fast = []" "nSpts cell_fast = 1" "nFpts cell_fast = 0"
    by (simp_all add: cell_fast_def one_spt_def blank_ele_def)
  have mt: "minTau rk_consts blank_input cell_fast = - 2 / 5"
    unfolding minTau_def rows upt_small
    by (simp add: tau_of_2d[OF cell_fast_facts(2,3)])
  have ep: "entropy_Eps rk_consts blank_input cell_fast = 1 / 2"
    unfolding entropy_Eps_def mt cell_fast_facts
    by (simp add: blank_input_def Let_def)
  show ?thesis
    unfolding checkEntropy_def d squeeze_entropy_def mt ep Let_def rows cell_fast_facts
    by (simp add: mat_loop_def mat_set_def upt_small)
qed

text \<open>
  The theorem on a one-point cell with state \<open>(1, 2, 0, 1)\<close> and mean \<open>(1, 0, 0, 1)\<close>: the
  first pass blends the point to \<open>(1, 1, 0, 1)\<close>, the second changes nothing.
\<close>

theorem checkEntropy_idempotent_witness:
  "checkEntropy rk_consts blank_input (checkEntropy rk_consts blank_input cell_fast)
     = checkEntropy rk_consts blank_input cell_fast
   \<and> U_spts cell_fast = [[1, 2, 0, 1]]
   \<and> U_spts (checkEntropy rk_consts blank_input cell_fast) = [[1, 1, 0, 1]]"
proof -
  have ns: "equation blank_input = NAVIER_STOKES rk_consts" "NAVIER_STOKES rk_consts \<noteq> ADVECTION_DIFFUSION rk_consts"
    "1 \<le> gamma blank_input" "0 \<le> exps0 blank_input"
    by (simp_all add: blank_input_def rk_consts_def)
  have nd: "nDims cell_fast = 2 \<or> nDims cell_fast = 3" "nFields cell_fast = nDims cell_fast + 2"
    by (simp_all add: cell_fast_facts)
  have avg: "1 / 10 ^ 10 \<le> Uavg cell_fast ! 0"
    by (simp add: cell_fast_facts)
  have tau: "0 < tau_of rk_consts blank_input cell_fast (Uavg cell_fast)"
    by (simp add: cell_fast_facts(4) tau_of_2d[OF cell_fast_facts(2,3)])
  have nz: "\<forall>v\<in>set (spt_densities cell_fast @ fpt_densities cell_fast). v \<noteq> 0"
    by (simp add: cell_fast_facts)
  have "U_spts cell_fast = [[1, 2, 0, 1]]"
    by (simp add: cell_fast_def one_spt_def blank_ele_def)
  then show ?thesis
    using checkEntropy_idempotent[OF cell_fast_facts(1) ns(1,2) nd ns(3,4) avg tau nz]
    by (simp add: cell_fast_squeezed)
qed

lemma cell_rest_dims:
  "nDims cell_rest = 2" "nFields cell_rest = 4" "nSpts cell_rest = 4" "nFpts cell_rest = 0"
  "nDims cell_below = 2" "nFields cell_below = 4" "nSpts cell_below = 4" "nFpts cell_below = 0"
  "Uavg cell_rest = [1, 0, 0, 3 / 10]" "Uavg cell_below = [1, 0, 0, 3 / 10]"
  "U_spts cell_rest = [[1, 0, 0, - 1 / 10], [1, 0, 0, 7 / 10], [1, 0, 0, 3 / 10], [1, 0, 0, 3 / 10]]"
  "U_spts cell_below = [[1, 0, 0, - 1 / 2 ^ 56], [1, 0, 0, 3 / 5], [1, 0, 0, 3 / 10], [1, 0, 0, 3 / 10]]"
  "U_fpts cell_rest = []" "U_fpts cell_below = []"
  by (simp_all add: cell_rest_def cell_below_def blank_ele_def)

lemma cell_rest_no_density_squeeze:
  "squeeze_density cell_rest = cell_rest" "squeeze_density cell_below = cell_below"
  by (simp_all add: squeeze_density_def neg_scan_fst spt_densities_def fpt_densities_def
      cell_rest_dims upt_small)

lemma cell_rest_minTau:
  "minTau rk_consts blank_input cell_rest = - 1 / 25"
  "minTau rk_consts blank_input cell_below = - 2 / (5 * 2 ^ 56)"
  unfolding minTau_def cell_rest_dims upt_small
  by (simp_all add: tau_of_2d[OF cell_rest_dims(1,2)] tau_of_2d[OF cell_rest_dims(5,6)])

lemma cell_rest_Eps:
  "entropy_Eps rk_consts blank_input cell_rest = 1 / 4"
  "entropy_Eps rk_consts blank_input cell_below = (1 / 2 ^ 56) / (1 / 2 ^ 56 + 3 / 10)"
  unfolding entropy_Eps_def cell_rest_minTau cell_rest_dims
  by (simp_all add: blank_input_def Let_def field_simps)

text \<open>
  On the fluid at rest the exact pass puts the first point on the bound: its energy, and with
  it \<open>tau\<close>, becomes \<open>0\<close>.
\<close>

lemma cell_rest_pass:
  "U_spts (checkEntropy rk_consts blank_input cell_rest)
     = [[1, 0, 0, 0], [1, 0, 0, 3 / 5], [1, 0, 0, 3 / 10], [1, 0, 0, 3 / 10]]"
  "tau_of rk_consts blank_input cell_rest (U_spts (checkEntropy rk_consts blank_input cell_rest) ! 0) = 0"
proof -
  show r: "U_spts (checkEntropy rk_consts blank_input cell_rest)
     = [[1, 0, 0, 0], [1, 0, 0, 3 / 5], [1, 0, 0, 3 / 10], [1, 0, 0, 3 / 10]]"
    unfolding checkEntropy_def cell_rest_no_density_squeeze squeeze_entropy_def cell_rest_minTau
      cell_rest_Eps Let_def
    by (simp add: cell_rest_dims mat_loop_def mat_set_def upt_small)
  show "tau_of rk_consts blank_input cell_rest (U_spts (checkEntropy rk_consts blank_input cell_rest) ! 0) = 0"
    unfolding r by (simp add: tau_of_2d[OF cell_rest_dims(1,2)])
qed

text \<open>
  The state that lies \<open>2^-56\<close> below the bound at the first point is not a fixed point: the
  pass moves the first point back onto the bound.
\<close>

lemma cell_below_moves:
  "U_spts (checkEntropy rk_consts blank_input cell_below) ! 0 = [1, 0, 0, 0]"
  "checkEntropy rk_consts blank_input cell_below \<noteq> cell_below"
proof -
  show r: "U_spts (checkEntropy rk_consts blank_input cell_below) ! 0 = [1, 0, 0, 0]"
    unfolding checkEntropy_def cell_rest_no_density_squeeze squeeze_entropy_def cell_rest_minTau
      cell_rest_Eps Let_def
    by (simp add: cell_rest_dims mat_loop_def mat_set_def upt_small field_simps)
  show "checkEntropy rk_consts blank_input cell_below \<noteq> cell_below"
  proof
    assume "checkEntropy rk_consts blank_input cell_below = cell_below"
    then have "U_spts (checkEntropy rk_consts blank_input cell_below) ! 0 = U_spts cell_below ! 0"
      by simp
    then show False
      unfolding r by (simp add: cell_rest_dims)
  qed
qed

subsection \<open>Standard and chain-rule divergence\<close>

text \<open>
  The adjoint of the space-time Jacobian with a zero grid-velocity column is the adjoint of the
  spatial Jacobian, bordered by zeros, with the determinant in the corner.
\<close>

lemma upt_Suc3: "[0..<Suc (Suc (Suc 0))] = [0, Suc 0, Suc (Suc 0)]" "[0..<Suc (Suc (Suc (Suc 0)))] = [0, Suc 0, Suc (Suc 0), Suc (Suc (Suc 0))]"
  by (simp_all add: upt_rec)

lemma adjoint_block:
  "mat_adjoint [[a, b, c, 0], [d, e, f, 0], [g, h, k, 0], [0, 0, 0, 1]]
     = [[e * k - f * h, c * h - b * k, b * f - c * e, 0],
        [f * g - d * k, a * k - c * g, c * d - a * f, 0],
        [d * h - e * g, b * g - a * h, a * e - b * d, 0],
        [0, 0, 0, a * (e * k - f * h) - b * (d * k - f * g) + c * (d * h - e * g)]]"
  by (simp add: mat_adjoint_def minor_mat_def upt_Suc3 eval_nat_numeral algebra_simps)

lemma list3: "length xs = 3 \<Longrightarrow> xs = [xs ! 0, xs ! 1, xs ! 2]"
  by (cases xs; cases "tl xs"; cases "tl (tl xs)") (auto simp add: eval_nat_numeral)

lemma nth_map_upt0: "i < n \<Longrightarrow> map f [0..<n] ! i = f i"
  by simp

text \<open>Entries of the flux arrays of the two forms.\<close>

lemma flux_static_entry:
  assumes "i < nDims e" "spt < nSpts e" "k < nFields e" "motion prm = 0"
  shows "F_spts (calcInviscidFlux_spts fl prm e) ! i ! spt ! k
           = (\<Sum>j<nDims e. JGinv_spts e ! spt ! i ! j * (fl (U_spts e ! spt) ! j ! k))"
  using assms by (simp add: calcInviscidFlux_spts_def fold_add_sum)

lemma flux_moving_entry:
  assumes "i < nDims e" "spt < nSpts e" "k < nFields e" "motion prm \<noteq> 0"
  shows "F_spts (calcInviscidFlux_spts fl prm e) ! i ! spt ! k = fl (U_spts e ! spt) ! i ! k"
  using assms by (simp add: calcInviscidFlux_spts_def)

lemma flux_frame:
  "nDims (calcInviscidFlux_spts fl prm e) = nDims e" "nSpts (calcInviscidFlux_spts fl prm e) = nSpts e"
  "nFields (calcInviscidFlux_spts fl prm e) = nFields e"
  "divF_spts (calcInviscidFlux_spts fl prm e) = divF_spts e"
  "Jac_spts (calcInviscidFlux_spts fl prm e) = Jac_spts e"
  "gridVel_spts (calcInviscidFlux_spts fl prm e) = gridVel_spts e"
  "dU_spts (calcInviscidFlux_spts fl prm e) = dU_spts e"
  by (simp_all add: calcInviscidFlux_spts_def)

text \<open>
  On an element whose Jacobian is the same at every solution point, the adjoint weights leave
  the operator product: the standard divergence is the adjoint-weighted sum of the reference
  derivatives of the physical flux.
\<close>

lemma standard_entry:
  assumes "affine_static e step J" "spt < nSpts e" "k < nFields e"
  shows "divF_standard op fl prm step e ! spt ! k
           = (\<Sum>d<nDims e. \<Sum>j<nDims e. (if nDims e = 2 then adj2 J else adj3 J) ! d ! j * grad_phys op fl e d j spt k)"
proof -
  let ?G = "if nDims e = 2 then adj2 J else adj3 J"
  let ?e1 = "calcInviscidFlux_spts fl (prm\<lparr>motion := 0\<rparr>) e"
  have step: "step < length (divF_spts e)"
    using assms(1) by (simp add: affine_static_def)
  have G: "JGinv_spts e ! j = ?G" if "j < nSpts e" for j
    using assms(1) that by (simp add: affine_static_def)
  have inner: "(\<Sum>j<nSpts e. opp_grad_spts op ! d ! spt ! j * (\<Sum>j'<nDims e. ?G ! d ! j' * (fl (U_spts e ! j) ! j' ! k)))
        = (\<Sum>j'<nDims e. ?G ! d ! j' * grad_phys op fl e d j' spt k)" for d
  proof -
    have "(\<Sum>j<nSpts e. opp_grad_spts op ! d ! spt ! j * (\<Sum>j'<nDims e. ?G ! d ! j' * (fl (U_spts e ! j) ! j' ! k)))
        = (\<Sum>j<nSpts e. \<Sum>j'<nDims e. ?G ! d ! j' * (opp_grad_spts op ! d ! spt ! j * (fl (U_spts e ! j) ! j' ! k)))"
      by (simp add: sum_distrib_left algebra_simps)
    also have "\<dots> = (\<Sum>j'<nDims e. \<Sum>j<nSpts e. ?G ! d ! j' * (opp_grad_spts op ! d ! spt ! j * (fl (U_spts e ! j) ! j' ! k)))"
      by (rule sum.swap)
    also have "\<dots> = (\<Sum>j'<nDims e. ?G ! d ! j' * grad_phys op fl e d j' spt k)"
      by (simp add: grad_phys_def sum_distrib_left)
    finally show ?thesis .
  qed
  have "divF_standard op fl prm step e ! spt ! k
      = (\<Sum>d<nDims e. opp_entry (opp_grad_spts op ! d) (F_spts ?e1 ! d) (nSpts e) spt k)"
    using assms(2,3) step
    by (simp add: divF_standard_def calcFluxDivergence_def applyDivFSpts_def flux_frame)
  also have "\<dots> = (\<Sum>d<nDims e. \<Sum>j<nSpts e. opp_grad_spts op ! d ! spt ! j
                        * (\<Sum>j'<nDims e. ?G ! d ! j' * (fl (U_spts e ! j) ! j' ! k)))"
    unfolding opp_entry_def
    by (intro sum.cong refl) (simp add: flux_static_entry assms(3) G)
  also have "\<dots> = (\<Sum>d<nDims e. \<Sum>j'<nDims e. ?G ! d ! j' * grad_phys op fl e d j' spt k)"
    by (simp add: inner)
  finally show ?thesis .
qed


text \<open>The chain-rule form, in two and in three dimensions.\<close>

lemma gradF_entry:
  assumes "d1 < nDims e" "d2 < nDims e" "spt < nSpts e" "k < nFields e" "motion prm \<noteq> 0"
  shows "dF_spts (applyGradFSpts op (calcInviscidFlux_spts fl prm e)) ! d1 ! d2 ! spt ! k
           = grad_phys op fl e d1 d2 spt k"
  using assms
  by (simp add: applyGradFSpts_def flux_frame opp_entry_def grad_phys_def flux_moving_entry)

lemma gradF_frame:
  "nDims (applyGradFSpts op e) = nDims e" "nSpts (applyGradFSpts op e) = nSpts e"
  "nFields (applyGradFSpts op e) = nFields e" "divF_spts (applyGradFSpts op e) = divF_spts e"
  "Jac_spts (applyGradFSpts op e) = Jac_spts e" "gridVel_spts (applyGradFSpts op e) = gridVel_spts e"
  "dU_spts (applyGradFSpts op e) = dU_spts e"
  by (simp_all add: applyGradFSpts_def)

lemma gradF_sizes:
  assumes "d1 < nDims e" "d2 < nDims e"
  shows "length (dF_spts (applyGradFSpts op e) ! d1 ! d2) = nSpts e"
    and "spt < nSpts e \<Longrightarrow> length (dF_spts (applyGradFSpts op e) ! d1 ! d2 ! spt) = nFields e"
  using assms by (simp_all add: applyGradFSpts_def)

lemma chain_entry_2d:
  assumes "affine_static e step J" "nDims e = 2" "spt < nSpts e" "k < nFields e"
  shows "divF_chain_rule op fl prm step e ! spt ! k
           = grad_phys op fl e 0 0 spt k * J ! 1 ! 1 - grad_phys op fl e 0 1 spt k * J ! 0 ! 1
             + (- grad_phys op fl e 1 0 spt k * J ! 1 ! 0 + grad_phys op fl e 1 1 spt k * J ! 0 ! 0)"
proof -
  let ?p = "prm\<lparr>motion := 1\<rparr>"
  let ?e2 = "applyGradFSpts op (calcInviscidFlux_spts fl ?p e)"
  have m: "motion ?p \<noteq> 0" by simp
  have st: "step < length (divF_spts e)" "length (divF_spts e ! step) = nSpts e"
    "length (divF_spts e ! step ! spt) = nFields e"
    and J: "Jac_spts e ! spt = J" and gv: "gridVel_spts e ! spt ! 0 = 0" "gridVel_spts e ! spt ! Suc 0 = 0"
    using assms by (simp_all add: affine_static_def)
  have fr: "nDims ?e2 = 2" "nSpts ?e2 = nSpts e" "nFields ?e2 = nFields e" "divF_spts ?e2 = divF_spts e"
    "Jac_spts ?e2 = Jac_spts e" "gridVel_spts ?e2 = gridVel_spts e"
    by (simp_all add: gradF_frame flux_frame assms(2))
  have d2: "(0::nat) < nDims (calcInviscidFlux_spts fl ?p e)" "(1::nat) < nDims (calcInviscidFlux_spts fl ?p e)"
    by (simp_all add: flux_frame assms(2))
  have sz: "length (dF_spts ?e2 ! 0 ! 0) = nSpts e" "length (dF_spts ?e2 ! 0 ! 0 ! spt) = nFields e"
    "length (dF_spts ?e2 ! 1 ! 1) = nSpts e" "length (dF_spts ?e2 ! 1 ! 1 ! spt) = nFields e"
    using gradF_sizes(1)[OF d2(1) d2(1), where op = op] gradF_sizes(2)[OF d2(1) d2(1), where op = op and spt = spt]
      gradF_sizes(1)[OF d2(2) d2(2), where op = op] gradF_sizes(2)[OF d2(2) d2(2), where op = op and spt = spt] assms(3)
    by (simp_all add: flux_frame)
  have g: "dF_spts ?e2 ! d1 ! d2 ! spt ! k = grad_phys op fl e d1 d2 spt k" if "d1 < 2" "d2 < 2" for d1 d2
    using gradF_entry[where ?d1.0 = d1 and e = e and ?d2.0 = d2 and spt = spt and k = k and prm = ?p and op = op and fl = fl] that assms(2,3,4) by simp
  have "divF_chain_rule op fl prm step e ! spt ! k
      = divF_spts (transformGradF_spts step ?e2) ! step ! spt ! k"
    by (simp add: divF_chain_rule_def calcFluxDivergence_def)
  also have "\<dots> = grad_phys op fl e 0 0 spt k * J ! 1 ! 1 - grad_phys op fl e 0 1 spt k * J ! 0 ! 1
             + (- grad_phys op fl e 1 0 spt k * J ! 1 ! 0 + grad_phys op fl e 1 1 spt k * J ! 0 ! 0)"
    using st assms(3,4) sz
    by (simp add: transformGradF_spts_def fr Let_def nth_mat_loop J gv g)
  finally show ?thesis .
qed


lemma jacobian4_static:
  assumes "Jac_spts e ! spt = J" "gridVel_spts e ! spt ! 0 = 0" "gridVel_spts e ! spt ! Suc 0 = 0"
    "gridVel_spts e ! spt ! 2 = 0"
  shows "mat_adjoint (jacobian4 e spt)
           = [adj3 J ! 0 @ [0], adj3 J ! 1 @ [0], adj3 J ! 2 @ [0], [0, 0, 0, det3 J]]"
  by (simp add: jacobian4_def assms adjoint_block adj3_def det3_def Let_def)

lemma chain_entry_3d:
  assumes "affine_static e step J" "nDims e = 3" "spt < nSpts e" "k < nFields e"
  shows "divF_chain_rule op fl prm step e ! spt ! k
           = (\<Sum>d<3. \<Sum>j<3. adj3 J ! d ! j * grad_phys op fl e d j spt k)"
proof -
  let ?p = "prm\<lparr>motion := 1\<rparr>"
  let ?e2 = "applyGradFSpts op (calcInviscidFlux_spts fl ?p e)"
  have st: "step < length (divF_spts e)" "length (divF_spts e ! step) = nSpts e"
    "length (divF_spts e ! step ! spt) = nFields e"
    using assms by (simp_all add: affine_static_def)
  have fr: "nDims ?e2 = 3" "nSpts ?e2 = nSpts e" "nFields ?e2 = nFields e" "divF_spts ?e2 = divF_spts e"
    by (simp_all add: gradF_frame flux_frame assms(2))
  have J: "Jac_spts e ! spt = J" and gv: "gridVel_spts e ! spt ! 0 = 0" "gridVel_spts e ! spt ! Suc 0 = 0"
    "gridVel_spts e ! spt ! 2 = 0"
    using assms by (simp_all add: affine_static_def)
  have S: "mat_adjoint (jacobian4 ?e2 spt)
           = [adj3 J ! 0 @ [0], adj3 J ! 1 @ [0], adj3 J ! 2 @ [0], [0, 0, 0, det3 J]]"
    by (rule jacobian4_static) (simp_all add: gradF_frame flux_frame J gv)
  have g: "dF_spts ?e2 ! d1 ! d2 ! spt ! k = grad_phys op fl e d1 d2 spt k" if "d1 < 3" "d2 < 3" for d1 d2
    using gradF_entry[where ?d1.0 = d1 and e = e and ?d2.0 = d2 and spt = spt and k = k and prm = ?p and op = op and fl = fl] that assms(2,3,4) by simp
  have "divF_chain_rule op fl prm step e ! spt ! k
      = divF_spts (transformGradF_spts step ?e2) ! step ! spt ! k"
    by (simp add: divF_chain_rule_def calcFluxDivergence_def)
  also have "\<dots> = (\<Sum>d<3. \<Sum>j<3. adj3 J ! d ! j * grad_phys op fl e d j spt k)"
    using st assms(3,4)
    by (simp add: transformGradF_spts_def fr Let_def nth_mat_loop S g upt_small
        adj3_def eval_nat_numeral algebra_simps)
  finally show ?thesis .
qed

text \<open>
  Claim C6, as the code has it. For every element with zero grid velocity whose Jacobian is the
  same matrix at every solution point (an affine element, with \<open>JGinv_spts\<close> its adjoint as
  \<open>calcTransforms\<close> stores it), the stage divergence of the standard conservative form equals
  the one of the chain-rule form at every solution point and field, exactly over the reals.
\<close>

theorem divF_forms_agree:
  assumes "affine_static e step J" "spt < nSpts e" "k < nFields e"
  shows "divF_standard op fl prm step e ! spt ! k = divF_chain_rule op fl prm step e ! spt ! k"
proof -
  have "nDims e = 2 \<or> nDims e = 3"
    using assms(1) by (simp add: affine_static_def)
  then show ?thesis
  proof
    assume d: "nDims e = 2"
    show ?thesis
      by (simp add: standard_entry[OF assms] chain_entry_2d[OF assms(1) d assms(2,3)] d
          adj2_def eval_nat_numeral algebra_simps)
  next
    assume d: "nDims e = 3"
    show ?thesis
      by (simp add: standard_entry[OF assms] chain_entry_3d[OF assms(1) d assms(2,3)] d)
  qed
qed

lemmas p1_defs = quad_p1_def parallelogram_p1_def trapezoid_p1_def blank_ele_def blank_input_def
  lobatto_grad_def advection_flux_def

text \<open>The theorem on the order-1 parallelogram, at the first solution point.\<close>

theorem divF_forms_agree_witness:
  "affine_static parallelogram_p1 0 [[1, -1/2], [0, 1/2]]
   \<and> divF_standard lobatto_grad advection_flux blank_input 0 parallelogram_p1 ! 0 ! 0
       = divF_chain_rule lobatto_grad advection_flux blank_input 0 parallelogram_p1 ! 0 ! 0"
proof -
  have a: "affine_static parallelogram_p1 0 [[1, -1/2], [0, 1/2]]"
    by (simp add: affine_static_def p1_defs adj2_def eval_nat_numeral All_less_Suc)
  have n: "0 < nSpts parallelogram_p1" "0 < nFields parallelogram_p1"
    by (simp_all add: p1_defs)
  show ?thesis
    using a divF_forms_agree[OF a n, where op = lobatto_grad and fl = advection_flux and prm = blank_input]
    by simp
qed

text \<open>
  The two forms on the order-1 trapezoid, whose Jacobian varies from one solution point to the
  next: the conservative form differentiates the product of adjoint and flux, the chain-rule
  form multiplies the derivative of the flux by the local Jacobian.
\<close>

lemma trapezoid_standard:
  "divF_standard lobatto_grad advection_flux blank_input 0 trapezoid_p1 ! 0 ! 0 = 1/2"
  by (simp add: divF_standard_def calcFluxDivergence_def applyDivFSpts_def calcInviscidFlux_spts_def
      opp_entry_def p1_defs upt_small adj2_def eval_nat_numeral)

lemma trapezoid_chain:
  "divF_chain_rule lobatto_grad advection_flux blank_input 0 trapezoid_p1 ! 0 ! 0 = 1/4"
  by (simp add: divF_chain_rule_def calcFluxDivergence_def applyGradFSpts_def calcInviscidFlux_spts_def
      transformGradF_spts_def mat_loop_def mat_set_def Let_def
      opp_entry_def p1_defs upt_small adj2_def eval_nat_numeral)

text \<open>
  With zero grid velocity on the trapezoid, the state \<open>u = (0, 1, 0, 0)\<close> and unit advection
  velocity, the standard divergence at the first solution point is \<open>1/2\<close> and the chain-rule
  divergence is \<open>1/4\<close>.
\<close>

theorem divF_forms_counterexample:
  "gridVel_spts trapezoid_p1 = [[0, 0], [0, 0], [0, 0], [0, 0]]
   \<and> divF_standard lobatto_grad advection_flux blank_input 0 trapezoid_p1 ! 0 ! 0 = 1/2
   \<and> divF_chain_rule lobatto_grad advection_flux blank_input 0 trapezoid_p1 ! 0 ! 0 = 1/4"
  using trapezoid_standard trapezoid_chain by (simp add: p1_defs)

end
